(* ===== verification/Pets_Prelude.thy ===== *)
theory Pets_Prelude
  imports Complex_Main "HOL-Library.Word" "HOL-Library.Sublist"
begin

text \<open>
  Prelude of the development: the C++ integer types of \<^verbatim>\<open>NetMsg/Define.hpp\<close> as words, the
  faults a run of the program can end in, a bind for fallible steps, unsigned
  \<^verbatim>\<open>size_t\<close> arithmetic with its wrap-around, and the pieces of the C and C++ standard
  library the sources use (C strings,
  \<^verbatim>\<open>std::search\<close>, \<^verbatim>\<open>memchr\<close>, \<^verbatim>\<open>memcmp\<close>), with the lemmas the components share.
\<close>

named_theorems fault_simps \<open>rewriting of fallible steps\<close>
named_theorems size_simps \<open>size\_t arithmetic in range\<close>

section \<open>Integer types\<close>

text \<open>\<^verbatim>\<open>Define.hpp\<close>: BYTE, WORD, DWORD and QWORD are unsigned of 8 to 64 bits.\<close>

type_synonym BYTE = "8 word"
type_synonym WORD = "16 word"
type_synonym DWORD = "32 word"
type_synonym QWORD = "64 word"
type_synonym TILE = WORD
type_synonym MESSAGETYPE = WORD
type_synonym DNID = DWORD

section \<open>Faults\<close>

text \<open>
  What can stop a step from returning: a failed \<^verbatim>\<open>assert\<close> (the build type is Debug), a C++
  exception the sources do not catch, or undefined behaviour that the model makes explicit
  instead of giving it a value.
\<close>

datatype fault =
    AssertFail            \<comment> \<open>assert(...) aborts\<close>
  | LengthError           \<comment> \<open>std::length\_error of a vector that would be too long\<close>
  | OutOfRange            \<comment> \<open>std::out\_of\_range of std::string::at or substr\<close>
  | LogicError            \<comment> \<open>std::logic\_error: std::string built from a null pointer\<close>
  | BadAnyCast            \<comment> \<open>boost::bad\_any\_cast\<close>
  | BadFunctionCall       \<comment> \<open>std::bad\_function\_call: an empty std::function is called\<close>
  | NullDeref             \<comment> \<open>a null pointer is read\<close>
  | OutOfBounds           \<comment> \<open>a read past the end of a block of memory\<close>
  | BufferOverflow        \<comment> \<open>a write past the end of a block of memory\<close>
  | DoubleFree            \<comment> \<open>a block that is not allocated is freed\<close>
  | MissingReturn         \<comment> \<open>control leaves a non-void function without a return\<close>
  | FatalLog              \<comment> \<open>LOG\_FATAL or CHECK\_NOTNULL aborts\<close>
  | Undefined             \<comment> \<open>another use of an operation that its specification leaves undefined\<close>
  | Blocked               \<comment> \<open>a wait for a lock that the run does not release\<close>
  | Diverges              \<comment> \<open>a loop that does not end\<close>
  | NonPodVararg          \<comment> \<open>a class object is passed through an ellipsis\<close>

type_synonym 'a result = "fault + 'a"

definition bnd :: "'e + 'a \<Rightarrow> ('a \<Rightarrow> 'e + 'b) \<Rightarrow> 'e + 'b" where
  "bnd m f = (case m of Inl e \<Rightarrow> Inl e | Inr x \<Rightarrow> f x)"

lemma bnd_simps [simp, fault_simps]:
  "bnd (Inl e) f = Inl e" "bnd (Inr x) f = f x"
  by (simp_all add: bnd_def)

lemma bnd_eq_Inr: "bnd m f = Inr y \<longleftrightarrow> (\<exists>x. m = Inr x \<and> f x = Inr y)"
  by (cases m) simp_all

lemma bnd_eq_Inl: "bnd m f = Inl e \<longleftrightarrow> m = Inl e \<or> (\<exists>x. m = Inr x \<and> f x = Inl e)"
  by (cases m) simp_all

lemma bnd_assoc: "bnd (bnd m f) g = bnd m (\<lambda>x. bnd (f x) g)"
  by (cases m) simp_all

lemma bnd_cong [fundef_cong]:
  "m = m' \<Longrightarrow> (\<And>x. m' = Inr x \<Longrightarrow> f x = f' x) \<Longrightarrow> bnd m f = bnd m' f'"
  by (cases m') simp_all

text \<open>\<^verbatim>\<open>assert(c)\<close> with the build type Debug.\<close>

definition assert_c :: "bool \<Rightarrow> unit result" where
  "assert_c c = (if c then Inr () else Inl AssertFail)"

lemma assert_c_simps [simp, fault_simps]:
  "assert_c True = Inr ()" "assert_c False = Inl AssertFail"
  by (simp_all add: assert_c_def)

lemma assert_c_eq_Inr [simp]: "assert_c c = Inr u \<longleftrightarrow> c"
  by (cases c) simp_all

section \<open>Unsigned size arithmetic\<close>

text \<open>
  A \<^verbatim>\<open>size_t\<close> value is a \<open>nat\<close> below \<open>2 ^ 64\<close>; sums and differences wrap around.
  \<open>vec_max\<close> is \<^verbatim>\<open>max_size()\<close> of a \<^verbatim>\<open>std::vector<char>\<close>: a longer one is refused with
  \<^verbatim>\<open>std::length_error\<close>.
\<close>

definition size_max :: nat where
  "size_max = 2 ^ 64"

definition vec_max :: nat where
  "vec_max = 2 ^ 63 - 1"

definition sz_add :: "nat \<Rightarrow> nat \<Rightarrow> nat" where
  "sz_add a b = (a + b) mod size_max"

definition sz_sub :: "nat \<Rightarrow> nat \<Rightarrow> nat" where
  "sz_sub a b = (if b \<le> a then a - b else size_max + a - b)"

lemma sz_sub_le [simp, size_simps]: "b \<le> a \<Longrightarrow> sz_sub a b = a - b"
  by (simp add: sz_sub_def)

lemma sz_add_small [size_simps]: "a + b < size_max \<Longrightarrow> sz_add a b = a + b"
  by (simp add: sz_add_def)

lemma vec_max_size_max: "vec_max + vec_max < size_max" "vec_max < size_max"
  by (simp_all add: vec_max_def size_max_def)

lemma sz_add_vec [simp, size_simps]: "a \<le> vec_max \<Longrightarrow> b \<le> vec_max \<Longrightarrow> sz_add a b = a + b"
  using vec_max_size_max by (intro sz_add_small) linarith

text \<open>\<^verbatim>\<open>static_cast<int>\<close> of a wider integer keeps the low 32 bits, read as two's complement.\<close>

definition cast_int :: "int \<Rightarrow> int" where
  "cast_int x = (x + 2 ^ 31) mod 2 ^ 32 - 2 ^ 31"

lemma cast_int_small [simp]: "- (2 ^ 31) \<le> x \<Longrightarrow> x < 2 ^ 31 \<Longrightarrow> cast_int x = x"
  by (simp add: cast_int_def)

lemma cast_int_range: "- (2 ^ 31) \<le> cast_int x" "cast_int x < 2 ^ 31"
  by (simp_all add: cast_int_def pos_mod_bound [of "2 ^ 32", simplified] algebra_simps)

section \<open>Memory blocks\<close>

text \<open>Reading one byte, and overwriting a range, of a block of memory.\<close>

definition read_byte :: "BYTE list \<Rightarrow> nat \<Rightarrow> BYTE result" where
  "read_byte bs i = (if i < length bs then Inr (bs ! i) else Inl OutOfBounds)"

definition write_at :: "'a list \<Rightarrow> nat \<Rightarrow> 'a list \<Rightarrow> 'a list" where
  "write_at bs i d = take i bs @ d @ drop (i + length d) bs"

lemma length_write_at [simp]: "i + length d \<le> length bs \<Longrightarrow> length (write_at bs i d) = length bs"
  by (simp add: write_at_def)

lemma take_write_at [simp]: "i \<le> length bs \<Longrightarrow> take i (write_at bs i d) = take i bs"
  by (simp add: write_at_def)

lemma drop_take_write_at [simp]:
  "i + length d \<le> length bs \<Longrightarrow> take (length d) (drop i (write_at bs i d)) = d"
  by (simp add: write_at_def)

lemma drop_write_at_after [simp]:
  "i + length d \<le> length bs \<Longrightarrow> drop (i + length d) (write_at bs i d) = drop (i + length d) bs"
  by (simp add: write_at_def)

lemma slice_write_at_before:
  "i + n \<le> j \<Longrightarrow> j \<le> length bs \<Longrightarrow> take n (drop i (write_at bs j d)) = take n (drop i bs)"
  by (simp add: write_at_def drop_take)

lemma slice_append:
  "i \<le> j \<Longrightarrow> j \<le> k \<Longrightarrow> k \<le> length bs \<Longrightarrow>
    take (j - i) (drop i bs) @ take (k - j) (drop j bs) = take (k - i) (drop i bs)"
  using take_add [of "j - i" "k - j" "drop i bs"] by simp

lemma slice_write_at_extend:
  assumes "i \<le> j" "j + length d \<le> length bs"
  shows "take (j + length d - i) (drop i (write_at bs j d)) = take (j - i) (drop i bs) @ d"
proof -
  have "take (j + length d - i) (drop i (write_at bs j d)) =
      take (j - i) (drop i (write_at bs j d)) @ take (length d) (drop j (write_at bs j d))"
    using slice_append [of i j "j + length d" "write_at bs j d"] assms by simp
  then show ?thesis
    using assms by (simp add: slice_write_at_before)
qed

lemma slice_write_at_front:
  assumes "i + length d \<le> k" "k \<le> length bs"
  shows "take (k - i) (drop i (write_at bs i d)) =
    d @ take (k - (i + length d)) (drop (i + length d) bs)"
proof -
  have "take (k - i) (drop i (write_at bs i d)) =
      take (i + length d - i) (drop i (write_at bs i d)) @
      take (k - (i + length d)) (drop (i + length d) (write_at bs i d))"
    using assms by (intro slice_append [symmetric]) simp_all
  then show ?thesis
    using assms by simp
qed

section \<open>Searching\<close>

text \<open>
  \<^verbatim>\<open>std::search(first, last, s, s + n)\<close> as an offset from \<^verbatim>\<open>first\<close>: the first place where
  the pattern occurs, the length of the range when it does not; \<^verbatim>\<open>memchr\<close> likewise.
\<close>

fun std_search :: "'a list \<Rightarrow> 'a list \<Rightarrow> nat" where
  "std_search [] pat = 0"
| "std_search (x # xs) pat = (if prefix pat (x # xs) then 0 else Suc (std_search xs pat))"

lemma std_search_le: "std_search xs pat \<le> length xs"
  by (induction xs) auto

lemma std_search_hit: "std_search xs pat < length xs \<Longrightarrow> prefix pat (drop (std_search xs pat) xs)"
  by (induction xs) (auto split: if_splits)

lemma std_search_first: "i < std_search xs pat \<Longrightarrow> \<not> prefix pat (drop i xs)"
proof (induction xs arbitrary: i)
  case (Cons x xs)
  then show ?case by (cases i) (auto split: if_splits)
qed simp

fun memchr :: "'a list \<Rightarrow> 'a \<Rightarrow> nat option" where
  "memchr [] c = None"
| "memchr (x # xs) c = (if x = c then Some 0 else map_option Suc (memchr xs c))"

lemma memchr_None: "memchr xs c = None \<longleftrightarrow> c \<notin> set xs"
  by (induction xs) auto

lemma memchr_Some: "memchr xs c = Some i \<Longrightarrow> i < length xs \<and> xs ! i = c \<and> c \<notin> set (take i xs)"
  by (induction xs arbitrary: i) (auto split: if_splits)

text \<open>\<^verbatim>\<open>memcmp\<close> of two blocks of the same length: the sign of the first difference, bytes unsigned.\<close>

fun memcmp :: "BYTE list \<Rightarrow> BYTE list \<Rightarrow> int" where
  "memcmp (x # xs) (y # ys) = (if x = y then memcmp xs ys else if x < y then -1 else 1)"
| "memcmp _ _ = 0"

lemma memcmp_eq_0: "length xs = length ys \<Longrightarrow> memcmp xs ys = 0 \<longleftrightarrow> xs = ys"
  by (induction xs ys rule: memcmp.induct) auto

lemma memcmp_swap: "memcmp ys xs = - memcmp xs ys"
  by (induction xs ys rule: memcmp.induct) auto

section \<open>Characters and strings\<close>

definition char_of_byte :: "BYTE \<Rightarrow> char" where
  "char_of_byte b = char_of (unat b)"

definition byte_of_char :: "char \<Rightarrow> BYTE" where
  "byte_of_char c = word_of_nat (of_char c)"

lemma char_of_byte_inverse [simp]: "byte_of_char (char_of_byte b) = b"
proof -
  have "unat b < 2 ^ LENGTH(8)" by (rule unsigned_less)
  then show ?thesis by (simp add: byte_of_char_def char_of_byte_def)
qed

lemma byte_of_char_inverse [simp]: "char_of_byte (byte_of_char c) = c"
  by (simp add: byte_of_char_def char_of_byte_def unat_of_nat)

text \<open>
  The C string at the start of a block: the characters before the first NUL. Without a NUL
  inside the block the scan runs past its end.
\<close>

fun c_str :: "BYTE list \<Rightarrow> string result" where
  "c_str [] = Inl OutOfBounds"
| "c_str (b # bs) = (if b = 0 then Inr [] else bnd (c_str bs) (\<lambda>s. Inr (char_of_byte b # s)))"

lemma c_str_append_nul: "0 \<notin> set bs \<Longrightarrow> c_str (bs @ 0 # rest) = Inr (map char_of_byte bs)"
  by (induction bs) auto

lemma c_str_no_nul: "0 \<notin> set bs \<Longrightarrow> c_str bs = Inl OutOfBounds"
  by (induction bs) auto

lemma c_str_cases: "(\<exists>s. c_str bs = Inr s) \<longleftrightarrow> 0 \<in> set bs"
  by (induction bs) (auto simp: bnd_eq_Inr)

end
