(* ===== verification/C_Strings.thy ===== *)
theory C_Strings
  imports Pets_Prelude
begin

text \<open>
  Numbers as text, as the sources use them from the C and C++ libraries: \<^verbatim>\<open>std::to_string\<close>
  and \<^verbatim>\<open>%d\<close>/\<^verbatim>\<open>%u\<close> (decimal), \<^verbatim>\<open>%x\<close> (hexadecimal), \<^verbatim>\<open>atoi\<close> and \<^verbatim>\<open>strtol\<close> in base ten.
  The lemmas give the length of a decimal numeral and that \<^verbatim>\<open>atoi\<close> reads back what
  \<^verbatim>\<open>to_string\<close> prints.
\<close>

section \<open>Decimal output\<close>

definition digit :: "nat \<Rightarrow> char" where
  "digit d = char_of (48 + d)"

fun dec_nat :: "nat \<Rightarrow> string" where
  "dec_nat n = (if n < 10 then [digit n] else dec_nat (n div 10) @ [digit (n mod 10)])"

declare dec_nat.simps [simp del]

definition to_string :: "int \<Rightarrow> string" where
  "to_string i = (if i < 0 then CHR ''-'' # dec_nat (nat (- i)) else dec_nat (nat i))"

fun hex_digits :: "(nat \<Rightarrow> char) \<Rightarrow> nat \<Rightarrow> string" where
  "hex_digits dig n = (if n < 16 then [dig n] else hex_digits dig (n div 16) @ [dig (n mod 16)])"

declare hex_digits.simps [simp del]

definition hex_lower :: "nat \<Rightarrow> char" where
  "hex_lower d = (if d < 10 then digit d else char_of (87 + d))"

definition hex_upper :: "nat \<Rightarrow> char" where
  "hex_upper d = (if d < 10 then digit d else char_of (55 + d))"

section \<open>Decimal input\<close>

definition is_digit :: "char \<Rightarrow> bool" where
  "is_digit c \<longleftrightarrow> (let n = of_char c :: nat in 48 \<le> n \<and> n \<le> 57)"

definition is_space :: "char \<Rightarrow> bool" where
  "is_space c \<longleftrightarrow> (let n = of_char c :: nat in n = 32 \<or> (9 \<le> n \<and> n \<le> 13))"

fun read_dec :: "nat \<Rightarrow> string \<Rightarrow> nat" where
  "read_dec acc [] = acc"
| "read_dec acc (c # cs) = (if is_digit c then read_dec (10 * acc + (of_char c - 48)) cs else acc)"

text \<open>\<^verbatim>\<open>strtol(s, NULL, 10)\<close>: leading blanks, a sign, digits; the result saturates at the range of long.\<close>

definition strtol10 :: "string \<Rightarrow> int" where
  "strtol10 s =
     (let t = dropWhile is_space s;
          v = (case t of [] \<Rightarrow> 0
               | c # cs \<Rightarrow> if c = CHR ''-'' then - int (read_dec 0 cs)
                          else if c = CHR ''+'' then int (read_dec 0 cs)
                          else int (read_dec 0 t))
      in max (- (2 ^ 63)) (min (2 ^ 63 - 1) v))"

definition atoi :: "string \<Rightarrow> int" where
  "atoi s = cast_int (strtol10 s)"

section \<open>Facts\<close>

lemma of_char_digit: "d < 10 \<Longrightarrow> of_char (digit d) = (48 + d :: nat)"
  by (simp add: digit_def)

lemma is_digit_digit: "d < 10 \<Longrightarrow> is_digit (digit d)"
  by (simp add: is_digit_def of_char_digit Let_def)

lemma dec_nat_digits: "list_all is_digit (dec_nat n)"
  by (induction n rule: dec_nat.induct) (subst dec_nat.simps, simp add: is_digit_digit)

lemma dec_nat_not_Nil: "dec_nat n \<noteq> []"
  by (subst dec_nat.simps) simp

lemma read_dec_append:
  "list_all is_digit ds \<Longrightarrow> read_dec acc (ds @ cs) = read_dec (read_dec acc ds) cs"
  by (induction ds arbitrary: acc) auto

lemma read_dec_nat: "read_dec 0 (dec_nat n) = n"
proof (induction n rule: dec_nat.induct)
  case (1 n)
  show ?case
  proof (cases "n < 10")
    case True
    then show ?thesis by (subst dec_nat.simps) (simp add: is_digit_digit of_char_digit)
  next
    case False
    have "n mod 10 < 10" by simp
    then show ?thesis
      using 1 False
      by (subst dec_nat.simps)
        (simp add: read_dec_append dec_nat_digits is_digit_digit of_char_digit)
  qed
qed

lemma length_dec_nat: "n < 10 ^ k \<Longrightarrow> 0 < k \<Longrightarrow> length (dec_nat n) \<le> k"
proof (induction n arbitrary: k rule: dec_nat.induct)
  case (1 n)
  show ?case
  proof (cases "n < 10")
    case True
    then show ?thesis using 1 by (subst dec_nat.simps) simp
  next
    case False
    then have "k \<noteq> 1" "k \<noteq> 0" using "1.prems" by auto
    then obtain j where j: "k = Suc j" "0 < j" by (cases k) auto
    then have "n div 10 < 10 ^ j" using "1.prems" by (simp add: less_mult_imp_div_less mult.commute)
    then have "length (dec_nat (n div 10)) \<le> j" using "1.IH" False j by simp
    then show ?thesis using False j by (subst dec_nat.simps) simp
  qed
qed

lemma hd_dec_nat: "is_digit (hd (dec_nat n))"
  using dec_nat_digits [of n] dec_nat_not_Nil [of n] by (cases "dec_nat n") auto

lemma is_digit_char: "is_digit c \<Longrightarrow> \<not> is_space c \<and> c \<noteq> CHR ''-'' \<and> c \<noteq> CHR ''+''"
  by (auto simp: is_digit_def is_space_def Let_def)

lemma strtol10_to_string:
  assumes "- (2 ^ 63) \<le> i" "i < 2 ^ 63"
  shows "strtol10 (to_string i) = i"
proof (cases "i < 0")
  case True
  have "\<not> is_space (CHR ''-'')" by (simp add: is_space_def)
  then show ?thesis
    using True assms by (simp add: strtol10_def to_string_def Let_def read_dec_nat)
next
  case False
  obtain c cs where cs: "dec_nat (nat i) = c # cs" "is_digit c"
    using dec_nat_not_Nil [of "nat i"] hd_dec_nat [of "nat i"] by (cases "dec_nat (nat i)") auto
  then show ?thesis
    using False assms is_digit_char [OF cs(2)] read_dec_nat [of "nat i"]
    by (simp add: strtol10_def to_string_def Let_def)
qed

lemma atoi_to_string: "- (2 ^ 31) \<le> i \<Longrightarrow> i < 2 ^ 31 \<Longrightarrow> atoi (to_string i) = i"
  by (simp add: atoi_def strtol10_to_string)

lemma length_to_string:
  assumes "\<bar>i\<bar> < 10 ^ k" "0 < k"
  shows "length (to_string i) \<le> Suc k"
proof -
  have "nat \<bar>i\<bar> < 10 ^ k" using assms by (simp add: nat_less_iff)
  then have "length (dec_nat (nat \<bar>i\<bar>)) \<le> k" using assms(2) by (rule length_dec_nat)
  then show ?thesis by (simp add: to_string_def abs_if split: if_splits)
qed

end
