(* ===== verification/Timing.thy ===== *)
theory Timing
  imports C_Strings "HOL-Library.Signed_Division"
begin

text \<open>
  Time: \<^verbatim>\<open>CELLTimestamp.hpp\<close>/\<^verbatim>\<open>.cpp\<close>, \<^verbatim>\<open>muduo/base/Timestamp.h\<close> and \<^verbatim>\<open>muduo/base/Date.h\<close>.
  Every reading of a clock is an argument: nanoseconds since the epoch of that clock. Where the
  source computes in \<^verbatim>\<open>double\<close> the rounding of a result to a double is the parameter
  \<open>rnd\<close>; conversions between integer widths are written out. \<^verbatim>\<open>localtime\<close> and the members of
  \<^verbatim>\<open>Date\<close> whose bodies are not in the sources are parameters.
\<close>

definition cast_int64 :: "int \<Rightarrow> int" where
  "cast_int64 x = (x + 2 ^ 63) mod 2 ^ 64 - 2 ^ 63"

lemma cast_int64_small [simp]: "- (2 ^ 63) \<le> x \<Longrightarrow> x < 2 ^ 63 \<Longrightarrow> cast_int64 x = x"
  by (simp add: cast_int64_def)

text \<open>Conversion of a double to an integer drops the fraction.\<close>

definition trunc :: "real \<Rightarrow> int" where
  "trunc x = (if 0 \<le> x then \<lfloor>x\<rfloor> else \<lceil>x\<rceil>)"

section \<open>CELLTimestamp\<close>

record CELLTimestamp =
  ct_begin :: int

definition CELLTimestamp_new :: "int \<Rightarrow> CELLTimestamp" where
  "CELLTimestamp_new now = \<lparr>ct_begin = now\<rparr>"

definition ct_update :: "int \<Rightarrow> CELLTimestamp \<Rightarrow> CELLTimestamp" where
  "ct_update now t = t\<lparr>ct_begin := now\<rparr>"

definition getElapsedTimeInMicroSec :: "int \<Rightarrow> CELLTimestamp \<Rightarrow> int" where
  "getElapsedTimeInMicroSec now t = (now - ct_begin t) sdiv 1000"

definition getElapsedTimeSecond :: "(real \<Rightarrow> real) \<Rightarrow> int \<Rightarrow> CELLTimestamp \<Rightarrow> real" where
  "getElapsedTimeSecond rnd now t = rnd (rnd (of_int (getElapsedTimeInMicroSec now t)) * rnd 0.000001)"

definition getElapsedTimeMilliSec :: "(real \<Rightarrow> real) \<Rightarrow> int \<Rightarrow> CELLTimestamp \<Rightarrow> real" where
  "getElapsedTimeMilliSec rnd now t = rnd (rnd (of_int (getElapsedTimeInMicroSec now t)) * rnd 0.001)"

definition getCurrentTimeStampSec :: "int \<Rightarrow> int" where
  "getCurrentTimeStampSec now = now sdiv 1000000000"

definition getCurrentTimeStampMiliSec :: "int \<Rightarrow> int" where
  "getCurrentTimeStampMiliSec now = now sdiv 1000000"

record tm =
  tm_year :: int
  tm_mon :: int
  tm_mday :: int
  tm_hour :: int
  tm_min :: int
  tm_sec :: int

definition getTimeStampToNomalTime :: "(int \<Rightarrow> tm option) \<Rightarrow> int \<Rightarrow> string result" where
  "getTimeStampToNomalTime localtime timeStamp =
     (case localtime timeStamp of None \<Rightarrow> Inl NullDeref
      | Some nomalTime \<Rightarrow> Inr (
          to_string (tm_year nomalTime + 1900) @ ''/'' @ to_string (tm_mon nomalTime + 1) @ ''/'' @
          to_string (tm_mday nomalTime) @ '' '' @ '' '' @
          to_string (tm_hour nomalTime) @ '':'' @ to_string (tm_min nomalTime) @ '':'' @
          to_string (tm_sec nomalTime)))"

definition getCurrentNomalTime :: "(int \<Rightarrow> tm option) \<Rightarrow> int \<Rightarrow> string result" where
  "getCurrentNomalTime localtime now = getTimeStampToNomalTime localtime (getCurrentTimeStampSec now)"

section \<open>Timestamp.h\<close>

record Timestamp =
  microSecondsSinceEpoch_f :: int

definition kMicroSecondsPerSecond :: int where
  "kMicroSecondsPerSecond = 1000 * 1000"

definition Timestamp_default :: Timestamp where
  "Timestamp_default = \<lparr>microSecondsSinceEpoch_f = 0\<rparr>"

definition Timestamp_of :: "int \<Rightarrow> Timestamp" where
  "Timestamp_of us = \<lparr>microSecondsSinceEpoch_f = us\<rparr>"

definition Timestamp_swap :: "Timestamp \<Rightarrow> Timestamp \<Rightarrow> Timestamp \<times> Timestamp" where
  "Timestamp_swap this that =
     (this\<lparr>microSecondsSinceEpoch_f := microSecondsSinceEpoch_f that\<rparr>,
      that\<lparr>microSecondsSinceEpoch_f := microSecondsSinceEpoch_f this\<rparr>)"

definition Timestamp_valid :: "Timestamp \<Rightarrow> bool" where
  "Timestamp_valid t \<longleftrightarrow> microSecondsSinceEpoch_f t > 0"

definition microSecondsSinceEpoch :: "Timestamp \<Rightarrow> int" where
  "microSecondsSinceEpoch t = microSecondsSinceEpoch_f t"

definition secondsSinceEpoch :: "Timestamp \<Rightarrow> int" where
  "secondsSinceEpoch t = microSecondsSinceEpoch_f t sdiv kMicroSecondsPerSecond"

definition Timestamp_invalid :: Timestamp where
  "Timestamp_invalid = Timestamp_default"

definition fromUnixTime_us :: "int \<Rightarrow> int \<Rightarrow> Timestamp" where
  "fromUnixTime_us t microseconds = Timestamp_of (cast_int64 (t * kMicroSecondsPerSecond + microseconds))"

definition fromUnixTime :: "int \<Rightarrow> Timestamp" where
  "fromUnixTime t = fromUnixTime_us t 0"

definition Timestamp_less :: "Timestamp \<Rightarrow> Timestamp \<Rightarrow> bool" where
  "Timestamp_less lhs rhs \<longleftrightarrow> microSecondsSinceEpoch lhs < microSecondsSinceEpoch rhs"

definition Timestamp_eq :: "Timestamp \<Rightarrow> Timestamp \<Rightarrow> bool" where
  "Timestamp_eq lhs rhs \<longleftrightarrow> microSecondsSinceEpoch lhs = microSecondsSinceEpoch rhs"

definition timeDifference :: "(real \<Rightarrow> real) \<Rightarrow> Timestamp \<Rightarrow> Timestamp \<Rightarrow> real" where
  "timeDifference rnd high low =
     (let diff = cast_int64 (microSecondsSinceEpoch high - microSecondsSinceEpoch low)
      in rnd (rnd (of_int diff) / of_int kMicroSecondsPerSecond))"

definition addTime :: "(real \<Rightarrow> real) \<Rightarrow> Timestamp \<Rightarrow> real \<Rightarrow> Timestamp" where
  "addTime rnd timestamp seconds =
     (let delta = trunc (rnd (seconds * of_int kMicroSecondsPerSecond))
      in Timestamp_of (cast_int64 (microSecondsSinceEpoch timestamp + delta)))"

section \<open>Date.h\<close>

record YearMonthDay =
  ymd_year :: int
  ymd_month :: int
  ymd_day :: int

record Date =
  julianDayNumber_f :: int

definition kDaysPerWeek :: int where
  "kDaysPerWeek = 7"

definition Date_default :: Date where
  "Date_default = \<lparr>julianDayNumber_f = 0\<rparr>"

definition Date_of_julian :: "int \<Rightarrow> Date" where
  "Date_of_julian julianDayNum = \<lparr>julianDayNumber_f = julianDayNum\<rparr>"

definition Date_swap :: "Date \<Rightarrow> Date \<Rightarrow> Date \<times> Date" where
  "Date_swap this that =
     (this\<lparr>julianDayNumber_f := julianDayNumber_f that\<rparr>,
      that\<lparr>julianDayNumber_f := julianDayNumber_f this\<rparr>)"

definition Date_valid :: "Date \<Rightarrow> bool" where
  "Date_valid d \<longleftrightarrow> julianDayNumber_f d > 0"

text \<open>\<^verbatim>\<open>yearMonthDay()\<close> has no body in the sources: the first argument.\<close>

definition Date_year :: "(Date \<Rightarrow> YearMonthDay) \<Rightarrow> Date \<Rightarrow> int" where
  "Date_year yearMonthDay d = ymd_year (yearMonthDay d)"

definition Date_month :: "(Date \<Rightarrow> YearMonthDay) \<Rightarrow> Date \<Rightarrow> int" where
  "Date_month yearMonthDay d = ymd_month (yearMonthDay d)"

definition Date_day :: "(Date \<Rightarrow> YearMonthDay) \<Rightarrow> Date \<Rightarrow> int" where
  "Date_day yearMonthDay d = ymd_day (yearMonthDay d)"

definition weekDay :: "Date \<Rightarrow> int" where
  "weekDay d = cast_int (julianDayNumber_f d + 1) smod kDaysPerWeek"

definition julianDayNumber :: "Date \<Rightarrow> int" where
  "julianDayNumber d = julianDayNumber_f d"

definition Date_less :: "Date \<Rightarrow> Date \<Rightarrow> bool" where
  "Date_less x y \<longleftrightarrow> julianDayNumber x < julianDayNumber y"

definition Date_eq :: "Date \<Rightarrow> Date \<Rightarrow> bool" where
  "Date_eq x y \<longleftrightarrow> julianDayNumber x = julianDayNumber y"

lemmas timestamp_defs = Timestamp_of_def microSecondsSinceEpoch_def secondsSinceEpoch_def
  fromUnixTime_us_def fromUnixTime_def kMicroSecondsPerSecond_def

section \<open>Facts\<close>

lemma sdiv_nonneg: "0 \<le> a \<Longrightarrow> 0 < b \<Longrightarrow> a sdiv b = a div (b :: int)"
  by (simp add: signed_divide_int_def sgn_if)

lemma elapsed_micro:
  assumes "ct_begin t \<le> now"
  shows "1000 * getElapsedTimeInMicroSec now t \<le> now - ct_begin t"
    and "now - ct_begin t < 1000 * getElapsedTimeInMicroSec now t + 1000"
  using assms by (simp_all add: getElapsedTimeInMicroSec_def sdiv_nonneg)

lemma elapsed_after_update: "getElapsedTimeInMicroSec now (ct_update now t) = 0"
  by (simp add: getElapsedTimeInMicroSec_def ct_update_def)

lemma fromUnixTime_seconds:
  assumes "0 \<le> t" "t \<le> 9223372036853" "0 \<le> us" "us < 1000000"
  shows "secondsSinceEpoch (fromUnixTime_us t us) = t"
  using assms by (simp add: timestamp_defs sdiv_nonneg)

lemma addTime_difference:
  assumes exact: "\<And>z. \<bar>z\<bar> \<le> 2 ^ 53 \<Longrightarrow> rnd (of_int z) = of_int z"
    and n: "\<bar>n\<bar> \<le> 9007199254" and t: "\<bar>microSecondsSinceEpoch_f t\<bar> \<le> 2 ^ 60"
  shows "timeDifference rnd (addTime rnd t (of_int n)) t = of_int n"
proof -
  have "rnd (of_int (n * 1000000)) = of_int (n * 1000000)"
    using n by (intro exact) (simp add: abs_mult)
  then have r: "rnd (of_int n * 1000000) = of_int (n * 1000000)" by simp
  have tr: "trunc (of_int (n * 1000000)) = n * 1000000" by (simp add: trunc_def del: of_int_mult)
  have "rnd (of_int n) = of_int n" using n by (intro exact) simp
  then show ?thesis
    using r tr t n
    by (simp add: timeDifference_def addTime_def timestamp_defs Let_def)
qed

text \<open>The order on timestamps is the order of the microsecond counts.\<close>

lemma Timestamp_order:
  "\<not> Timestamp_less t t"
  "Timestamp_less t u \<Longrightarrow> Timestamp_less u v \<Longrightarrow> Timestamp_less t v"
  "Timestamp_less t u \<or> Timestamp_eq t u \<or> Timestamp_less u t"
  "Timestamp_eq t u \<longleftrightarrow> t = u"
  by (cases t; cases u; auto simp: Timestamp_less_def Timestamp_eq_def microSecondsSinceEpoch_def)+

lemma weekDay_range:
  assumes "0 \<le> julianDayNumber_f d" "julianDayNumber_f d < 2 ^ 31 - 1"
  shows "0 \<le> weekDay d" "weekDay d < 7"
    "weekDay (Date_of_julian (julianDayNumber_f d + 7)) = weekDay d \<or> 2 ^ 31 - 8 \<le> julianDayNumber_f d"
proof -
  have pos: "a smod 7 = a mod 7" if "0 \<le> a" for a :: int
    using that by (cases "a = 0") (simp_all add: signed_modulo_int_def sgn_if)
  show "0 \<le> weekDay d" "weekDay d < 7"
    "weekDay (Date_of_julian (julianDayNumber_f d + 7)) = weekDay d \<or> 2 ^ 31 - 8 \<le> julianDayNumber_f d"
    using assms pos [of "julianDayNumber_f d + 1"] pos [of "8 + julianDayNumber_f d"]
      mod_add_self1 [of 7 "julianDayNumber_f d + 1"]
    by (auto simp: add.commute weekDay_def kDaysPerWeek_def Date_of_julian_def)
qed

end
