(* ===== verification/Sync.thy ===== *)
theory Sync
  imports Pets_Prelude
begin

text \<open>
  The thread primitives of \<^verbatim>\<open>muduo/base\<close>: \<^verbatim>\<open>CurrentThread.h\<close>, \<^verbatim>\<open>Mutex.h\<close>,
  \<^verbatim>\<open>Condition.h\<close>, \<^verbatim>\<open>Atomic.h\<close>, \<^verbatim>\<open>Singleton.h\<close>, \<^verbatim>\<open>ThreadLocal.h\<close>,
  \<^verbatim>\<open>ThreadLocalSingleton.h\<close>, \<^verbatim>\<open>WeakCallback.h\<close> and the casts of \<^verbatim>\<open>Types.h\<close>. The pthread
  objects are language runtime: a mutex is the thread that owns it, a condition variable the
  threads that sleep on it, a thread-specific key a map from threads to values. An operation
  that would block has the value \<open>None\<close>. Threads are numbered by their kernel id, which is
  never 0.
\<close>

section \<open>CurrentThread.h\<close>

record ThreadLocals =
  t_cachedTid :: int
  t_tidString :: "BYTE list"
  t_tidStringLength :: int
  t_threadName :: string

text \<open>\<^verbatim>\<open>cacheTid\<close> has no body in the sources: the first argument.\<close>

definition tid :: "(ThreadLocals \<Rightarrow> ThreadLocals) \<Rightarrow> ThreadLocals \<Rightarrow> int \<times> ThreadLocals" where
  "tid cacheTid th =
     (let th' = (if t_cachedTid th = 0 then cacheTid th else th) in (t_cachedTid th', th'))"

definition tidString :: "ThreadLocals \<Rightarrow> BYTE list" where
  "tidString th = t_tidString th"

definition tidStringLength :: "ThreadLocals \<Rightarrow> int" where
  "tidStringLength th = t_tidStringLength th"

definition thread_name :: "ThreadLocals \<Rightarrow> string" where
  "thread_name th = t_threadName th"

section \<open>Mutex.h\<close>

record MutexLock =
  mx_owner :: "int option"
  holder :: int

definition MutexLock_new :: MutexLock where
  "MutexLock_new = \<lparr>mx_owner = None, holder = 0\<rparr>"

definition MutexLock_dtor :: "MutexLock \<Rightarrow> unit result" where
  "MutexLock_dtor m = bnd (assert_c (holder m = 0)) (\<lambda>_. assert_c (mx_owner m = None))"

definition isLockedByThisThread :: "int \<Rightarrow> MutexLock \<Rightarrow> bool" where
  "isLockedByThisThread t m \<longleftrightarrow> holder m = t"

definition assertLocked :: "int \<Rightarrow> MutexLock \<Rightarrow> unit result" where
  "assertLocked t m = assert_c (isLockedByThisThread t m)"

definition unassignHolder :: "MutexLock \<Rightarrow> MutexLock" where
  "unassignHolder m = m\<lparr>holder := 0\<rparr>"

definition assignHolder :: "int \<Rightarrow> MutexLock \<Rightarrow> MutexLock" where
  "assignHolder t m = m\<lparr>holder := t\<rparr>"

definition mutex_lock :: "int \<Rightarrow> MutexLock \<Rightarrow> MutexLock option" where
  "mutex_lock t m = (if mx_owner m = None then Some (assignHolder t (m\<lparr>mx_owner := Some t\<rparr>)) else None)"

definition mutex_unlock :: "int \<Rightarrow> MutexLock \<Rightarrow> MutexLock result" where
  "mutex_unlock t m =
     (let m' = unassignHolder m
      in if mx_owner m' = Some t then Inr (m'\<lparr>mx_owner := None\<rparr>) else Inl Undefined)"

text \<open>\<^verbatim>\<open>UnassignGuard\<close>: the constructor and the destructor.\<close>

definition UnassignGuard_new :: "MutexLock \<Rightarrow> MutexLock" where
  "UnassignGuard_new owner = unassignHolder owner"

definition UnassignGuard_dtor :: "int \<Rightarrow> MutexLock \<Rightarrow> MutexLock" where
  "UnassignGuard_dtor t owner = assignHolder t owner"

text \<open>\<^verbatim>\<open>MutexLockGuard\<close>: lock in the constructor, unlock in the destructor.\<close>

definition MutexLockGuard_new :: "int \<Rightarrow> MutexLock \<Rightarrow> MutexLock option" where
  "MutexLockGuard_new t m = mutex_lock t m"

definition MutexLockGuard_dtor :: "int \<Rightarrow> MutexLock \<Rightarrow> MutexLock result" where
  "MutexLockGuard_dtor t m = mutex_unlock t m"

text \<open>The invariant the class keeps: the recorded holder is the owner of the pthread mutex.\<close>

definition mutex_ok :: "MutexLock \<Rightarrow> bool" where
  "mutex_ok m \<longleftrightarrow> holder m = (case mx_owner m of None \<Rightarrow> 0 | Some t \<Rightarrow> t)"

lemma mutex_new_ok [simp]: "mutex_ok MutexLock_new"
  by (simp add: mutex_ok_def MutexLock_new_def)

lemma mutex_lock_ok: "mutex_lock t m = Some m' \<Longrightarrow> mutex_ok m' \<and> mx_owner m' = Some t \<and> mx_owner m = None"
  by (auto simp: mutex_lock_def assignHolder_def mutex_ok_def split: if_splits)

lemma mutex_unlock_ok: "mutex_unlock t m = Inr m' \<Longrightarrow> mutex_ok m' \<and> mx_owner m' = None \<and> mx_owner m = Some t"
  by (auto simp: mutex_unlock_def unassignHolder_def mutex_ok_def Let_def split: if_splits)

lemma mutex_lock_unlock:
  "mutex_ok m \<Longrightarrow> mutex_lock t m = Some m' \<Longrightarrow> mutex_unlock t m' = Inr m"
  by (auto simp: mutex_lock_def assignHolder_def mutex_unlock_def unassignHolder_def mutex_ok_def
      split: if_splits)

section \<open>Condition.h\<close>

record Condition =
  cond_waiters :: "int list"

definition Condition_new :: Condition where
  "Condition_new = \<lparr>cond_waiters = []\<rparr>"

definition Condition_dtor :: "Condition \<Rightarrow> unit result" where
  "Condition_dtor c = assert_c (cond_waiters c = [])"

text \<open>
  \<^verbatim>\<open>wait\<close> in two parts: the guard forgets the holder and \<^verbatim>\<open>pthread_cond_wait\<close> releases the
  mutex and sleeps; later it returns with the mutex locked again and the guard's destructor
  records the holder.
\<close>

definition cond_wait_begin :: "int \<Rightarrow> MutexLock \<Rightarrow> Condition \<Rightarrow> (MutexLock \<times> Condition) result" where
  "cond_wait_begin t m c =
     (let m' = UnassignGuard_new m
      in if mx_owner m' = Some t
         then Inr (m'\<lparr>mx_owner := None\<rparr>, c\<lparr>cond_waiters := cond_waiters c @ [t]\<rparr>)
         else Inl Undefined)"

definition cond_wait_end :: "int \<Rightarrow> MutexLock \<Rightarrow> Condition \<Rightarrow> MutexLock option" where
  "cond_wait_end t m c =
     (if t \<notin> set (cond_waiters c) \<and> mx_owner m = None
      then Some (UnassignGuard_dtor t (m\<lparr>mx_owner := Some t\<rparr>)) else None)"

text \<open>\<^verbatim>\<open>notify\<close> wakes one sleeper; which one the system chooses is the argument \<open>pick\<close>.\<close>

definition cond_notify :: "(int list \<Rightarrow> int) \<Rightarrow> Condition \<Rightarrow> Condition" where
  "cond_notify pick c =
     (if cond_waiters c = [] then c
      else let w = (if pick (cond_waiters c) \<in> set (cond_waiters c) then pick (cond_waiters c)
                    else hd (cond_waiters c))
           in c\<lparr>cond_waiters := remove1 w (cond_waiters c)\<rparr>)"

definition notifyAll :: "Condition \<Rightarrow> Condition" where
  "notifyAll c = c\<lparr>cond_waiters := []\<rparr>"

lemma cond_notify_wakes_one:
  assumes "distinct (cond_waiters c)" "cond_waiters c \<noteq> []"
  shows "\<exists>w \<in> set (cond_waiters c). set (cond_waiters (cond_notify pick c)) = set (cond_waiters c) - {w}
    \<and> distinct (cond_waiters (cond_notify pick c))"
proof -
  let ?w = "if pick (cond_waiters c) \<in> set (cond_waiters c) then pick (cond_waiters c)
    else hd (cond_waiters c)"
  have "?w \<in> set (cond_waiters c)" using assms(2) by simp
  moreover have "cond_waiters (cond_notify pick c) = remove1 ?w (cond_waiters c)"
    using assms(2) by (simp add: cond_notify_def Let_def)
  ultimately show ?thesis using assms(1) by (metis distinct_remove1 set_remove1_eq)
qed

section \<open>Atomic.h\<close>

text \<open>One template: the width is the type parameter; addition wraps at it.\<close>

record 'a AtomicIntegerT =
  atomic_value :: 'a

definition AtomicIntegerT_new :: "'a::len word AtomicIntegerT" where
  "AtomicIntegerT_new = \<lparr>atomic_value = 0\<rparr>"

definition atomic_get :: "'a::len word AtomicIntegerT \<Rightarrow> 'a word \<times> 'a word AtomicIntegerT" where
  "atomic_get a = (atomic_value a, if atomic_value a = 0 then a\<lparr>atomic_value := 0\<rparr> else a)"

definition getAndAdd :: "'a::len word \<Rightarrow> 'a word AtomicIntegerT \<Rightarrow> 'a word \<times> 'a word AtomicIntegerT" where
  "getAndAdd x a = (atomic_value a, a\<lparr>atomic_value := atomic_value a + x\<rparr>)"

definition addAndGet :: "'a::len word \<Rightarrow> 'a word AtomicIntegerT \<Rightarrow> 'a word \<times> 'a word AtomicIntegerT" where
  "addAndGet x a = (let (v, a') = getAndAdd x a in (v + x, a'))"

definition incrementAndGet :: "'a::len word AtomicIntegerT \<Rightarrow> 'a word \<times> 'a word AtomicIntegerT" where
  "incrementAndGet a = addAndGet 1 a"

definition decrementAndGet :: "'a::len word AtomicIntegerT \<Rightarrow> 'a word \<times> 'a word AtomicIntegerT" where
  "decrementAndGet a = addAndGet (-1) a"

definition atomic_add :: "'a::len word \<Rightarrow> 'a word AtomicIntegerT \<Rightarrow> 'a word AtomicIntegerT" where
  "atomic_add x a = snd (getAndAdd x a)"

definition atomic_increment :: "'a::len word AtomicIntegerT \<Rightarrow> 'a word AtomicIntegerT" where
  "atomic_increment a = snd (incrementAndGet a)"

definition atomic_decrement :: "'a::len word AtomicIntegerT \<Rightarrow> 'a word AtomicIntegerT" where
  "atomic_decrement a = snd (decrementAndGet a)"

definition getAndSet :: "'a::len word \<Rightarrow> 'a word AtomicIntegerT \<Rightarrow> 'a word \<times> 'a word AtomicIntegerT" where
  "getAndSet newValue a = (atomic_value a, a\<lparr>atomic_value := newValue\<rparr>)"

lemmas atomic_defs = atomic_get_def getAndAdd_def addAndGet_def incrementAndGet_def decrementAndGet_def
  atomic_add_def atomic_increment_def atomic_decrement_def getAndSet_def Let_def

text \<open>Every operation is a single read-modify-write; the order of additions does not matter.\<close>

lemma atomic_add_commute: "atomic_add x (atomic_add y a) = atomic_add y (atomic_add x a)"
  by (simp add: atomic_defs ac_simps)

lemma atomic_adds: "atomic_value (fold atomic_add xs a) = atomic_value a + sum_list xs"
  by (induction xs arbitrary: a) (simp_all add: atomic_defs ac_simps)

lemma atomic_inc_dec: "atomic_decrement (atomic_increment a) = a"
  by (simp add: atomic_defs)

section \<open>Singleton.h\<close>

text \<open>
  \<open>sg_count\<close> numbers the objects \<^verbatim>\<open>new T()\<close> has made; a pointer is the number of its
  object. \<open>sg_atexit\<close> is the list of registered exit functions.
\<close>

record Singleton =
  ponce :: bool
  sg_value :: "nat option"
  sg_count :: nat
  sg_atexit :: nat

definition Singleton_static :: Singleton where
  "Singleton_static = \<lparr>ponce = False, sg_value = None, sg_count = 0, sg_atexit = 0\<rparr>"

definition Singleton_init :: "bool \<Rightarrow> Singleton \<Rightarrow> Singleton" where
  "Singleton_init has_no_destroy s =
     (let s1 = s\<lparr>sg_value := Some (sg_count s), sg_count := Suc (sg_count s)\<rparr>
      in if has_no_destroy then s1 else s1\<lparr>sg_atexit := Suc (sg_atexit s1)\<rparr>)"

definition Singleton_instance :: "bool \<Rightarrow> Singleton \<Rightarrow> (nat \<times> Singleton) result" where
  "Singleton_instance has_no_destroy s =
     (let s1 = (if ponce s then s else (Singleton_init has_no_destroy s)\<lparr>ponce := True\<rparr>)
      in case sg_value s1 of None \<Rightarrow> Inl AssertFail | Some v \<Rightarrow> Inr (v, s1))"

definition Singleton_destroy :: "Singleton \<Rightarrow> Singleton" where
  "Singleton_destroy s = s\<lparr>sg_value := None\<rparr>"

lemma Singleton_first: "Singleton_instance nd Singleton_static =
    Inr (0, \<lparr>ponce = True, sg_value = Some 0, sg_count = 1, sg_atexit = (if nd then 0 else 1)\<rparr>)"
  by (simp add: Singleton_instance_def Singleton_static_def Singleton_init_def Let_def)

lemma Singleton_same:
  assumes "Singleton_instance nd s = Inr (v, s')"
  shows "Singleton_instance nd s' = Inr (v, s')"
  using assms by (auto simp: Singleton_instance_def Singleton_init_def Let_def split: option.splits if_splits)

lemma Singleton_after_destroy:
  assumes "Singleton_instance nd s = Inr (v, s')"
  shows "Singleton_instance nd (Singleton_destroy s') = Inl AssertFail"
  using assms
  by (auto simp: Singleton_instance_def Singleton_destroy_def Singleton_init_def Let_def
      split: option.splits if_splits)

section \<open>ThreadLocal.h and ThreadLocalSingleton.h\<close>

text \<open>A thread-specific key maps a thread to its value; \<open>mk\<close> is \<^verbatim>\<open>new T()\<close>.\<close>

record 'v ThreadLocal =
  pkey :: "int \<rightharpoonup> 'v"

definition ThreadLocal_new :: "'v ThreadLocal" where
  "ThreadLocal_new = \<lparr>pkey = Map.empty\<rparr>"

definition ThreadLocal_value :: "'v \<Rightarrow> int \<Rightarrow> 'v ThreadLocal \<Rightarrow> 'v \<times> 'v ThreadLocal" where
  "ThreadLocal_value mk t l =
     (case pkey l t of
        None \<Rightarrow> (mk, l\<lparr>pkey := (pkey l)(t \<mapsto> mk)\<rparr>)
      | Some v \<Rightarrow> (v, l))"

record 'v ThreadLocalSingleton =
  t_value :: "int \<rightharpoonup> 'v"
  deleter_key :: "int \<rightharpoonup> 'v"

definition Deleter_set :: "int \<Rightarrow> 'v \<Rightarrow> 'v ThreadLocalSingleton \<Rightarrow> 'v ThreadLocalSingleton result" where
  "Deleter_set t newObj s =
     bnd (assert_c (deleter_key s t = None)) (\<lambda>_. Inr (s\<lparr>deleter_key := (deleter_key s)(t \<mapsto> newObj)\<rparr>))"

definition tls_instance :: "'v \<Rightarrow> int \<Rightarrow> 'v ThreadLocalSingleton \<Rightarrow> ('v \<times> 'v ThreadLocalSingleton) result" where
  "tls_instance mk t s =
     (case t_value s t of
        Some v \<Rightarrow> Inr (v, s)
      | None \<Rightarrow> bnd (Deleter_set t mk (s\<lparr>t_value := (t_value s)(t \<mapsto> mk)\<rparr>)) (\<lambda>s'. Inr (mk, s')))"

definition tls_pointer :: "int \<Rightarrow> 'v ThreadLocalSingleton \<Rightarrow> 'v option" where
  "tls_pointer t s = t_value s t"

definition tls_destructor :: "int \<Rightarrow> 'v \<Rightarrow> 'v ThreadLocalSingleton \<Rightarrow> 'v ThreadLocalSingleton result" where
  "tls_destructor t obj s =
     bnd (assert_c (Some obj = t_value s t)) (\<lambda>_. Inr (s\<lparr>t_value := (t_value s)(t := None)\<rparr>))"

lemma ThreadLocal_stable:
  "ThreadLocal_value mk t l = (v, l') \<Longrightarrow> ThreadLocal_value mk' t l' = (v, l')"
  by (auto simp: ThreadLocal_value_def split: option.splits)

lemma ThreadLocal_private:
  "ThreadLocal_value mk t l = (v, l') \<Longrightarrow> u \<noteq> t \<Longrightarrow> pkey l' u = pkey l u"
  by (auto simp: ThreadLocal_value_def split: option.splits)

text \<open>The key and the variable stay in step, so the assertion of the deleter holds.\<close>

lemma tls_instance_ok:
  assumes "t_value s = deleter_key s"
  shows "\<exists>v s'. tls_instance mk t s = Inr (v, s') \<and> t_value s' = deleter_key s' \<and> tls_pointer t s' = Some v"
  using assms by (auto simp: tls_instance_def Deleter_set_def tls_pointer_def split: option.splits)

section \<open>WeakCallback.h\<close>

text \<open>\<open>None\<close> for the object is an expired weak pointer; the call then does nothing.\<close>

record ('o, 'w) WeakCallback =
  wcb_object :: "nat"
  wcb_function :: "'o \<Rightarrow> 'w \<Rightarrow> 'w"

definition WeakCallback_call :: "(nat \<Rightarrow> 'o option) \<Rightarrow> ('o, 'w) WeakCallback \<Rightarrow> 'w \<Rightarrow> 'w" where
  "WeakCallback_call live cb w =
     (case live (wcb_object cb) of None \<Rightarrow> w | Some ptr \<Rightarrow> wcb_function cb ptr w)"

definition makeWeakCallback :: "nat \<Rightarrow> ('o \<Rightarrow> 'w \<Rightarrow> 'w) \<Rightarrow> ('o, 'w) WeakCallback" where
  "makeWeakCallback object function = \<lparr>wcb_object = object, wcb_function = function\<rparr>"

section \<open>Types.h\<close>

definition memZero :: "BYTE list \<Rightarrow> nat \<Rightarrow> BYTE list result" where
  "memZero p n = (if n \<le> length p then Inr (replicate n 0 @ drop n p) else Inl BufferOverflow)"

text \<open>\<open>dyn\<close> is \<^verbatim>\<open>dynamic_cast\<close>, which answers NULL for an object of another type.\<close>

definition down_cast :: "('f \<Rightarrow> 't option) \<Rightarrow> 'f option \<Rightarrow> 't option result" where
  "down_cast dyn f = (case f of None \<Rightarrow> Inr None
     | Some x \<Rightarrow> bnd (assert_c (dyn x \<noteq> None)) (\<lambda>_. Inr (dyn x)))"

end
