(* ===== verification/Endian.thy ===== *)
theory Endian
  imports Pets_Prelude
begin

text \<open>
  \<^verbatim>\<open>muduo/net/Endian.h\<close> on a little-endian host: the byte image of an integer in memory,
  the byte swap behind \<^verbatim>\<open>htobe*\<close> and \<^verbatim>\<open>be*toh\<close> of \<^verbatim>\<open><endian.h>\<close>, and the six
  conversions built on it. The lemmas show that the two directions are inverse and that the
  memory image of a converted integer is its big-endian byte sequence.
\<close>

unbundle bit_operations_syntax

section \<open>Memory images on the host\<close>

text \<open>Least significant byte first: \<open>store_le n w\<close> is the image of \<open>w\<close> in \<open>n\<close> bytes.\<close>

definition store_le :: "nat \<Rightarrow> 'a::len word \<Rightarrow> BYTE list" where
  "store_le n w = map (\<lambda>i. ucast (drop_bit (8 * i) w)) [0..<n]"

fun load_le :: "BYTE list \<Rightarrow> 'a::len word" where
  "load_le [] = 0"
| "load_le (b # bs) = ucast b OR push_bit 8 (load_le bs)"

definition bswap :: "'a::len word \<Rightarrow> 'a word" where
  "bswap w = load_le (rev (store_le (LENGTH('a) div 8) w))"

section \<open>Endian.h\<close>

definition hostToNetwork64 :: "64 word \<Rightarrow> 64 word" where
  "hostToNetwork64 host64 = bswap host64"

definition hostToNetwork32 :: "32 word \<Rightarrow> 32 word" where
  "hostToNetwork32 host32 = bswap host32"

definition hostToNetwork16 :: "16 word \<Rightarrow> 16 word" where
  "hostToNetwork16 host16 = bswap host16"

definition networkToHost64 :: "64 word \<Rightarrow> 64 word" where
  "networkToHost64 net64 = bswap net64"

definition networkToHost32 :: "32 word \<Rightarrow> 32 word" where
  "networkToHost32 net32 = bswap net32"

definition networkToHost16 :: "16 word \<Rightarrow> 16 word" where
  "networkToHost16 net16 = bswap net16"

lemmas endian_defs = hostToNetwork64_def hostToNetwork32_def hostToNetwork16_def
  networkToHost64_def networkToHost32_def networkToHost16_def

section \<open>Lemmas\<close>

lemma length_store_le [simp]: "length (store_le n w) = n"
  by (simp add: store_le_def)

lemma nth_store_le: "i < n \<Longrightarrow> store_le n w ! i = ucast (drop_bit (8 * i) w)"
  by (simp add: store_le_def)

lemma bit_byte_bound: "bit (b :: BYTE) n \<Longrightarrow> n < 8"
  using bit_imp_le_length [of b n] by simp

lemma bit_load_le:
  "bit (load_le bs :: 'a::len word) n \<longleftrightarrow>
    n < LENGTH('a) \<and> n div 8 < length bs \<and> bit (bs ! (n div 8)) (n mod 8)"
proof (induction bs arbitrary: n)
  case (Cons b bs)
  show ?case
  proof (cases "n < 8")
    case True
    then show ?thesis by (auto simp: bit_or_iff bit_ucast_iff bit_push_bit_iff)
  next
    case False
    then have "n div 8 = Suc ((n - 8) div 8)" "(n - 8) mod 8 = n mod 8"
      by (simp_all add: le_div_geq le_mod_geq)
    then show ?thesis
      using False Cons.IH [of "n - 8"]
      by (auto simp: bit_or_iff bit_ucast_iff bit_push_bit_iff dest: bit_byte_bound)
  qed
qed simp

lemma load_store_le [simp]:
  assumes "LENGTH('a::len) = 8 * n"
  shows "load_le (store_le n w) = (w :: 'a word)"
proof (rule bit_word_eqI)
  fix i assume i: "i < LENGTH('a)"
  then have "i div 8 < n" using assms by auto
  then show "bit (load_le (store_le n w) :: 'a word) i = bit w i"
    using i by (simp add: bit_load_le nth_store_le bit_ucast_iff bit_drop_bit_eq)
qed

lemma store_load_le [simp]:
  assumes "LENGTH('a::len) = 8 * length bs"
  shows "store_le (length bs) (load_le bs :: 'a word) = bs"
proof (rule nth_equalityI)
  fix i assume "i < length (store_le (length bs) (load_le bs :: 'a word))"
  then have i: "i < length bs" by simp
  have "ucast (drop_bit (8 * i) (load_le bs :: 'a word)) = bs ! i"
  proof (rule bit_word_eqI)
    fix k assume "k < LENGTH(8)"
    then have "(8 * i + k) div 8 = i" "(8 * i + k) mod 8 = k" "8 * i + k < LENGTH('a)"
      using i assms by simp_all
    then show "bit (ucast (drop_bit (8 * i) (load_le bs :: 'a word)) :: BYTE) k = bit (bs ! i) k"
      using i \<open>k < LENGTH(8)\<close> by (simp add: bit_ucast_iff bit_drop_bit_eq bit_load_le)
  qed
  then show "store_le (length bs) (load_le bs :: 'a word) ! i = bs ! i"
    using i by (simp add: nth_store_le)
qed simp

text \<open>The image of a swapped word is the image of the word reversed, so swapping is an involution.\<close>

lemma store_bswap:
  assumes "LENGTH('a::len) = 8 * n"
  shows "store_le n (bswap (w :: 'a word)) = rev (store_le n w)"
proof -
  have "LENGTH('a) = 8 * length (rev (store_le n w))" using assms by simp
  from store_load_le [OF this] show ?thesis
    using assms by (simp add: bswap_def)
qed

lemma bswap_bswap:
  assumes "LENGTH('a::len) = 8 * n"
  shows "bswap (bswap (w :: 'a word)) = w"
proof -
  have "bswap (bswap w) = load_le (rev (store_le n (bswap w)))"
    using assms by (simp add: bswap_def)
  then show ?thesis
    using assms by (simp add: store_bswap)
qed

lemma bswap_inverse [simp]:
  "bswap (bswap (w64 :: 64 word)) = w64" "bswap (bswap (w32 :: 32 word)) = w32"
  "bswap (bswap (w16 :: 16 word)) = w16"
  by (rule bswap_bswap, simp)+

lemma network_host_inverse [simp]:
  "networkToHost64 (hostToNetwork64 w64) = w64" "hostToNetwork64 (networkToHost64 w64) = w64"
  "networkToHost32 (hostToNetwork32 w32) = w32" "hostToNetwork32 (networkToHost32 w32) = w32"
  "networkToHost16 (hostToNetwork16 w16) = w16" "hostToNetwork16 (networkToHost16 w16) = w16"
  by (simp_all add: endian_defs)

text \<open>Big-endian value of a byte sequence, the meaning of a network integer.\<close>

definition be_value :: "BYTE list \<Rightarrow> nat" where
  "be_value bs = foldl (\<lambda>a b. 256 * a + unat b) 0 bs"

lemma be_value_append: "be_value (bs @ [b]) = 256 * be_value bs + unat b"
  by (simp add: be_value_def)

lemma be_value_less: "be_value bs < 256 ^ length bs"
proof (induction bs rule: rev_induct)
  case (snoc b bs)
  have "unat b < 2 ^ LENGTH(8)" by (rule unsigned_less)
  then have "256 * be_value bs + unat b < 256 * (be_value bs + 1)" by simp
  also have "\<dots> \<le> 256 * 256 ^ length bs" using snoc by (intro mult_le_mono2) simp
  finally show ?case by (simp add: be_value_append)
qed (simp add: be_value_def)

lemma unat_load_le:
  assumes "8 * length bs \<le> LENGTH('a::len)"
  shows "unat (load_le bs :: 'a word) = be_value (rev bs)"
  using assms
proof (induction bs)
  case (Cons b bs)
  have len: "8 * length bs + 8 \<le> LENGTH('a)" using Cons.prems by simp
  have IH: "unat (load_le bs :: 'a word) = be_value (rev bs)" using Cons by simp
  have b: "unat b < 2 ^ LENGTH(8)" by (rule unsigned_less)
  have big: "be_value (rev bs) < 256 ^ length bs"
    using be_value_less [of "rev bs"] by simp
  have disj: "ucast b AND push_bit 8 (load_le bs :: 'a word) = 0"
    by (rule bit_word_eqI) (auto simp: bit_simps dest: bit_byte_bound)
  have pow: "(256::nat) ^ length bs * 256 \<le> 2 ^ LENGTH('a)"
  proof -
    have "(256::nat) ^ length bs * 256 = 2 ^ (8 * length bs + 8)"
      by (simp add: power_add power_mult)
    also have "\<dots> \<le> 2 ^ LENGTH('a)" using len by (intro power_increasing) simp_all
    finally show ?thesis .
  qed
  have lt: "256 * be_value (rev bs) + unat b < 2 ^ LENGTH('a)"
  proof -
    have "256 * be_value (rev bs) + unat b < 256 * (be_value (rev bs) + 1)" using b by simp
    also have "\<dots> \<le> 256 * 256 ^ length bs" using big by (intro mult_le_mono2) simp
    finally show ?thesis using pow by (simp add: mult.commute)
  qed
  have "load_le (b # bs) = (ucast b + push_bit 8 (load_le bs) :: 'a word)"
    using disj by (simp add: disjunctive_add_eq_or)
  also have "\<dots> = word_of_nat (256 * be_value (rev bs) + unat b)"
    by (simp add: push_bit_eq_mult add.commute mult.commute flip: IH)
  finally have "unat (load_le (b # bs) :: 'a word) = 256 * be_value (rev bs) + unat b"
    using lt by (simp only: unat_of_nat mod_less)
  then show ?case
    by (simp add: be_value_append)
qed (simp add: be_value_def)

end
