(* ===== verification/String_Piece.thy ===== *)
theory String_Piece
  imports Pets_Prelude
begin

text \<open>
  \<^verbatim>\<open>muduo/base/StringPiece.h\<close>: a pointer into a block of memory with a length. A pointer
  is the rest of its block from the place it points to (\<open>None\<close> for NULL), so that
  dereferencing past the end of the block is a fault of the model. The lemmas show that the
  comparison operators are the lexicographic order on unsigned bytes.
\<close>

section \<open>Data\<close>

record StringArg =
  sa_str :: "BYTE list option"

record StringPiece =
  sp_ptr :: "BYTE list option"
  sp_length :: int

definition strlen :: "BYTE list option \<Rightarrow> nat result" where
  "strlen p = (case p of None \<Rightarrow> Inl NullDeref | Some m \<Rightarrow> bnd (c_str m) (\<lambda>s. Inr (length s)))"

text \<open>The memory image of a \<^verbatim>\<open>std::string\<close>: its bytes and the terminating NUL.\<close>

definition string_mem :: "BYTE list \<Rightarrow> BYTE list" where
  "string_mem s = s @ [0]"

definition StringArg_cstr :: "BYTE list option \<Rightarrow> StringArg" where
  "StringArg_cstr str = \<lparr>sa_str = str\<rparr>"

definition StringArg_string :: "BYTE list \<Rightarrow> StringArg" where
  "StringArg_string str = \<lparr>sa_str = Some (string_mem str)\<rparr>"

definition StringArg_c_str :: "StringArg \<Rightarrow> BYTE list option" where
  "StringArg_c_str a = sa_str a"

section \<open>Constructors and accessors\<close>

definition StringPiece_empty :: StringPiece where
  "StringPiece_empty = \<lparr>sp_ptr = None, sp_length = 0\<rparr>"

definition StringPiece_cstr :: "BYTE list option \<Rightarrow> StringPiece result" where
  "StringPiece_cstr str = bnd (strlen str) (\<lambda>n. Inr \<lparr>sp_ptr = str, sp_length = cast_int (int n)\<rparr>)"

definition StringPiece_string :: "BYTE list \<Rightarrow> StringPiece" where
  "StringPiece_string str = \<lparr>sp_ptr = Some (string_mem str), sp_length = cast_int (int (length str))\<rparr>"

definition StringPiece_range :: "BYTE list option \<Rightarrow> int \<Rightarrow> StringPiece" where
  "StringPiece_range offset len = \<lparr>sp_ptr = offset, sp_length = len\<rparr>"

definition sp_data :: "StringPiece \<Rightarrow> BYTE list option" where
  "sp_data p = sp_ptr p"

definition sp_size :: "StringPiece \<Rightarrow> int" where
  "sp_size p = sp_length p"

definition sp_empty :: "StringPiece \<Rightarrow> bool" where
  "sp_empty p \<longleftrightarrow> sp_length p = 0"

text \<open>Pointer arithmetic may not leave the block (one past its end is allowed).\<close>

definition ptr_add :: "BYTE list option \<Rightarrow> int \<Rightarrow> BYTE list option result" where
  "ptr_add p n =
     (if n = 0 then Inr p
      else case p of None \<Rightarrow> Inl NullDeref
      | Some m \<Rightarrow> if 0 \<le> n \<and> n \<le> int (length m) then Inr (Some (drop (nat n) m)) else Inl OutOfBounds)"

definition sp_begin :: "StringPiece \<Rightarrow> BYTE list option" where
  "sp_begin p = sp_ptr p"

definition sp_end :: "StringPiece \<Rightarrow> BYTE list option result" where
  "sp_end p = ptr_add (sp_ptr p) (sp_length p)"

section \<open>Modifiers\<close>

definition sp_clear :: "StringPiece \<Rightarrow> StringPiece" where
  "sp_clear p = p\<lparr>sp_ptr := None, sp_length := 0\<rparr>"

definition sp_set :: "StringPiece \<Rightarrow> BYTE list option \<Rightarrow> int \<Rightarrow> StringPiece" where
  "sp_set p buffer len = p\<lparr>sp_ptr := buffer, sp_length := len\<rparr>"

definition sp_set_cstr :: "StringPiece \<Rightarrow> BYTE list option \<Rightarrow> StringPiece result" where
  "sp_set_cstr p str = bnd (strlen str) (\<lambda>n. Inr (p\<lparr>sp_ptr := str, sp_length := cast_int (int n)\<rparr>))"

definition sp_index :: "StringPiece \<Rightarrow> int \<Rightarrow> BYTE result" where
  "sp_index p i = (case sp_ptr p of None \<Rightarrow> Inl NullDeref
     | Some m \<Rightarrow> if 0 \<le> i then read_byte m (nat i) else Inl OutOfBounds)"

definition sp_remove_prefix :: "StringPiece \<Rightarrow> int \<Rightarrow> StringPiece result" where
  "sp_remove_prefix p n =
     bnd (ptr_add (sp_ptr p) n) (\<lambda>q. Inr (p\<lparr>sp_ptr := q, sp_length := sp_length p - n\<rparr>))"

definition sp_remove_suffix :: "StringPiece \<Rightarrow> int \<Rightarrow> StringPiece" where
  "sp_remove_suffix p n = p\<lparr>sp_length := sp_length p - n\<rparr>"

section \<open>Comparison\<close>

text \<open>The first \<open>n\<close> bytes of a piece, as \<^verbatim>\<open>memcmp\<close> and \<^verbatim>\<open>string(ptr, n)\<close> read them.\<close>

definition sp_read :: "StringPiece \<Rightarrow> int \<Rightarrow> BYTE list result" where
  "sp_read p n =
     (if n = 0 then Inr []
      else case sp_ptr p of None \<Rightarrow> Inl NullDeref
      | Some m \<Rightarrow> if 0 \<le> n \<and> n \<le> int (length m) then Inr (take (nat n) m) else Inl OutOfBounds)"

definition sp_memcmp :: "StringPiece \<Rightarrow> StringPiece \<Rightarrow> int \<Rightarrow> int result" where
  "sp_memcmp p x n = bnd (sp_read p n) (\<lambda>a. bnd (sp_read x n) (\<lambda>b. Inr (memcmp a b)))"

definition sp_eq :: "StringPiece \<Rightarrow> StringPiece \<Rightarrow> bool result" where
  "sp_eq p x =
     (if sp_length p = sp_length x then bnd (sp_memcmp p x (sp_length p)) (\<lambda>r. Inr (r = 0)) else Inr False)"

definition sp_neq :: "StringPiece \<Rightarrow> StringPiece \<Rightarrow> bool result" where
  "sp_neq p x = bnd (sp_eq p x) (\<lambda>b. Inr (\<not> b))"

text \<open>The macro \<^verbatim>\<open>STRINGPIECE_BINARY_PREDICATE(cmp, auxcmp)\<close> and its four uses.\<close>

definition sp_predicate ::
    "(int \<Rightarrow> int \<Rightarrow> bool) \<Rightarrow> (int \<Rightarrow> int \<Rightarrow> bool) \<Rightarrow> StringPiece \<Rightarrow> StringPiece \<Rightarrow> bool result" where
  "sp_predicate cmp auxcmp p x =
     bnd (sp_memcmp p x (if sp_length p < sp_length x then sp_length p else sp_length x))
       (\<lambda>r. Inr (auxcmp r 0 \<or> (r = 0 \<and> cmp (sp_length p) (sp_length x))))"

definition sp_less :: "StringPiece \<Rightarrow> StringPiece \<Rightarrow> bool result" where
  "sp_less = sp_predicate (<) (<)"

definition sp_less_eq :: "StringPiece \<Rightarrow> StringPiece \<Rightarrow> bool result" where
  "sp_less_eq = sp_predicate (\<le>) (<)"

definition sp_greater_eq :: "StringPiece \<Rightarrow> StringPiece \<Rightarrow> bool result" where
  "sp_greater_eq = sp_predicate (\<ge>) (>)"

definition sp_greater :: "StringPiece \<Rightarrow> StringPiece \<Rightarrow> bool result" where
  "sp_greater = sp_predicate (>) (>)"

definition sp_compare :: "StringPiece \<Rightarrow> StringPiece \<Rightarrow> int result" where
  "sp_compare p x =
     bnd (sp_memcmp p x (if sp_length p < sp_length x then sp_length p else sp_length x))
       (\<lambda>r. Inr (if r = 0 then
                   if sp_length p < sp_length x then -1
                   else if sp_length p > sp_length x then 1 else r
                 else r))"

definition sp_as_string :: "StringPiece \<Rightarrow> BYTE list result" where
  "sp_as_string p = sp_read p (sp_size p)"

definition sp_CopyToString :: "StringPiece \<Rightarrow> BYTE list result" where
  "sp_CopyToString p = sp_read p (sp_length p)"

definition sp_starts_with :: "StringPiece \<Rightarrow> StringPiece \<Rightarrow> bool result" where
  "sp_starts_with p x =
     (if sp_length p \<ge> sp_length x then bnd (sp_memcmp p x (sp_length x)) (\<lambda>r. Inr (r = 0)) else Inr False)"

section \<open>Correctness\<close>

text \<open>A piece is valid when its length is inside its block; its bytes are then those it denotes.\<close>

definition sp_ok :: "StringPiece \<Rightarrow> bool" where
  "sp_ok p \<longleftrightarrow> 0 \<le> sp_length p \<and>
     (case sp_ptr p of None \<Rightarrow> sp_length p = 0 | Some m \<Rightarrow> sp_length p \<le> int (length m))"

definition sp_bytes :: "StringPiece \<Rightarrow> BYTE list" where
  "sp_bytes p = (case sp_ptr p of None \<Rightarrow> [] | Some m \<Rightarrow> take (nat (sp_length p)) m)"

lemma sp_read_ok: "sp_ok p \<Longrightarrow> 0 \<le> n \<Longrightarrow> n \<le> sp_length p \<Longrightarrow> sp_read p n = Inr (take (nat n) (sp_bytes p))"
  by (auto simp: sp_read_def sp_ok_def sp_bytes_def min_def nat_mono split: option.splits)

lemma length_sp_bytes [simp]: "sp_ok p \<Longrightarrow> length (sp_bytes p) = nat (sp_length p)"
  by (auto simp: sp_bytes_def sp_ok_def split: option.splits)

lemma sp_as_string_ok: "sp_ok p \<Longrightarrow> sp_as_string p = Inr (sp_bytes p)"
  using sp_read_ok [of p "sp_length p"] by (auto simp: sp_as_string_def sp_size_def sp_ok_def)

lemma StringPiece_string_ok:
  assumes "length s < 2 ^ 31"
  shows "sp_ok (StringPiece_string s) \<and> sp_bytes (StringPiece_string s) = s"
proof -
  have "int (length s) < 2 ^ 31" using assms by simp
  then show ?thesis
    by (simp add: sp_ok_def sp_bytes_def StringPiece_string_def string_mem_def)
qed

lemma sp_remove_prefix_ok:
  assumes "sp_ok p" "0 \<le> n" "n \<le> sp_length p"
  shows "\<exists>q. sp_remove_prefix p n = Inr q \<and> sp_ok q \<and> sp_bytes q = drop (nat n) (sp_bytes p)"
  using assms
  by (auto simp: sp_remove_prefix_def ptr_add_def sp_ok_def sp_bytes_def drop_take nat_diff_distrib'
      split: option.splits)

lemma sp_remove_suffix_ok:
  assumes "sp_ok p" "0 \<le> n" "n \<le> sp_length p"
  shows "sp_ok (sp_remove_suffix p n) \<and>
    sp_bytes (sp_remove_suffix p n) = take (nat (sp_length p - n)) (sp_bytes p)"
  using assms
  by (auto simp: sp_remove_suffix_def sp_ok_def sp_bytes_def min_def split: option.splits)

text \<open>Lexicographic order on byte sequences, the specification of the comparison operators.\<close>

fun bytes_less :: "BYTE list \<Rightarrow> BYTE list \<Rightarrow> bool" where
  "bytes_less [] ys = (ys \<noteq> [])"
| "bytes_less (x # xs) [] = False"
| "bytes_less (x # xs) (y # ys) = (x < y \<or> (x = y \<and> bytes_less xs ys))"

lemma memcmp_bytes_less:
  defines "k a b \<equiv> min (length a) (length b)"
  shows "bytes_less a b \<longleftrightarrow>
    memcmp (take (k a b) a) (take (k a b) b) < 0 \<or>
    (memcmp (take (k a b) a) (take (k a b) b) = 0 \<and> length a < length b)"
  unfolding k_def by (induction a b rule: bytes_less.induct) (auto split: if_splits)

lemma bytes_less_irrefl [simp]: "\<not> bytes_less a a"
  by (induction a) auto

lemma bytes_less_trans: "bytes_less a b \<Longrightarrow> bytes_less b c \<Longrightarrow> bytes_less a c"
proof (induction a b arbitrary: c rule: bytes_less.induct)
  case (3 x xs y ys)
  then show ?case by (cases c) (auto)
qed (auto elim: bytes_less.elims)

lemma bytes_less_Nil [simp]: "\<not> bytes_less a []"
  by (cases a) auto

lemma bytes_less_total: "bytes_less a b \<or> a = b \<or> bytes_less b a"
proof (induction a b rule: bytes_less.induct)
  case (1 ys)
  then show ?case by (cases ys) auto
qed auto

lemma sp_min_nat: "sp_ok p \<Longrightarrow> sp_ok x \<Longrightarrow>
    nat (if sp_length p < sp_length x then sp_length p else sp_length x) = min (length (sp_bytes p)) (length (sp_bytes x))"
  by (simp add: min_def nat_le_eq_zle) (auto simp: sp_ok_def)

lemma sp_memcmp_min:
  assumes "sp_ok p" "sp_ok x"
  shows "sp_memcmp p x (if sp_length p < sp_length x then sp_length p else sp_length x) =
    Inr (memcmp (take (min (length (sp_bytes p)) (length (sp_bytes x))) (sp_bytes p))
                (take (min (length (sp_bytes p)) (length (sp_bytes x))) (sp_bytes x)))"
  using assms sp_min_nat [OF assms] by (simp add: sp_memcmp_def sp_read_ok sp_ok_def)

text \<open>The three facts about the result \<open>r\<close> of the comparison of the common prefix.\<close>

definition sp_cmp :: "StringPiece \<Rightarrow> StringPiece \<Rightarrow> int" where
  "sp_cmp p x = memcmp (take (min (length (sp_bytes p)) (length (sp_bytes x))) (sp_bytes p))
                       (take (min (length (sp_bytes p)) (length (sp_bytes x))) (sp_bytes x))"

lemma sp_cmp_facts:
  assumes "sp_ok p" "sp_ok x"
  shows "bytes_less (sp_bytes p) (sp_bytes x) \<longleftrightarrow> sp_cmp p x < 0 \<or> (sp_cmp p x = 0 \<and> sp_length p < sp_length x)"
    and "bytes_less (sp_bytes x) (sp_bytes p) \<longleftrightarrow> 0 < sp_cmp p x \<or> (sp_cmp p x = 0 \<and> sp_length x < sp_length p)"
    and "sp_bytes p = sp_bytes x \<longleftrightarrow> sp_cmp p x = 0 \<and> sp_length p = sp_length x"
proof -
  have len: "sp_length p = int (length (sp_bytes p))" "sp_length x = int (length (sp_bytes x))"
    using assms by (simp_all add: sp_ok_def)
  show "bytes_less (sp_bytes p) (sp_bytes x) \<longleftrightarrow> sp_cmp p x < 0 \<or> (sp_cmp p x = 0 \<and> sp_length p < sp_length x)"
    unfolding len sp_cmp_def by (simp add: memcmp_bytes_less)
  show "bytes_less (sp_bytes x) (sp_bytes p) \<longleftrightarrow> 0 < sp_cmp p x \<or> (sp_cmp p x = 0 \<and> sp_length x < sp_length p)"
    unfolding len sp_cmp_def
    using memcmp_swap [of "take (min (length (sp_bytes x)) (length (sp_bytes p))) (sp_bytes p)"
        "take (min (length (sp_bytes x)) (length (sp_bytes p))) (sp_bytes x)"]
    by (subst memcmp_bytes_less) (simp add: min.commute)
  show "sp_bytes p = sp_bytes x \<longleftrightarrow> sp_cmp p x = 0 \<and> sp_length p = sp_length x"
    unfolding len sp_cmp_def by (auto simp: memcmp_eq_0)
qed

lemma sp_predicate_ok:
  "sp_ok p \<Longrightarrow> sp_ok x \<Longrightarrow> sp_predicate cmp auxcmp p x =
    Inr (auxcmp (sp_cmp p x) 0 \<or> (sp_cmp p x = 0 \<and> cmp (sp_length p) (sp_length x)))"
  by (simp only: sp_predicate_def sp_memcmp_min bnd_simps sp_cmp_def)

lemma sp_orders:
  assumes "sp_ok p" "sp_ok x"
  shows "sp_less p x = Inr (bytes_less (sp_bytes p) (sp_bytes x))"
    and "sp_less_eq p x = Inr (\<not> bytes_less (sp_bytes x) (sp_bytes p))"
    and "sp_greater p x = Inr (bytes_less (sp_bytes x) (sp_bytes p))"
    and "sp_greater_eq p x = Inr (\<not> bytes_less (sp_bytes p) (sp_bytes x))"
  using assms sp_cmp_facts [OF assms]
  by (auto simp: sp_less_def sp_less_eq_def sp_greater_def sp_greater_eq_def sp_predicate_ok)

lemma sp_eq_ok:
  assumes "sp_ok p" "sp_ok x"
  shows "sp_eq p x = Inr (sp_bytes p = sp_bytes x)"
proof (cases "sp_length p = sp_length x")
  case True
  then have "sp_memcmp p x (sp_length p) = Inr (memcmp (sp_bytes p) (sp_bytes x))"
    using assms by (simp add: sp_memcmp_def sp_read_ok sp_ok_def)
  then show ?thesis
    using True assms by (simp add: sp_eq_def memcmp_eq_0)
next
  case False
  then show ?thesis
    using sp_cmp_facts(3) [OF assms] by (simp add: sp_eq_def)
qed

lemma sp_compare_ok:
  assumes "sp_ok p" "sp_ok x"
  shows "\<exists>r. sp_compare p x = Inr r \<and> (r < 0 \<longleftrightarrow> bytes_less (sp_bytes p) (sp_bytes x)) \<and>
    (r = 0 \<longleftrightarrow> sp_bytes p = sp_bytes x)"
  using sp_cmp_facts [OF assms] sp_memcmp_min [OF assms] by (auto simp: sp_compare_def sp_cmp_def)

lemma sp_starts_with_ok:
  assumes "sp_ok p" "sp_ok x"
  shows "sp_starts_with p x = Inr (prefix (sp_bytes x) (sp_bytes p))"
proof (cases "sp_length x \<le> sp_length p")
  case True
  then have "sp_memcmp p x (sp_length x) =
      Inr (memcmp (take (length (sp_bytes x)) (sp_bytes p)) (sp_bytes x))"
    using assms by (simp add: sp_memcmp_def sp_read_ok sp_ok_def)
  moreover have "length (take (length (sp_bytes x)) (sp_bytes p)) = length (sp_bytes x)"
    using True assms by (simp add: nat_mono)
  ultimately show ?thesis
    using True by (auto simp: sp_starts_with_def memcmp_eq_0 prefix_def)
      (metis append_take_drop_id)
next
  case False
  then have "length (sp_bytes p) < length (sp_bytes x)"
    using assms by (auto simp: sp_ok_def)
  then show ?thesis
    using False by (auto simp: sp_starts_with_def dest: prefix_length_le)
qed

end
