(* ===== verification/Net_Buffer.thy ===== *)
theory Net_Buffer
  imports Endian String_Piece
begin

text \<open>
  \<^verbatim>\<open>muduo/net/Buffer.h\<close>, the buffer every connection reads from and \<^verbatim>\<open>Codec::SendMsg\<close>
  writes to: a vector of bytes with a reader and a writer index. Every member function is a
  definition; a failed \<^verbatim>\<open>assert\<close> and the \<^verbatim>\<open>length_error\<close> of a vector that would grow
  past \<^verbatim>\<open>max_size()\<close> are faults. Pointers into the vector are offsets from its start. The
  content of a buffer is the bytes between the two indices; the locale \<open>byte_buffer\<close> states
  what a client of the buffer may rely on and is interpreted on these definitions.
  \<^verbatim>\<open>kCRLF\<close> is defined outside the sources and a parameter of the two functions that use it.
\<close>

section \<open>Data\<close>

record Buffer =
  buffer :: "BYTE list"
  readerIndex :: nat
  writerIndex :: nat

definition kCheapPrepend :: nat where
  "kCheapPrepend = 8"

definition kInitialSize :: nat where
  "kInitialSize = 1024"

definition readableBytes :: "Buffer \<Rightarrow> nat" where
  "readableBytes b = sz_sub (writerIndex b) (readerIndex b)"

definition writableBytes :: "Buffer \<Rightarrow> nat" where
  "writableBytes b = sz_sub (length (buffer b)) (writerIndex b)"

definition prependableBytes :: "Buffer \<Rightarrow> nat" where
  "prependableBytes b = readerIndex b"

definition Buffer_new :: "nat \<Rightarrow> Buffer result" where
  "Buffer_new initialSize =
     (let n = sz_add kCheapPrepend initialSize;
          b = \<lparr>buffer = replicate n 0, readerIndex = kCheapPrepend, writerIndex = kCheapPrepend\<rparr>
      in if vec_max < n then Inl LengthError
         else bnd (assert_c (readableBytes b = 0)) (\<lambda>_.
              bnd (assert_c (writableBytes b = initialSize)) (\<lambda>_.
              bnd (assert_c (prependableBytes b = kCheapPrepend)) (\<lambda>_. Inr b))))"

definition Buffer_swap :: "Buffer \<Rightarrow> Buffer \<Rightarrow> Buffer \<times> Buffer" where
  "Buffer_swap lhs rhs =
     (lhs\<lparr>buffer := buffer rhs, readerIndex := readerIndex rhs, writerIndex := writerIndex rhs\<rparr>,
      rhs\<lparr>buffer := buffer lhs, readerIndex := readerIndex lhs, writerIndex := writerIndex lhs\<rparr>)"

section \<open>Reading without consuming\<close>

definition peek :: "Buffer \<Rightarrow> nat" where
  "peek b = readerIndex b"

definition beginWrite :: "Buffer \<Rightarrow> nat" where
  "beginWrite b = writerIndex b"

text \<open>The bytes \<open>[first, fin)\<close> of the vector.\<close>

definition buf_range :: "Buffer \<Rightarrow> nat \<Rightarrow> nat \<Rightarrow> BYTE list" where
  "buf_range b first fin = take (fin - first) (drop first (buffer b))"

definition findCRLF :: "BYTE list \<Rightarrow> Buffer \<Rightarrow> nat option" where
  "findCRLF kCRLF b =
     (let crlf = peek b + std_search (buf_range b (peek b) (beginWrite b)) (take 2 kCRLF)
      in if crlf = beginWrite b then None else Some crlf)"

definition findCRLF_from :: "BYTE list \<Rightarrow> Buffer \<Rightarrow> nat \<Rightarrow> nat option result" where
  "findCRLF_from kCRLF b start =
     bnd (assert_c (peek b \<le> start)) (\<lambda>_.
     bnd (assert_c (start \<le> beginWrite b)) (\<lambda>_.
       let crlf = start + std_search (buf_range b start (beginWrite b)) (take 2 kCRLF)
       in Inr (if crlf = beginWrite b then None else Some crlf)))"

definition findEOL :: "Buffer \<Rightarrow> nat option" where
  "findEOL b = map_option ((+) (peek b)) (memchr (buf_range b (peek b) (peek b + readableBytes b)) 10)"

definition findEOL_from :: "Buffer \<Rightarrow> nat \<Rightarrow> nat option result" where
  "findEOL_from b start =
     bnd (assert_c (peek b \<le> start)) (\<lambda>_.
     bnd (assert_c (start \<le> beginWrite b)) (\<lambda>_.
       Inr (map_option ((+) start) (memchr (buf_range b start (beginWrite b)) 10))))"

section \<open>Consuming\<close>

definition retrieveAll :: "Buffer \<Rightarrow> Buffer" where
  "retrieveAll b = b\<lparr>readerIndex := kCheapPrepend, writerIndex := kCheapPrepend\<rparr>"

definition retrieve :: "Buffer \<Rightarrow> nat \<Rightarrow> Buffer result" where
  "retrieve b len =
     bnd (assert_c (len \<le> readableBytes b)) (\<lambda>_.
       Inr (if len < readableBytes b then b\<lparr>readerIndex := sz_add (readerIndex b) len\<rparr>
            else retrieveAll b))"

definition retrieveUntil :: "Buffer \<Rightarrow> nat \<Rightarrow> Buffer result" where
  "retrieveUntil b fin =
     bnd (assert_c (peek b \<le> fin)) (\<lambda>_.
     bnd (assert_c (fin \<le> beginWrite b)) (\<lambda>_. retrieve b (fin - peek b)))"

definition retrieveInt64 :: "Buffer \<Rightarrow> Buffer result" where
  "retrieveInt64 b = retrieve b 8"

definition retrieveInt32 :: "Buffer \<Rightarrow> Buffer result" where
  "retrieveInt32 b = retrieve b 4"

definition retrieveInt16 :: "Buffer \<Rightarrow> Buffer result" where
  "retrieveInt16 b = retrieve b 2"

definition retrieveInt8 :: "Buffer \<Rightarrow> Buffer result" where
  "retrieveInt8 b = retrieve b 1"

definition retrieveAsString :: "Buffer \<Rightarrow> nat \<Rightarrow> (BYTE list \<times> Buffer) result" where
  "retrieveAsString b len =
     bnd (assert_c (len \<le> readableBytes b)) (\<lambda>_.
       let s = buf_range b (peek b) (peek b + len)
       in bnd (retrieve b len) (\<lambda>b'. Inr (s, b')))"

definition retrieveAllAsString :: "Buffer \<Rightarrow> (BYTE list \<times> Buffer) result" where
  "retrieveAllAsString b = retrieveAsString b (readableBytes b)"

definition toStringPiece :: "Buffer \<Rightarrow> StringPiece" where
  "toStringPiece b = StringPiece_range (Some (drop (peek b) (buffer b))) (cast_int (int (readableBytes b)))"

section \<open>Writing\<close>

definition makeSpace :: "Buffer \<Rightarrow> nat \<Rightarrow> Buffer result" where
  "makeSpace b len =
     (if sz_add (writableBytes b) (prependableBytes b) < sz_add len kCheapPrepend then
        (let n = sz_add (writerIndex b) len
         in if vec_max < n then Inl LengthError
            else Inr (b\<lparr>buffer := take n (buffer b) @ replicate (n - length (buffer b)) 0\<rparr>))
      else
        bnd (assert_c (kCheapPrepend < readerIndex b)) (\<lambda>_.
          let readable = readableBytes b;
              b' = b\<lparr>buffer := write_at (buffer b) kCheapPrepend
                                 (buf_range b (readerIndex b) (writerIndex b)),
                     readerIndex := kCheapPrepend,
                     writerIndex := sz_add kCheapPrepend readable\<rparr>
          in bnd (assert_c (readable = readableBytes b')) (\<lambda>_. Inr b')))"

definition ensureWritableBytes :: "Buffer \<Rightarrow> nat \<Rightarrow> Buffer result" where
  "ensureWritableBytes b len =
     bnd (if writableBytes b < len then makeSpace b len else Inr b) (\<lambda>b'.
     bnd (assert_c (writableBytes b' \<ge> len)) (\<lambda>_. Inr b'))"

definition hasWritten :: "Buffer \<Rightarrow> nat \<Rightarrow> Buffer result" where
  "hasWritten b len =
     bnd (assert_c (len \<le> writableBytes b)) (\<lambda>_. Inr (b\<lparr>writerIndex := sz_add (writerIndex b) len\<rparr>))"

definition unwrite :: "Buffer \<Rightarrow> nat \<Rightarrow> Buffer result" where
  "unwrite b len =
     bnd (assert_c (len \<le> readableBytes b)) (\<lambda>_. Inr (b\<lparr>writerIndex := sz_sub (writerIndex b) len\<rparr>))"

text \<open>\<^verbatim>\<open>append(const char*, size_t)\<close>: the argument is the bytes that are copied.\<close>

definition Buffer_append :: "Buffer \<Rightarrow> BYTE list \<Rightarrow> Buffer result" where
  "Buffer_append b data =
     bnd (ensureWritableBytes b (length data)) (\<lambda>b'.
       hasWritten (b'\<lparr>buffer := write_at (buffer b') (beginWrite b') data\<rparr>) (length data))"

definition Buffer_append_piece :: "Buffer \<Rightarrow> StringPiece \<Rightarrow> Buffer result" where
  "Buffer_append_piece b str = bnd (sp_read str (sp_size str)) (\<lambda>data. Buffer_append b data)"

definition prepend :: "Buffer \<Rightarrow> BYTE list \<Rightarrow> Buffer result" where
  "prepend b data =
     bnd (assert_c (length data \<le> prependableBytes b)) (\<lambda>_.
       let r = sz_sub (readerIndex b) (length data)
       in Inr (b\<lparr>readerIndex := r, buffer := write_at (buffer b) r data\<rparr>))"

definition shrink :: "Buffer \<Rightarrow> nat \<Rightarrow> Buffer result" where
  "shrink b reserve =
     bnd (Buffer_new kInitialSize) (\<lambda>other.
     bnd (ensureWritableBytes other (sz_add (readableBytes b) reserve)) (\<lambda>other.
     bnd (Buffer_append_piece other (toStringPiece b)) (\<lambda>other.
       Inr (fst (Buffer_swap b other)))))"

section \<open>Integers in network order\<close>

definition appendInt64 :: "Buffer \<Rightarrow> 64 word \<Rightarrow> Buffer result" where
  "appendInt64 b x = Buffer_append b (store_le 8 (hostToNetwork64 x))"

definition appendInt32 :: "Buffer \<Rightarrow> 32 word \<Rightarrow> Buffer result" where
  "appendInt32 b x = Buffer_append b (store_le 4 (hostToNetwork32 x))"

definition appendInt16 :: "Buffer \<Rightarrow> 16 word \<Rightarrow> Buffer result" where
  "appendInt16 b x = Buffer_append b (store_le 2 (hostToNetwork16 x))"

definition appendInt8 :: "Buffer \<Rightarrow> 8 word \<Rightarrow> Buffer result" where
  "appendInt8 b x = Buffer_append b [x]"

definition peekInt64 :: "Buffer \<Rightarrow> 64 word result" where
  "peekInt64 b = bnd (assert_c (readableBytes b \<ge> 8)) (\<lambda>_.
     Inr (networkToHost64 (load_le (buf_range b (peek b) (peek b + 8)))))"

definition peekInt32 :: "Buffer \<Rightarrow> 32 word result" where
  "peekInt32 b = bnd (assert_c (readableBytes b \<ge> 4)) (\<lambda>_.
     Inr (networkToHost32 (load_le (buf_range b (peek b) (peek b + 4)))))"

definition peekInt16 :: "Buffer \<Rightarrow> 16 word result" where
  "peekInt16 b = bnd (assert_c (readableBytes b \<ge> 2)) (\<lambda>_.
     Inr (networkToHost16 (load_le (buf_range b (peek b) (peek b + 2)))))"

definition peekInt8 :: "Buffer \<Rightarrow> 8 word result" where
  "peekInt8 b = bnd (assert_c (readableBytes b \<ge> 1)) (\<lambda>_. read_byte (buffer b) (peek b))"

definition readInt64 :: "Buffer \<Rightarrow> (64 word \<times> Buffer) result" where
  "readInt64 b = bnd (peekInt64 b) (\<lambda>r. bnd (retrieveInt64 b) (\<lambda>b'. Inr (r, b')))"

definition readInt32 :: "Buffer \<Rightarrow> (32 word \<times> Buffer) result" where
  "readInt32 b = bnd (peekInt32 b) (\<lambda>r. bnd (retrieveInt32 b) (\<lambda>b'. Inr (r, b')))"

definition readInt16 :: "Buffer \<Rightarrow> (16 word \<times> Buffer) result" where
  "readInt16 b = bnd (peekInt16 b) (\<lambda>r. bnd (retrieveInt16 b) (\<lambda>b'. Inr (r, b')))"

definition readInt8 :: "Buffer \<Rightarrow> (8 word \<times> Buffer) result" where
  "readInt8 b = bnd (peekInt8 b) (\<lambda>r. bnd (retrieveInt8 b) (\<lambda>b'. Inr (r, b')))"

definition prependInt64 :: "Buffer \<Rightarrow> 64 word \<Rightarrow> Buffer result" where
  "prependInt64 b x = prepend b (store_le 8 (hostToNetwork64 x))"

definition prependInt32 :: "Buffer \<Rightarrow> 32 word \<Rightarrow> Buffer result" where
  "prependInt32 b x = prepend b (store_le 4 (hostToNetwork32 x))"

definition prependInt16 :: "Buffer \<Rightarrow> 16 word \<Rightarrow> Buffer result" where
  "prependInt16 b x = prepend b (store_le 2 (hostToNetwork16 x))"

definition prependInt8 :: "Buffer \<Rightarrow> 8 word \<Rightarrow> Buffer result" where
  "prependInt8 b x = prepend b [x]"

section \<open>The invariant of the class and the content\<close>

text \<open>The picture in the class comment: \<^verbatim>\<open>0 <= readerIndex <= writerIndex <= size\<close>.\<close>

definition buffer_ok :: "Buffer \<Rightarrow> bool" where
  "buffer_ok b \<longleftrightarrow> readerIndex b \<le> writerIndex b \<and> writerIndex b \<le> length (buffer b) \<and>
     kCheapPrepend \<le> length (buffer b) \<and> length (buffer b) \<le> vec_max"

definition content :: "Buffer \<Rightarrow> BYTE list" where
  "content b = buf_range b (readerIndex b) (writerIndex b)"

lemma buffer_okD:
  assumes "buffer_ok b"
  shows "readerIndex b \<le> writerIndex b" "writerIndex b \<le> length (buffer b)"
    "length (buffer b) \<le> vec_max" "writerIndex b \<le> vec_max" "readerIndex b \<le> vec_max"
    "kCheapPrepend \<le> length (buffer b)"
  using assms by (auto simp: buffer_ok_def)

lemma kCheapPrepend_vec [simp]: "kCheapPrepend \<le> vec_max"
  by (simp add: kCheapPrepend_def vec_max_def)

lemma buffer_sizes:
  assumes "buffer_ok b"
  shows "readableBytes b = writerIndex b - readerIndex b"
    "writableBytes b = length (buffer b) - writerIndex b"
    "prependableBytes b = readerIndex b"
  using assms by (simp_all add: readableBytes_def writableBytes_def prependableBytes_def buffer_ok_def)

lemma length_content [simp]: "buffer_ok b \<Longrightarrow> length (content b) = readableBytes b"
  by (auto simp: content_def buf_range_def buffer_sizes dest: buffer_okD)

lemma readable_le: "buffer_ok b \<Longrightarrow> readableBytes b \<le> vec_max"
  using buffer_okD(4) [of b] by (simp add: buffer_sizes)

lemma buf_range_content:
  assumes "buffer_ok b" "n \<le> readableBytes b"
  shows "buf_range b (peek b) (peek b + n) = take n (content b)"
  using assms by (simp add: content_def buf_range_def peek_def buffer_sizes min_absorb1)

section \<open>Correctness of the operations\<close>

lemma Buffer_new_ok:
  assumes "kCheapPrepend + n \<le> vec_max"
  shows "\<exists>b. Buffer_new n = Inr b \<and> buffer_ok b \<and> content b = [] \<and> readerIndex b = kCheapPrepend"
proof -
  have "sz_add kCheapPrepend n = kCheapPrepend + n" using assms by (intro sz_add_vec) auto
  then show ?thesis
    using assms
    by (simp add: Buffer_new_def Let_def readableBytes_def writableBytes_def prependableBytes_def
        buffer_ok_def content_def buf_range_def)
qed

lemma Buffer_new_default: "\<exists>b. Buffer_new kInitialSize = Inr b \<and> buffer_ok b \<and> content b = [] \<and>
    readerIndex b = kCheapPrepend"
  by (rule Buffer_new_ok) (simp add: kCheapPrepend_def kInitialSize_def vec_max_def)

lemma retrieveAll_ok: "buffer_ok b \<Longrightarrow> buffer_ok (retrieveAll b) \<and> content (retrieveAll b) = []"
  by (simp add: retrieveAll_def buffer_ok_def content_def buf_range_def)

lemma retrieve_ok:
  assumes "buffer_ok b" "n \<le> readableBytes b"
  shows "\<exists>b'. retrieve b n = Inr b' \<and> buffer_ok b' \<and> content b' = drop n (content b)"
proof (cases "n < readableBytes b")
  case True
  let ?b = "b\<lparr>readerIndex := readerIndex b + n\<rparr>"
  have n: "n \<le> vec_max" using assms readable_le by (meson le_trans)
  have "retrieve b n = Inr ?b"
    using assms True n by (simp add: retrieve_def buffer_okD)
  moreover have "buffer_ok ?b"
    using assms True by (auto simp: buffer_ok_def buffer_sizes)
  moreover have "content ?b = drop n (content b)"
    by (simp add: content_def buf_range_def drop_take add.commute)
  ultimately show ?thesis by blast
next
  case False
  then have "retrieve b n = Inr (retrieveAll b)"
    using assms by (simp add: retrieve_def)
  moreover have "drop n (content b) = []"
    using assms False by simp
  ultimately show ?thesis
    using retrieveAll_ok [OF assms(1)] by simp
qed

lemma retrieve_fails: "readableBytes b < n \<Longrightarrow> retrieve b n = Inl AssertFail"
  by (simp add: retrieve_def assert_c_def)

lemma hasWritten_ok:
  assumes "buffer_ok b" "length d \<le> writableBytes b"
  shows "\<exists>b'. hasWritten (b\<lparr>buffer := write_at (buffer b) (beginWrite b) d\<rparr>) (length d) = Inr b' \<and>
    buffer_ok b' \<and> content b' = content b @ d \<and> readerIndex b' = readerIndex b"
proof -
  let ?m = "write_at (buffer b) (beginWrite b) d"
  have fit: "writerIndex b + length d \<le> length (buffer b)"
    using assms buffer_okD(2) [OF assms(1)] by (simp add: buffer_sizes)
  have small: "length d \<le> vec_max" using fit buffer_okD(3) [OF assms(1)] by linarith
  have "hasWritten (b\<lparr>buffer := ?m\<rparr>) (length d) = Inr (b\<lparr>buffer := ?m, writerIndex := writerIndex b + length d\<rparr>)"
    using assms fit small buffer_okD [OF assms(1)]
    by (simp add: hasWritten_def writableBytes_def beginWrite_def)
  moreover have "buffer_ok (b\<lparr>buffer := ?m, writerIndex := writerIndex b + length d\<rparr>)"
    using assms(1) fit by (simp add: buffer_ok_def beginWrite_def)
  moreover have "content (b\<lparr>buffer := ?m, writerIndex := writerIndex b + length d\<rparr>) = content b @ d"
    using fit buffer_okD(1) [OF assms(1)]
    by (simp add: content_def buf_range_def beginWrite_def slice_write_at_extend)
  ultimately show ?thesis by simp
qed

lemma makeSpace_grow:
  assumes "buffer_ok b" "writableBytes b < n" "writerIndex b + n \<le> vec_max"
    and "writableBytes b + readerIndex b < n + kCheapPrepend"
  shows "\<exists>b'. makeSpace b n = Inr b' \<and> buffer_ok b' \<and> content b' = content b \<and> n \<le> writableBytes b'"
proof -
  let ?n = "writerIndex b + n"
  let ?b = "b\<lparr>buffer := take ?n (buffer b) @ replicate (?n - length (buffer b)) 0\<rparr>"
  have len: "length (buffer b) \<le> ?n" using assms buffer_okD [OF assms(1)] by (simp add: buffer_sizes)
  have bounds: "n \<le> vec_max" "writableBytes b \<le> vec_max" "readerIndex b \<le> vec_max" "writerIndex b \<le> vec_max"
    using assms buffer_okD [OF assms(1)] by (auto simp: buffer_sizes)
  have "makeSpace b n = Inr ?b"
    using assms bounds by (simp add: makeSpace_def prependableBytes_def Let_def)
  moreover have "buffer_ok ?b"
    using assms len buffer_okD [OF assms(1)] by (simp add: buffer_ok_def)
  moreover have "content ?b = content b"
    using len buffer_okD [OF assms(1)] by (simp add: content_def buf_range_def)
  moreover have "n \<le> writableBytes ?b"
    using len by (simp add: writableBytes_def)
  ultimately show ?thesis by blast
qed

lemma makeSpace_move:
  assumes "buffer_ok b" "writableBytes b < n" "writerIndex b + n \<le> vec_max"
    and "n + kCheapPrepend \<le> writableBytes b + readerIndex b"
  shows "\<exists>b'. makeSpace b n = Inr b' \<and> buffer_ok b' \<and> content b' = content b \<and> n \<le> writableBytes b'"
proof -
  let ?c = "buf_range b (readerIndex b) (writerIndex b)"
  let ?b = "b\<lparr>buffer := write_at (buffer b) kCheapPrepend ?c, readerIndex := kCheapPrepend,
      writerIndex := kCheapPrepend + readableBytes b\<rparr>"
  note ok = buffer_okD [OF assms(1)]
  have r: "kCheapPrepend < readerIndex b" using assms by linarith
  have c: "length ?c = readableBytes b" using length_content [OF assms(1)] by (simp add: content_def)
  have fit: "kCheapPrepend + length ?c \<le> length (buffer b)"
    unfolding c using ok r by (simp add: buffer_sizes [OF assms(1)])
  have bounds: "n \<le> vec_max" "writableBytes b \<le> vec_max" "readableBytes b \<le> vec_max"
    using assms ok readable_le by (auto simp: buffer_sizes)
  have "readableBytes ?b = readableBytes b"
    by (simp add: readableBytes_def)
  then have "makeSpace b n = Inr ?b"
    using assms r bounds ok by (simp add: makeSpace_def prependableBytes_def Let_def)
  moreover have "buffer_ok ?b"
    using assms fit c ok by (simp add: buffer_ok_def)
  moreover have "content ?b = content b"
    using fit c slice_write_at_extend [of kCheapPrepend kCheapPrepend ?c "buffer b"]
    by (simp add: content_def buf_range_def)
  moreover have "n \<le> writableBytes ?b"
    using fit c ok assms(4) by (simp add: writableBytes_def buffer_sizes [OF assms(1)])
  ultimately show ?thesis by blast
qed

lemma ensureWritableBytes_ok:
  assumes "buffer_ok b" "writerIndex b + n \<le> vec_max"
  shows "\<exists>b'. ensureWritableBytes b n = Inr b' \<and> buffer_ok b' \<and> content b' = content b \<and> n \<le> writableBytes b'"
proof (cases "writableBytes b < n")
  case True
  then obtain b' where b': "makeSpace b n = Inr b'" "buffer_ok b'" "content b' = content b" "n \<le> writableBytes b'"
    using makeSpace_grow [OF assms(1) True assms(2)] makeSpace_move [OF assms(1) True assms(2)]
    by (cases "writableBytes b + readerIndex b < n + kCheapPrepend") auto
  then show ?thesis using True by (simp add: ensureWritableBytes_def)
next
  case False
  then show ?thesis using assms by (simp add: ensureWritableBytes_def)
qed

lemma Buffer_append_ok:
  assumes "buffer_ok b" "writerIndex b + length d \<le> vec_max"
  shows "\<exists>b'. Buffer_append b d = Inr b' \<and> buffer_ok b' \<and> content b' = content b @ d"
proof -
  obtain b1 where "ensureWritableBytes b (length d) = Inr b1" "buffer_ok b1" "content b1 = content b"
      "length d \<le> writableBytes b1"
    using ensureWritableBytes_ok [OF assms] by blast
  then show ?thesis
    using hasWritten_ok [of b1 d] by (auto simp: Buffer_append_def)
qed

lemma Buffer_append_reader:
  "Buffer_append b d = Inr b' \<Longrightarrow> kCheapPrepend \<le> readerIndex b \<Longrightarrow> kCheapPrepend \<le> readerIndex b'"
  by (auto simp: Buffer_append_def ensureWritableBytes_def makeSpace_def hasWritten_def Let_def bnd_eq_Inr
      split: if_splits)

lemma prepend_ok:
  assumes "buffer_ok b" "length d \<le> readerIndex b"
  shows "\<exists>b'. prepend b d = Inr b' \<and> buffer_ok b' \<and> content b' = d @ content b"
proof -
  let ?r = "readerIndex b - length d"
  let ?b = "b\<lparr>readerIndex := ?r, buffer := write_at (buffer b) ?r d\<rparr>"
  note ok = buffer_okD [OF assms(1)]
  have "prepend b d = Inr ?b"
    using assms by (simp add: prepend_def prependableBytes_def Let_def)
  moreover have "buffer_ok ?b"
    using assms ok by (simp add: buffer_ok_def)
  moreover have "content ?b = d @ content b"
    using assms ok slice_write_at_front [of ?r d "writerIndex b" "buffer b"]
    by (simp add: content_def buf_range_def)
  ultimately show ?thesis by blast
qed

lemma prepend_fails: "readerIndex b < length d \<Longrightarrow> prepend b d = Inl AssertFail"
  by (simp add: prepend_def prependableBytes_def assert_c_def)

lemma unwrite_ok:
  assumes "buffer_ok b" "n \<le> readableBytes b"
  shows "\<exists>b'. unwrite b n = Inr b' \<and> buffer_ok b' \<and> content b' = take (readableBytes b - n) (content b)"
proof -
  note ok = buffer_okD [OF assms(1)]
  have n: "n \<le> writerIndex b" "readerIndex b \<le> writerIndex b - n"
    using assms ok by (simp_all add: buffer_sizes)
  have "unwrite b n = Inr (b\<lparr>writerIndex := writerIndex b - n\<rparr>)"
    using assms n by (simp add: unwrite_def)
  moreover have "buffer_ok (b\<lparr>writerIndex := writerIndex b - n\<rparr>)"
    using n ok by (simp add: buffer_ok_def)
  moreover have "content (b\<lparr>writerIndex := writerIndex b - n\<rparr>) = take (readableBytes b - n) (content b)"
    by (simp add: content_def buf_range_def buffer_sizes [OF assms(1)] add.commute)
  ultimately show ?thesis by blast
qed

lemma retrieveAsString_ok:
  assumes "buffer_ok b" "n \<le> readableBytes b"
  shows "\<exists>b'. retrieveAsString b n = Inr (take n (content b), b') \<and> buffer_ok b' \<and> content b' = drop n (content b)"
  using assms retrieve_ok [OF assms] by (auto simp: retrieveAsString_def buf_range_content)

lemma retrieveAllAsString_ok:
  assumes "buffer_ok b"
  shows "\<exists>b'. retrieveAllAsString b = Inr (content b, b') \<and> buffer_ok b' \<and> content b' = []"
  using assms retrieveAsString_ok [OF assms order_refl] by (simp add: retrieveAllAsString_def)

lemma toStringPiece_ok:
  assumes "buffer_ok b" "readableBytes b < 2 ^ 31"
  shows "sp_ok (toStringPiece b) \<and> sp_bytes (toStringPiece b) = content b"
proof -
  have "int (readableBytes b) < 2 ^ 31" using assms(2) by simp
  then show ?thesis
    using buffer_okD [OF assms(1)]
    by (simp add: toStringPiece_def StringPiece_range_def sp_ok_def sp_bytes_def peek_def content_def
        buf_range_def buffer_sizes [OF assms(1)] nat_diff_distrib)
qed

lemma shrink_ok:
  assumes "buffer_ok b" "readableBytes b < 2 ^ 31" "readableBytes b + reserve + 2048 \<le> vec_max"
  shows "\<exists>b'. shrink b reserve = Inr b' \<and> buffer_ok b' \<and> content b' = content b"
proof -
  obtain o0 where o0: "Buffer_new kInitialSize = Inr o0" "buffer_ok o0" "content o0 = []"
      "readerIndex o0 = kCheapPrepend"
    using Buffer_new_default by blast
  have w0: "writerIndex o0 = kCheapPrepend"
    using length_content [OF o0(2)] o0 buffer_okD(1) [OF o0(2)] by (simp add: buffer_sizes)
  have sum: "sz_add (readableBytes b) reserve = readableBytes b + reserve"
    using assms by (intro sz_add_vec) auto
  obtain o1 where o1: "ensureWritableBytes o0 (readableBytes b + reserve) = Inr o1" "buffer_ok o1"
      "content o1 = []" "readableBytes b + reserve \<le> writableBytes o1"
    using ensureWritableBytes_ok [OF o0(2), of "readableBytes b + reserve"] assms w0 o0(3)
    by (auto simp: kCheapPrepend_def)
  have data: "sp_read (toStringPiece b) (sp_size (toStringPiece b)) = Inr (content b)"
    using toStringPiece_ok [OF assms(1,2)] sp_as_string_ok [of "toStringPiece b"]
    by (simp add: sp_as_string_def)
  have "writerIndex o1 + length (content b) \<le> vec_max"
    using o1 buffer_okD [OF o1(2)] assms(1) by (simp add: buffer_sizes(2) [OF o1(2)])
  then obtain o2 where "Buffer_append o1 (content b) = Inr o2" "buffer_ok o2" "content o2 = content b"
    using Buffer_append_ok [OF o1(2)] o1(3) by fastforce
  then show ?thesis
    using o0 o1 data
    by (auto simp: shrink_def sum Buffer_append_piece_def Buffer_swap_def content_def buf_range_def buffer_ok_def)
qed

section \<open>Integers\<close>

lemma hostToNetwork_load:
  "networkToHost64 (load_le (store_le 8 (hostToNetwork64 w64))) = w64"
  "networkToHost32 (load_le (store_le 4 (hostToNetwork32 w32))) = w32"
  "networkToHost16 (load_le (store_le 2 (hostToNetwork16 w16))) = w16"
  by simp_all

lemma readInt32_ok:
  assumes "buffer_ok b" "content b = store_le 4 (hostToNetwork32 x) @ rest"
  shows "\<exists>b'. readInt32 b = Inr (x, b') \<and> buffer_ok b' \<and> content b' = rest"
proof -
  have n: "4 \<le> readableBytes b" using length_content [OF assms(1)] assms(2) by simp
  then show ?thesis
    using retrieve_ok [OF assms(1) n] assms
    by (auto simp: readInt32_def peekInt32_def retrieveInt32_def buf_range_content)
qed

lemma readInt64_ok:
  assumes "buffer_ok b" "content b = store_le 8 (hostToNetwork64 x) @ rest"
  shows "\<exists>b'. readInt64 b = Inr (x, b') \<and> buffer_ok b' \<and> content b' = rest"
proof -
  have n: "8 \<le> readableBytes b" using length_content [OF assms(1)] assms(2) by simp
  then show ?thesis
    using retrieve_ok [OF assms(1) n] assms
    by (auto simp: readInt64_def peekInt64_def retrieveInt64_def buf_range_content)
qed

lemma readInt16_ok:
  assumes "buffer_ok b" "content b = store_le 2 (hostToNetwork16 x) @ rest"
  shows "\<exists>b'. readInt16 b = Inr (x, b') \<and> buffer_ok b' \<and> content b' = rest"
proof -
  have n: "2 \<le> readableBytes b" using length_content [OF assms(1)] assms(2) by simp
  then show ?thesis
    using retrieve_ok [OF assms(1) n] buf_range_content [OF assms(1) n] assms(2)
    by (auto simp: readInt16_def peekInt16_def retrieveInt16_def)
qed

lemma readInt8_ok:
  assumes "buffer_ok b" "content b = x # rest"
  shows "\<exists>b'. readInt8 b = Inr (x, b') \<and> buffer_ok b' \<and> content b' = rest"
proof -
  note ok = buffer_okD [OF assms(1)]
  have n: "1 \<le> readableBytes b" using length_content [OF assms(1)] assms(2) by simp
  then have r: "readerIndex b < length (buffer b)"
    using ok by (simp add: buffer_sizes [OF assms(1)])
  have "buffer b ! readerIndex b = x"
    using assms(2) n r hd_drop_conv_nth [OF r]
    by (cases "drop (readerIndex b) (buffer b)")
      (auto simp: content_def buf_range_def buffer_sizes [OF assms(1)] take_Cons' split: if_splits)
  then show ?thesis
    using retrieve_ok [OF assms(1) n] assms(2) n r
    by (auto simp: readInt8_def peekInt8_def retrieveInt8_def read_byte_def peek_def)
qed

lemma peekInt_underflow:
  "readableBytes b < 8 \<Longrightarrow> readInt64 b = Inl AssertFail"
  "readableBytes b < 4 \<Longrightarrow> readInt32 b = Inl AssertFail"
  "readableBytes b < 2 \<Longrightarrow> readInt16 b = Inl AssertFail"
  "readableBytes b < 1 \<Longrightarrow> readInt8 b = Inl AssertFail"
  by (simp_all add: readInt64_def readInt32_def readInt16_def readInt8_def peekInt64_def peekInt32_def
      peekInt16_def peekInt8_def assert_c_def)

section \<open>Searching\<close>

lemma findCRLF_content:
  assumes "buffer_ok b"
  shows "findCRLF crlf b =
    (let i = std_search (content b) (take 2 crlf)
     in if i = length (content b) then None else Some (peek b + i))"
  using assms buffer_okD(1) [OF assms]
  by (auto simp: findCRLF_def content_def peek_def beginWrite_def Let_def buffer_sizes
      length_content [OF assms, unfolded content_def])

lemma findEOL_content:
  assumes "buffer_ok b"
  shows "findEOL b = map_option ((+) (peek b)) (memchr (content b) 10)"
  using assms buffer_okD(1) [OF assms]
  by (simp add: findEOL_def content_def peek_def buffer_sizes)

section \<open>The interface\<close>

text \<open>What the decoder relies on: a count, a look at the front bytes, and a way to drop them.\<close>

locale byte_buffer =
  fixes ok :: "'b \<Rightarrow> bool"
    and bytes :: "'b \<Rightarrow> BYTE list"
    and avail :: "'b \<Rightarrow> nat"
    and front :: "'b \<Rightarrow> nat \<Rightarrow> BYTE list"
    and skip :: "'b \<Rightarrow> nat \<Rightarrow> 'b result"
  assumes avail: "ok b \<Longrightarrow> avail b = length (bytes b)"
    and front: "ok b \<Longrightarrow> n \<le> avail b \<Longrightarrow> front b n = take n (bytes b)"
    and skip: "ok b \<Longrightarrow> n \<le> avail b \<Longrightarrow> \<exists>b'. skip b n = Inr b' \<and> ok b' \<and> bytes b' = drop n (bytes b)"
begin

lemma skip_result:
  assumes "ok b" "n \<le> avail b" "skip b n = Inr b'"
  shows "ok b'" "bytes b' = drop n (bytes b)" "avail b' = avail b - n"
proof -
  obtain b1 where "skip b n = Inr b1" "ok b1" "bytes b1 = drop n (bytes b)"
    using skip [OF assms(1,2)] by blast
  then show "ok b'" "bytes b' = drop n (bytes b)" "avail b' = avail b - n"
    using assms by (auto simp: avail)
qed

text \<open>Reading a header of \<open>h\<close> bytes and then a body of \<open>n\<close> bytes.\<close>

lemma header_body:
  assumes "ok b" "h + n \<le> avail b"
  shows "\<exists>b1 b2. skip b h = Inr b1 \<and> ok b1 \<and> front b1 n = take n (drop h (bytes b)) \<and>
    skip b1 n = Inr b2 \<and> ok b2 \<and> bytes b2 = drop (h + n) (bytes b) \<and> avail b2 = avail b - (h + n)"
proof -
  have h: "h \<le> avail b" using assms by simp
  obtain b1 where b1: "skip b h = Inr b1" using skip [OF assms(1) h] by blast
  note r1 = skip_result [OF assms(1) h b1]
  have n: "n \<le> avail b1" using r1 assms by simp
  obtain b2 where b2: "skip b1 n = Inr b2" using skip [OF r1(1) n] by blast
  note r2 = skip_result [OF r1(1) n b2]
  show ?thesis
    using b1 b2 r1 r2 front [OF r1(1) n] by (auto simp: add.commute)
qed

end

text \<open>A buffer that can also be written: bytes pushed at the end are the next ones to be read.\<close>

locale byte_pipe = byte_buffer +
  fixes push :: "'a \<Rightarrow> BYTE list \<Rightarrow> 'a result"
    and room :: "'a \<Rightarrow> BYTE list \<Rightarrow> bool"
  assumes push: "ok b \<Longrightarrow> room b d \<Longrightarrow> \<exists>b'. push b d = Inr b' \<and> ok b' \<and> bytes b' = bytes b @ d"
begin

lemma push_skip:
  assumes "ok b" "bytes b = []" "room b d" "push b d = Inr b1"
  shows "ok b1" "front b1 (length d) = d" "\<exists>b2. skip b1 (length d) = Inr b2 \<and> ok b2 \<and> bytes b2 = []"
proof -
  show ok1: "ok b1" using push [OF assms(1,3)] assms(4) by auto
  have d: "bytes b1 = d" using push [OF assms(1,3)] assms by auto
  then show "front b1 (length d) = d" using ok1 by (simp add: front avail)
  show "\<exists>b2. skip b1 (length d) = Inr b2 \<and> ok b2 \<and> bytes b2 = []"
    using skip [OF ok1, of "length d"] d ok1 by (simp add: avail)
qed

end

interpretation nbuf: byte_pipe buffer_ok content readableBytes
  "\<lambda>b n. buf_range b (peek b) (peek b + n)" retrieve Buffer_append
  "\<lambda>b d. writerIndex b + length d \<le> vec_max"
  by unfold_locales (auto simp: buf_range_content retrieve_ok Buffer_append_ok)

section \<open>BufferStream.h\<close>

text \<open>
  \<^verbatim>\<open>BufferOutputStream\<close> hands out the writable part of a buffer. The buffer it points to is
  a field of the record; \<open>None\<close> is the null pointer that \<^verbatim>\<open>CHECK_NOTNULL\<close> refuses.
\<close>

record BufferOutputStream =
  bos_buffer :: Buffer
  bos_originalSize :: nat

definition BufferOutputStream_new :: "Buffer option \<Rightarrow> BufferOutputStream result" where
  "BufferOutputStream_new buf = (case buf of None \<Rightarrow> Inl FatalLog
     | Some b \<Rightarrow> Inr \<lparr>bos_buffer = b, bos_originalSize = readableBytes b\<rparr>)"

text \<open>\<open>Next\<close> returns the offset and size of the block it hands out.\<close>

definition bos_Next :: "BufferOutputStream \<Rightarrow> ((nat \<times> int) \<times> BufferOutputStream) result" where
  "bos_Next s =
     bnd (ensureWritableBytes (bos_buffer s) 4096) (\<lambda>b.
       let data = beginWrite b; size = cast_int (int (writableBytes b))
       in bnd (hasWritten b (nat (size mod 2 ^ 64))) (\<lambda>b'.
            Inr ((data, size), s\<lparr>bos_buffer := b'\<rparr>)))"

definition bos_BackUp :: "BufferOutputStream \<Rightarrow> int \<Rightarrow> BufferOutputStream result" where
  "bos_BackUp s count =
     bnd (unwrite (bos_buffer s) (nat (count mod 2 ^ 64))) (\<lambda>b. Inr (s\<lparr>bos_buffer := b\<rparr>))"

definition bos_ByteCount :: "BufferOutputStream \<Rightarrow> nat" where
  "bos_ByteCount s = sz_sub (readableBytes (bos_buffer s)) (bos_originalSize s)"

end
