(* ===== verification/Std_Map.thy ===== *)
theory Std_Map
  imports Pets_Prelude
begin

text \<open>
  \<^verbatim>\<open>std::map\<close>, the container of the callback table (Dispatcher), the object table
  (CObjectManager), the connection table (PetsServer) and the HTTP headers: an association
  list in strictly ascending key order, which is the order its iterators visit. The locale
  \<open>finite_store\<close> is the interface the components use; it is interpreted here on the list.
\<close>

type_synonym ('k, 'v) std_map = "('k \<times> 'v) list"

definition map_ok :: "('k::linorder, 'v) std_map \<Rightarrow> bool" where
  "map_ok m \<longleftrightarrow> sorted_wrt (<) (map fst m)"

fun map_find :: "('k::linorder, 'v) std_map \<Rightarrow> 'k \<Rightarrow> 'v option" where
  "map_find [] k = None"
| "map_find ((k', v) # m) k = (if k = k' then Some v else map_find m k)"

fun map_put :: "('k::linorder, 'v) std_map \<Rightarrow> 'k \<Rightarrow> 'v \<Rightarrow> ('k, 'v) std_map" where
  "map_put [] k v = [(k, v)]"
| "map_put ((k', v') # m) k v =
     (if k < k' then (k, v) # (k', v') # m
      else if k = k' then (k, v) # m
      else (k', v') # map_put m k v)"

fun map_erase :: "('k::linorder, 'v) std_map \<Rightarrow> 'k \<Rightarrow> ('k, 'v) std_map" where
  "map_erase [] k = []"
| "map_erase ((k', v') # m) k = (if k = k' then m else (k', v') # map_erase m k)"

lemma map_ok_simps [simp]:
  "map_ok []"
  "map_ok ((k, v) # m) \<longleftrightarrow> (\<forall>k' \<in> fst ` set m. k < k') \<and> map_ok m"
  by (auto simp: map_ok_def)

lemma map_find_None: "map_find m k = None \<longleftrightarrow> k \<notin> fst ` set m"
  by (induction m k rule: map_find.induct) simp_all

lemma map_find_Some_set: "map_find m k = Some v \<Longrightarrow> (k, v) \<in> set m"
  by (induction m) (auto split: if_splits)

lemma map_find_set_iff: "map_ok m \<Longrightarrow> (k, v) \<in> set m \<longleftrightarrow> map_find m k = Some v"
  by (induction m) (force dest: map_find_Some_set)+

lemma keys_map_put [simp]: "fst ` set (map_put m k v) = insert k (fst ` set m)"
  by (induction m k v rule: map_put.induct) (simp_all add: insert_commute)

lemma map_ok_put [simp]: "map_ok m \<Longrightarrow> map_ok (map_put m k v)"
proof (induction m k v rule: map_put.induct)
  case (2 k' v' m k v)
  then show ?case
    by (cases k k' rule: linorder_cases) (auto simp del: image_iff dest: less_trans)
qed simp

lemma map_find_put [simp]: "map_find (map_put m k v) k' = (if k' = k then Some v else map_find m k')"
  by (induction m k v rule: map_put.induct) auto

lemma keys_map_erase_sub: "set (map_erase m k) \<subseteq> set m"
  by (induction m) (auto split: if_splits)

lemma map_ok_erase [simp]: "map_ok m \<Longrightarrow> map_ok (map_erase m k)"
  using keys_map_erase_sub by (induction m) fastforce+

lemma map_find_erase [simp]:
  "map_ok m \<Longrightarrow> map_find (map_erase m k) k' = (if k' = k then None else map_find m k')"
proof (induction m)
  case (Cons p m)
  obtain a v where p: "p = (a, v)" by fastforce
  have "map_find m a = None"
    using Cons.prems p by (auto simp: map_find_None)
  then show ?case using Cons p by auto
qed simp

lemma map_erase_absent: "map_find m k = None \<Longrightarrow> map_erase m k = m"
  by (induction m) (auto split: if_splits)

lemma map_put_same [simp]: "map_ok m \<Longrightarrow> map_find m k = Some v \<Longrightarrow> map_put m k v = m"
proof (induction m)
  case (Cons p m)
  obtain k' v' where p: "p = (k', v')" by fastforce
  show ?case
  proof (cases "k = k'")
    case False
    then have "k \<in> fst ` set m"
      using Cons.prems p map_find_Some_set [of m k v] by (force split: if_splits)
    then have "k' < k" using Cons.prems p by auto
    then show ?thesis using Cons p by auto
  qed (use Cons p in auto)
qed simp

lemma length_map_put: "length (map_put m k v) = (if map_find m k = None then Suc (length m) else length m)"
  if "map_ok m" for m :: "('k::linorder, 'v) std_map"
  using that
proof (induction m)
  case (Cons p m)
  obtain k' v' where p: "p = (k', v')" by fastforce
  have "k < k' \<Longrightarrow> map_find m k = None"
    using Cons.prems p by (auto simp: map_find_None dest: less_asym)
  then show ?case using Cons p by auto
qed simp

lemma length_map_erase: "map_find m k \<noteq> None \<Longrightarrow> Suc (length (map_erase m k)) = length m"
  by (induction m) (auto split: if_splits)

lemma map_ok_distinct: "map_ok m \<Longrightarrow> distinct (map fst m)"
  by (simp add: map_ok_def strict_sorted_iff)

lemma map_ok_filter: "map_ok m \<Longrightarrow> map_ok (filter P m)"
  by (induction m) auto

lemma map_ok_ext:
  assumes "map_ok m" "map_ok m'" "\<And>k. map_find m k = map_find m' k"
  shows "m = m'"
proof (rule map_sorted_distinct_set_unique)
  have "set m = set m'"
    using assms by (auto simp: map_find_set_iff)
  then show "set m = set m'" .
  have d: "distinct (map fst m)" "distinct (map fst m')"
    using assms map_ok_distinct by blast+
  show "inj_on fst (set m \<union> set m')"
    using d \<open>set m = set m'\<close> by (simp add: distinct_map)
  show "sorted (map fst m)" "sorted (map fst m')"
    using assms by (simp_all add: map_ok_def strict_sorted_iff)
  show "distinct (map fst m)" "distinct (map fst m')"
    by (fact d)+
qed

section \<open>The interface\<close>

locale finite_store =
  fixes find :: "'m \<Rightarrow> 'k \<Rightarrow> 'v option"
    and put :: "'m \<Rightarrow> 'k \<Rightarrow> 'v \<Rightarrow> 'm"
    and erase :: "'m \<Rightarrow> 'k \<Rightarrow> 'm"
    and ok :: "'m \<Rightarrow> bool"
  assumes ok_put: "ok m \<Longrightarrow> ok (put m k v)"
    and ok_erase: "ok m \<Longrightarrow> ok (erase m k)"
    and find_put: "ok m \<Longrightarrow> find (put m k v) k' = (if k' = k then Some v else find m k')"
    and find_erase: "ok m \<Longrightarrow> find (erase m k) k' = (if k' = k then None else find m k')"
    and ext: "ok m \<Longrightarrow> ok m' \<Longrightarrow> (\<And>k. find m k = find m' k) \<Longrightarrow> m = m'"
begin

lemma erase_put: "ok m \<Longrightarrow> find m k = None \<Longrightarrow> erase (put m k v) k = m"
  by (rule ext) (auto simp: ok_put ok_erase find_put find_erase)

lemma put_put: "ok m \<Longrightarrow> put (put m k v) k w = put m k w"
  by (rule ext) (auto simp: ok_put find_put)

lemma put_commute: "ok m \<Longrightarrow> k \<noteq> k' \<Longrightarrow> put (put m k v) k' w = put (put m k' w) k v"
  by (rule ext) (auto simp: ok_put find_put)

lemma erase_absent: "ok m \<Longrightarrow> find m k = None \<Longrightarrow> erase m k = m"
  by (rule ext) (auto simp: ok_erase find_erase)

lemma put_fold: "ok m \<Longrightarrow> ok (fold (\<lambda>(k, v) m. put m k v) kvs m)"
  by (induction kvs arbitrary: m) (auto simp: ok_put)

end

interpretation smap: finite_store map_find map_put map_erase map_ok
  by unfold_locales (auto intro: map_ok_ext)

end
