(* ===== verification/Tcp_Net.thy ===== *)
theory Tcp_Net
  imports Timing Sync Net_Buffer Std_Map
begin

unbundle bit_operations_syntax

text \<open>
  The connection layer of \<^verbatim>\<open>muduo/net\<close> as far as its headers hold code: \<^verbatim>\<open>InetAddress.h\<close>,
  \<^verbatim>\<open>TimerId.h\<close>, \<^verbatim>\<open>Callbacks.h\<close>, \<^verbatim>\<open>Channel.h\<close>, \<^verbatim>\<open>EventLoop.h\<close>, \<^verbatim>\<open>EventLoopThread.h\<close>,
  \<^verbatim>\<open>EventLoopThreadPool.h\<close>, \<^verbatim>\<open>TcpConnection.h\<close>, \<^verbatim>\<open>TcpServer.h\<close> and \<^verbatim>\<open>TcpClient.h\<close>. The
  bodies of the other members are in the compiled library: \<open>shutdown\<close> and \<open>send\<close> are recorded
  as calls, the rest are parameters. A \<^verbatim>\<open>std::function\<close> is the name of its target, \<open>None\<close>
  when it is empty; the type of the targets is a parameter, as is the type of the values a
  \<^verbatim>\<open>boost::any\<close> context holds.
\<close>

type_synonym 'f std_function = "'f option"

section \<open>InetAddress.h\<close>

text \<open>The union starts with the family and the port in both of its members.\<close>

datatype sockaddr =
    Addr4 (sin_family: WORD) (sin_port: WORD) (sin_addr: DWORD)
  | Addr6 (sin_family: WORD) (sin_port: WORD) (sin6_addr: "BYTE list") (sin6_scope_id: DWORD)

record InetAddress =
  inet_addr :: sockaddr

definition InetAddress_of_in :: "WORD \<Rightarrow> WORD \<Rightarrow> DWORD \<Rightarrow> InetAddress" where
  "InetAddress_of_in fam port a = \<lparr>inet_addr = Addr4 fam port a\<rparr>"

definition InetAddress_of_in6 :: "WORD \<Rightarrow> WORD \<Rightarrow> BYTE list \<Rightarrow> DWORD \<Rightarrow> InetAddress" where
  "InetAddress_of_in6 fam port a scope = \<lparr>inet_addr = Addr6 fam port a scope\<rparr>"

definition inet_family :: "InetAddress \<Rightarrow> WORD" where
  "inet_family i = sin_family (inet_addr i)"

definition setSockAddrInet6 :: "sockaddr \<Rightarrow> InetAddress \<Rightarrow> InetAddress" where
  "setSockAddrInet6 addr6 i = i\<lparr>inet_addr := addr6\<rparr>"

definition portNetEndian :: "InetAddress \<Rightarrow> WORD" where
  "portNetEndian i = sin_port (inet_addr i)"

section \<open>TimerId.h\<close>

record TimerId =
  timer :: "nat option"
  timer_sequence :: int

definition TimerId_default :: TimerId where
  "TimerId_default = \<lparr>timer = None, timer_sequence = 0\<rparr>"

definition TimerId_of :: "nat option \<Rightarrow> int \<Rightarrow> TimerId" where
  "TimerId_of t seq = \<lparr>timer = t, timer_sequence = seq\<rparr>"

section \<open>Callbacks.h\<close>

text \<open>Smart pointers are the address they hold; \<open>dyn\<close> is \<^verbatim>\<open>dynamic_cast\<close>.\<close>

definition get_pointer :: "'p option \<Rightarrow> 'p option" where
  "get_pointer ptr = ptr"

definition down_pointer_cast :: "('f \<Rightarrow> 't option) \<Rightarrow> 'f option \<Rightarrow> 't option result" where
  "down_pointer_cast dyn f =
     bnd (assert_c (f = None \<or> Option.bind (get_pointer f) dyn \<noteq> None)) (\<lambda>_. Inr (Option.bind f dyn))"

section \<open>Channel.h\<close>

record 'f Channel =
  ch_loop :: nat
  ch_fd :: int
  ch_events :: DWORD
  ch_revents :: DWORD
  ch_index :: int
  ch_logHup :: bool
  ch_tied :: bool
  ch_eventHandling :: bool
  ch_addedToLoop :: bool
  ch_readCallback :: "'f std_function"
  ch_writeCallback :: "'f std_function"
  ch_closeCallback :: "'f std_function"
  ch_errorCallback :: "'f std_function"

definition setReadCallback :: "'f std_function \<Rightarrow> 'f Channel \<Rightarrow> 'f Channel" where
  "setReadCallback cb c = c\<lparr>ch_readCallback := cb\<rparr>"

definition setWriteCallback :: "'f std_function \<Rightarrow> 'f Channel \<Rightarrow> 'f Channel" where
  "setWriteCallback cb c = c\<lparr>ch_writeCallback := cb\<rparr>"

definition ch_setCloseCallback :: "'f std_function \<Rightarrow> 'f Channel \<Rightarrow> 'f Channel" where
  "ch_setCloseCallback cb c = c\<lparr>ch_closeCallback := cb\<rparr>"

definition setErrorCallback :: "'f std_function \<Rightarrow> 'f Channel \<Rightarrow> 'f Channel" where
  "setErrorCallback cb c = c\<lparr>ch_errorCallback := cb\<rparr>"

definition ch_get_fd :: "'f Channel \<Rightarrow> int" where
  "ch_get_fd c = ch_fd c"

definition ch_get_events :: "'f Channel \<Rightarrow> DWORD" where
  "ch_get_events c = ch_events c"

definition set_revents :: "DWORD \<Rightarrow> 'f Channel \<Rightarrow> 'f Channel" where
  "set_revents revt c = c\<lparr>ch_revents := revt\<rparr>"

text \<open>
  The three event constants and \<^verbatim>\<open>update\<close> have no value or body in the sources: the record
  \<open>channel_lib\<close> carries them.
\<close>

record 'f channel_lib =
  kNoneEvent :: DWORD
  kReadEvent :: DWORD
  kWriteEvent :: DWORD
  ch_update :: "'f Channel \<Rightarrow> 'f Channel"

definition isNoneEvent :: "'f channel_lib \<Rightarrow> 'f Channel \<Rightarrow> bool" where
  "isNoneEvent L c \<longleftrightarrow> ch_events c = kNoneEvent L"

definition enableReading :: "'f channel_lib \<Rightarrow> 'f Channel \<Rightarrow> 'f Channel" where
  "enableReading L c = ch_update L (c\<lparr>ch_events := ch_events c OR kReadEvent L\<rparr>)"

definition disableReading :: "'f channel_lib \<Rightarrow> 'f Channel \<Rightarrow> 'f Channel" where
  "disableReading L c = ch_update L (c\<lparr>ch_events := ch_events c AND NOT (kReadEvent L)\<rparr>)"

definition enableWriting :: "'f channel_lib \<Rightarrow> 'f Channel \<Rightarrow> 'f Channel" where
  "enableWriting L c = ch_update L (c\<lparr>ch_events := ch_events c OR kWriteEvent L\<rparr>)"

definition disableWriting :: "'f channel_lib \<Rightarrow> 'f Channel \<Rightarrow> 'f Channel" where
  "disableWriting L c = ch_update L (c\<lparr>ch_events := ch_events c AND NOT (kWriteEvent L)\<rparr>)"

definition disableAll :: "'f channel_lib \<Rightarrow> 'f Channel \<Rightarrow> 'f Channel" where
  "disableAll L c = ch_update L (c\<lparr>ch_events := kNoneEvent L\<rparr>)"

definition ch_isWriting :: "'f channel_lib \<Rightarrow> 'f Channel \<Rightarrow> bool" where
  "ch_isWriting L c \<longleftrightarrow> ch_events c AND kWriteEvent L \<noteq> 0"

definition ch_isReading :: "'f channel_lib \<Rightarrow> 'f Channel \<Rightarrow> bool" where
  "ch_isReading L c \<longleftrightarrow> ch_events c AND kReadEvent L \<noteq> 0"

definition ch_get_index :: "'f Channel \<Rightarrow> int" where
  "ch_get_index c = ch_index c"

definition set_index :: "int \<Rightarrow> 'f Channel \<Rightarrow> 'f Channel" where
  "set_index idx c = c\<lparr>ch_index := idx\<rparr>"

definition doNotLogHup :: "'f Channel \<Rightarrow> 'f Channel" where
  "doNotLogHup c = c\<lparr>ch_logHup := False\<rparr>"

definition ownerLoop :: "'f Channel \<Rightarrow> nat" where
  "ownerLoop c = ch_loop c"

lemmas channel_defs = isNoneEvent_def enableReading_def disableReading_def enableWriting_def
  disableWriting_def disableAll_def ch_isWriting_def ch_isReading_def

text \<open>
  What the flags mean, when \<^verbatim>\<open>update\<close> leaves the event mask alone and the event masks are
  disjoint: reading and writing are switched independently.
\<close>

definition channel_lib_ok :: "'f channel_lib \<Rightarrow> bool" where
  "channel_lib_ok L \<longleftrightarrow> kNoneEvent L = 0 \<and> kReadEvent L \<noteq> 0 \<and> kWriteEvent L \<noteq> 0 \<and>
     kReadEvent L AND kWriteEvent L = 0 \<and> (\<forall>c. ch_events (ch_update L c) = ch_events c)"

lemma word_and_or_disjoint:
  fixes e :: "'a::len word"
  assumes "r AND w = 0"
  shows "(e OR r) AND w = e AND w" "(e AND NOT r) AND w = e AND w"
proof -
  show "(e OR r) AND w = e AND w"
    using assms by (simp add: bit.conj_disj_distrib2)
  have "\<not> (bit r n \<and> bit w n)" for n
    using arg_cong [OF assms, of "\<lambda>v. bit v n"] by (simp add: bit_simps)
  then show "(e AND NOT r) AND w = e AND w"
    by (auto simp: bit_eq_iff bit_simps)
qed

lemma enableReading_flags:
  assumes "channel_lib_ok L"
  shows "ch_isReading L (enableReading L c)" "ch_isWriting L (enableReading L c) = ch_isWriting L c"
    "\<not> ch_isReading L (disableReading L c)" "ch_isWriting L (disableReading L c) = ch_isWriting L c"
proof -
  have "(ch_events c OR kReadEvent L) AND kReadEvent L = kReadEvent L"
    by (auto simp: bit_eq_iff bit_simps)
  moreover have "(ch_events c AND NOT (kReadEvent L)) AND kReadEvent L = 0"
    by (auto simp: bit_eq_iff bit_simps)
  ultimately show "ch_isReading L (enableReading L c)" "ch_isWriting L (enableReading L c) = ch_isWriting L c"
    "\<not> ch_isReading L (disableReading L c)" "ch_isWriting L (disableReading L c) = ch_isWriting L c"
    using assms word_and_or_disjoint [of "kReadEvent L" "kWriteEvent L"]
    by (simp_all add: channel_lib_ok_def channel_defs)
qed

lemma disableAll_flags:
  assumes "channel_lib_ok L"
  shows "isNoneEvent L (disableAll L c)" "\<not> ch_isReading L (disableAll L c)" "\<not> ch_isWriting L (disableAll L c)"
  using assms by (simp_all add: channel_lib_ok_def channel_defs)

section \<open>EventLoop.h\<close>

record ('x, 'f) EventLoop =
  el_looping :: bool
  el_quit :: bool
  el_eventHandling :: bool
  el_callingPendingFunctors :: bool
  el_iteration :: int
  el_threadId :: int
  el_pollReturnTime :: Timestamp
  el_wakeupFd :: int
  el_context :: 'x
  el_activeChannels :: "nat list"
  el_currentActiveChannel :: "nat option"
  el_mutex :: MutexLock
  el_pendingFunctors :: "'f list"

definition pollReturnTime :: "('x, 'f) EventLoop \<Rightarrow> Timestamp" where
  "pollReturnTime l = el_pollReturnTime l"

definition iteration :: "('x, 'f) EventLoop \<Rightarrow> int" where
  "iteration l = el_iteration l"

definition isInLoopThread :: "int \<Rightarrow> ('x, 'f) EventLoop \<Rightarrow> bool" where
  "isInLoopThread t l \<longleftrightarrow> el_threadId l = t"

text \<open>\<^verbatim>\<open>abortNotInLoopThread\<close> ends in \<^verbatim>\<open>LOG_FATAL\<close>.\<close>

definition assertInLoopThread :: "int \<Rightarrow> ('x, 'f) EventLoop \<Rightarrow> unit result" where
  "assertInLoopThread t l = (if \<not> isInLoopThread t l then Inl FatalLog else Inr ())"

definition eventHandling :: "('x, 'f) EventLoop \<Rightarrow> bool" where
  "eventHandling l = el_eventHandling l"

definition el_setContext :: "'x \<Rightarrow> ('x, 'f) EventLoop \<Rightarrow> ('x, 'f) EventLoop" where
  "el_setContext context l = l\<lparr>el_context := context\<rparr>"

definition el_getContext :: "('x, 'f) EventLoop \<Rightarrow> 'x" where
  "el_getContext l = el_context l"

definition el_getMutableContext :: "('x \<Rightarrow> 'x) \<Rightarrow> ('x, 'f) EventLoop \<Rightarrow> ('x, 'f) EventLoop" where
  "el_getMutableContext upd l = l\<lparr>el_context := upd (el_context l)\<rparr>"

section \<open>EventLoopThread.h and EventLoopThreadPool.h\<close>

record 'f EventLoopThread =
  elt_loop :: "nat option"
  elt_exiting :: bool
  elt_mutex :: MutexLock
  elt_cond :: Condition
  elt_callback :: "'f std_function"

record EventLoopThreadPool =
  pool_baseLoop :: nat
  pool_name :: string
  pool_started :: bool
  pool_numThreads :: int
  pool_next :: int
  pool_loops :: "nat list"

definition pool_setThreadNum :: "int \<Rightarrow> EventLoopThreadPool \<Rightarrow> EventLoopThreadPool" where
  "pool_setThreadNum numThreads p = p\<lparr>pool_numThreads := numThreads\<rparr>"

definition pool_is_started :: "EventLoopThreadPool \<Rightarrow> bool" where
  "pool_is_started p = pool_started p"

definition pool_get_name :: "EventLoopThreadPool \<Rightarrow> string" where
  "pool_get_name p = pool_name p"

section \<open>TcpConnection.h\<close>

datatype StateE = kDisconnected | kConnecting | kConnected | kDisconnecting

record ('x, 'f) TcpConnection =
  tc_loop :: nat
  tc_name :: string
  tc_state :: StateE
  tc_reading :: bool
  tc_localAddr :: InetAddress
  tc_peerAddr :: InetAddress
  tc_connectionCallback :: "'f std_function"
  tc_messageCallback :: "'f std_function"
  tc_writeCompleteCallback :: "'f std_function"
  tc_highWaterMarkCallback :: "'f std_function"
  tc_closeCallback :: "'f std_function"
  tc_highWaterMark :: nat
  tc_inputBuffer :: Buffer
  tc_outputBuffer :: Buffer
  tc_context :: 'x

text \<open>Calls of the members whose bodies are in the library, in the order they are made.\<close>

datatype tcp_call = CallShutdown | CallSend "BYTE list"

definition tc_getLoop :: "('x, 'f) TcpConnection \<Rightarrow> nat" where
  "tc_getLoop c = tc_loop c"

definition tc_get_name :: "('x, 'f) TcpConnection \<Rightarrow> string" where
  "tc_get_name c = tc_name c"

definition localAddress :: "('x, 'f) TcpConnection \<Rightarrow> InetAddress" where
  "localAddress c = tc_localAddr c"

definition peerAddress :: "('x, 'f) TcpConnection \<Rightarrow> InetAddress" where
  "peerAddress c = tc_peerAddr c"

definition connected :: "('x, 'f) TcpConnection \<Rightarrow> bool" where
  "connected c \<longleftrightarrow> tc_state c = kConnected"

definition disconnected :: "('x, 'f) TcpConnection \<Rightarrow> bool" where
  "disconnected c \<longleftrightarrow> tc_state c = kDisconnected"

definition tc_isReading :: "('x, 'f) TcpConnection \<Rightarrow> bool" where
  "tc_isReading c = tc_reading c"

definition setContext :: "'x \<Rightarrow> ('x, 'f) TcpConnection \<Rightarrow> ('x, 'f) TcpConnection" where
  "setContext context c = c\<lparr>tc_context := context\<rparr>"

definition getContext :: "('x, 'f) TcpConnection \<Rightarrow> 'x" where
  "getContext c = tc_context c"

definition getMutableContext :: "('x \<Rightarrow> 'x) \<Rightarrow> ('x, 'f) TcpConnection \<Rightarrow> ('x, 'f) TcpConnection" where
  "getMutableContext upd c = c\<lparr>tc_context := upd (tc_context c)\<rparr>"

definition tc_setConnectionCallback :: "'f std_function \<Rightarrow> ('x, 'f) TcpConnection \<Rightarrow> ('x, 'f) TcpConnection" where
  "tc_setConnectionCallback cb c = c\<lparr>tc_connectionCallback := cb\<rparr>"

definition tc_setMessageCallback :: "'f std_function \<Rightarrow> ('x, 'f) TcpConnection \<Rightarrow> ('x, 'f) TcpConnection" where
  "tc_setMessageCallback cb c = c\<lparr>tc_messageCallback := cb\<rparr>"

definition tc_setWriteCompleteCallback :: "'f std_function \<Rightarrow> ('x, 'f) TcpConnection \<Rightarrow> ('x, 'f) TcpConnection" where
  "tc_setWriteCompleteCallback cb c = c\<lparr>tc_writeCompleteCallback := cb\<rparr>"

definition tc_setHighWaterMarkCallback :: "'f std_function \<Rightarrow> nat \<Rightarrow> ('x, 'f) TcpConnection \<Rightarrow> ('x, 'f) TcpConnection" where
  "tc_setHighWaterMarkCallback cb mark c = c\<lparr>tc_highWaterMarkCallback := cb, tc_highWaterMark := mark\<rparr>"

definition inputBuffer :: "(Buffer \<Rightarrow> Buffer) \<Rightarrow> ('x, 'f) TcpConnection \<Rightarrow> ('x, 'f) TcpConnection" where
  "inputBuffer upd c = c\<lparr>tc_inputBuffer := upd (tc_inputBuffer c)\<rparr>"

definition outputBuffer :: "(Buffer \<Rightarrow> Buffer) \<Rightarrow> ('x, 'f) TcpConnection \<Rightarrow> ('x, 'f) TcpConnection" where
  "outputBuffer upd c = c\<lparr>tc_outputBuffer := upd (tc_outputBuffer c)\<rparr>"

definition tc_setCloseCallback :: "'f std_function \<Rightarrow> ('x, 'f) TcpConnection \<Rightarrow> ('x, 'f) TcpConnection" where
  "tc_setCloseCallback cb c = c\<lparr>tc_closeCallback := cb\<rparr>"

definition setState :: "StateE \<Rightarrow> ('x, 'f) TcpConnection \<Rightarrow> ('x, 'f) TcpConnection" where
  "setState s c = c\<lparr>tc_state := s\<rparr>"

section \<open>TcpServer.h\<close>

datatype Option = kNoReusePort | kReusePort

record 'f TcpServer =
  ts_loop :: nat
  ts_ipPort :: string
  ts_name :: string
  ts_threadPool :: EventLoopThreadPool
  ts_connectionCallback :: "'f std_function"
  ts_messageCallback :: "'f std_function"
  ts_writeCompleteCallback :: "'f std_function"
  ts_threadInitCallback :: "'f std_function"
  ts_started :: "32 word AtomicIntegerT"
  ts_nextConnId :: int
  ts_connections :: "string \<rightharpoonup> nat"

definition ipPort :: "'f TcpServer \<Rightarrow> string" where
  "ipPort s = ts_ipPort s"

definition ts_get_name :: "'f TcpServer \<Rightarrow> string" where
  "ts_get_name s = ts_name s"

definition ts_getLoop :: "'f TcpServer \<Rightarrow> nat" where
  "ts_getLoop s = ts_loop s"

definition setThreadInitCallback :: "'f std_function \<Rightarrow> 'f TcpServer \<Rightarrow> 'f TcpServer" where
  "setThreadInitCallback cb s = s\<lparr>ts_threadInitCallback := cb\<rparr>"

definition threadPool :: "'f TcpServer \<Rightarrow> EventLoopThreadPool" where
  "threadPool s = ts_threadPool s"

definition setConnectionCallback :: "'f std_function \<Rightarrow> 'f TcpServer \<Rightarrow> 'f TcpServer" where
  "setConnectionCallback cb s = s\<lparr>ts_connectionCallback := cb\<rparr>"

definition setMessageCallback :: "'f std_function \<Rightarrow> 'f TcpServer \<Rightarrow> 'f TcpServer" where
  "setMessageCallback cb s = s\<lparr>ts_messageCallback := cb\<rparr>"

definition setWriteCompleteCallback :: "'f std_function \<Rightarrow> 'f TcpServer \<Rightarrow> 'f TcpServer" where
  "setWriteCompleteCallback cb s = s\<lparr>ts_writeCompleteCallback := cb\<rparr>"

section \<open>TcpClient.h\<close>

record 'f TcpClient =
  cl_loop :: nat
  cl_connector :: nat
  cl_name :: string
  cl_connectionCallback :: "'f std_function"
  cl_messageCallback :: "'f std_function"
  cl_writeCompleteCallback :: "'f std_function"
  cl_retry :: bool
  cl_connect :: bool
  cl_nextConnId :: int
  cl_mutex :: MutexLock
  cl_connection :: "nat option"

text \<open>\<^verbatim>\<open>connection()\<close> reads the pointer under the lock; \<open>None\<close> when the lock is not free.\<close>

definition cl_get_connection :: "int \<Rightarrow> 'f TcpClient \<Rightarrow> (nat option \<times> 'f TcpClient) result option" where
  "cl_get_connection t c =
     (case MutexLockGuard_new t (cl_mutex c) of None \<Rightarrow> None
      | Some m \<Rightarrow> Some (bnd (MutexLockGuard_dtor t m) (\<lambda>m'. Inr (cl_connection c, c\<lparr>cl_mutex := m'\<rparr>))))"

definition cl_getLoop :: "'f TcpClient \<Rightarrow> nat" where
  "cl_getLoop c = cl_loop c"

definition retry :: "'f TcpClient \<Rightarrow> bool" where
  "retry c = cl_retry c"

definition enableRetry :: "'f TcpClient \<Rightarrow> 'f TcpClient" where
  "enableRetry c = c\<lparr>cl_retry := True\<rparr>"

definition cl_get_name :: "'f TcpClient \<Rightarrow> string" where
  "cl_get_name c = cl_name c"

definition cl_setConnectionCallback :: "'f std_function \<Rightarrow> 'f TcpClient \<Rightarrow> 'f TcpClient" where
  "cl_setConnectionCallback cb c = c\<lparr>cl_connectionCallback := cb\<rparr>"

definition cl_setMessageCallback :: "'f std_function \<Rightarrow> 'f TcpClient \<Rightarrow> 'f TcpClient" where
  "cl_setMessageCallback cb c = c\<lparr>cl_messageCallback := cb\<rparr>"

definition cl_setWriteCompleteCallback :: "'f std_function \<Rightarrow> 'f TcpClient \<Rightarrow> 'f TcpClient" where
  "cl_setWriteCompleteCallback cb c = c\<lparr>cl_writeCompleteCallback := cb\<rparr>"

lemma cl_get_connection_free:
  assumes "mutex_ok (cl_mutex c)" "mx_owner (cl_mutex c) = None"
  shows "cl_get_connection t c = Some (Inr (cl_connection c, c))"
proof -
  obtain m where m: "mutex_lock t (cl_mutex c) = Some m" using assms(2) by (simp add: mutex_lock_def)
  then show ?thesis
    using mutex_lock_unlock [OF assms(1) m]
    by (simp add: cl_get_connection_def MutexLockGuard_new_def MutexLockGuard_dtor_def)
qed

end
