(* ===== verification/Net_Messages.thy ===== *)
theory Net_Messages
  imports Endian
begin

text \<open>
  \<^verbatim>\<open>NetMsg/\<close>: the constants of \<^verbatim>\<open>Define.hpp\<close>, the message structs of
  \<^verbatim>\<open>SMessage.hpp\<close>, \<^verbatim>\<open>LoginMsg.hpp\<close>, \<^verbatim>\<open>MoveMsg.hpp\<close> and \<^verbatim>\<open>ChatMsg.hpp\<close>, and the random
  string of \<^verbatim>\<open>Algorithm.hpp\<close>. Inheritance of structs is record extension; a flexible array
  member is a byte list. The image of a message is its bytes in memory, with the alignment of
  the x86-64 ABI (the sources set no packing): \<open>DECLARE_MSG\<close> constructors fill in the two
  protocol bytes, \<open>*_image\<close> lays a struct out, \<open>*_read\<close> is the cast of a received block.
\<close>

section \<open>Define.hpp\<close>

definition MAX_CHAT_LEN :: nat where "MAX_CHAT_LEN = 128"

record POINT =
  pt_x :: WORD
  pt_y :: WORD

definition HEADMSGLEN :: nat where "HEADMSGLEN = 4"

definition BODYMSGMAXLEN :: nat where "BODYMSGMAXLEN = 0xFFF0"

definition IID_PETS :: DWORD where "IID_PETS = 1"

definition IID_ITEM :: DWORD where "IID_ITEM = 2"

definition SERVER_FPS :: int where "SERVER_FPS = 20"

datatype LINKSTATUS =
    LinkStatus_UnConnected
  | LinkStatus_Login
  | LinkStatus_Connected
  | LinkStatus_Disconnected

section \<open>SMessage.hpp\<close>

record SMessage =
  smsg_protocol :: BYTE

definition KKDD_LOGIN_MESSAGE_BASE :: BYTE where "KKDD_LOGIN_MESSAGE_BASE = 0x64"

definition KKDD_MOVE_MESSAGE_BASE :: BYTE where "KKDD_MOVE_MESSAGE_BASE = 0x65"

definition KKDD_CHAT_MESSAGE_BASE :: BYTE where "KKDD_CHAT_MESSAGE_BASE = 0x66"

definition KKDD_FIGHT_MESSAGE_BASE :: BYTE where "KKDD_FIGHT_MESSAGE_BASE = 0x67"

lemmas message_base_defs = KKDD_LOGIN_MESSAGE_BASE_def KKDD_MOVE_MESSAGE_BASE_def
  KKDD_CHAT_MESSAGE_BASE_def KKDD_FIGHT_MESSAGE_BASE_def

text \<open>
  \<^verbatim>\<open>DECLARE_MSG_MAP_BEGIN(name, BaseMessage, MessageType)\<close> declares a struct with a second
  protocol byte whose constructor stores \<open>MessageType\<close> in the inherited one; \<^verbatim>\<open>DECLARE_MSG\<close>
  derives from it and stores the sub-type in the second. Both bytes come first in memory.
\<close>

definition declare_msg_map :: "BYTE \<Rightarrow> SMessage" where
  "declare_msg_map MessageType = \<lparr>smsg_protocol = MessageType\<rparr>"

section \<open>LoginMsg.hpp\<close>

record SLoginBaseMsg = SMessage +
  login_protocol :: BYTE

definition KKDD_LOGINMSG_LOGIN :: BYTE where "KKDD_LOGINMSG_LOGIN = 0"

definition KKDD_LOGINMSG_REGISTER :: BYTE where "KKDD_LOGINMSG_REGISTER = 1"

definition KKDD_LOGINMSG_SETINFO :: BYTE where "KKDD_LOGINMSG_SETINFO = 2"

definition KKDD_LOGINMSG_GEITINFO :: BYTE where "KKDD_LOGINMSG_GEITINFO = 3"

definition SLoginMsg :: SLoginBaseMsg where
  "SLoginMsg = SMessage.extend (declare_msg_map KKDD_LOGIN_MESSAGE_BASE)
     (SLoginBaseMsg.fields KKDD_LOGINMSG_LOGIN)"

definition SRegisterMsg :: SLoginBaseMsg where
  "SRegisterMsg = SMessage.extend (declare_msg_map KKDD_LOGIN_MESSAGE_BASE)
     (SLoginBaseMsg.fields KKDD_LOGINMSG_LOGIN)"

record SQLoginMsg = SLoginBaseMsg +
  login_str :: "BYTE list"

record SALoginMsg = SLoginBaseMsg +
  LoginRet :: BYTE

datatype LoginResult =
    LOGIN_SUCCESS
  | INVALID_ACCOUNT
  | INVALID_PASSWORD
  | LOGIN_ALREADY_LOGIN
  | ACCOUNT_BLOCKED

record SQRegisterMsg = SLoginBaseMsg +
  register_str :: "BYTE list"

record SARegisterMsg = SLoginBaseMsg +
  RegisterRet :: BYTE

datatype RegisterResult =
    REGINTER_SUCCESS
  | ACCOUNT_EXIST

section \<open>MoveMsg.hpp\<close>

record SMoveBaseMsg = SMessage +
  move_protocol :: BYTE

definition KKDD_MOVEMSG_MOVE :: BYTE where "KKDD_MOVEMSG_MOVE = 0"

definition KKDD_MOVEMSG_POSITION :: BYTE where "KKDD_MOVEMSG_POSITION = 1"

definition KKDD_MOVEMSG_JUMP :: BYTE where "KKDD_MOVEMSG_JUMP = 2"

definition SMoveMoveBaseMsg :: SMoveBaseMsg where
  "SMoveMoveBaseMsg = SMessage.extend (declare_msg_map KKDD_MOVE_MESSAGE_BASE)
     (SMoveBaseMsg.fields KKDD_MOVEMSG_MOVE)"

record SQMoveMsg = SMoveBaseMsg +
  move_roomID :: QWORD
  move_pos :: POINT

record SAMoveMsg = SMoveBaseMsg +
  moved_pos :: POINT

section \<open>ChatMsg.hpp\<close>

record SChatBaseMsg = SMessage +
  chat_protocol :: BYTE

definition KKDD_CHATMSG_WHISPER :: BYTE where "KKDD_CHATMSG_WHISPER = 0"

definition KKDD_CHATMSG_BROADCAST :: BYTE where "KKDD_CHATMSG_BROADCAST = 1"

definition KKDD_CHATMSG_SYSTEM :: BYTE where "KKDD_CHATMSG_SYSTEM = 2"

definition KKDD_CHATMSG_ROOM :: BYTE where "KKDD_CHATMSG_ROOM = 3"

definition SChatBaseWhisperMsg :: SChatBaseMsg where
  "SChatBaseWhisperMsg = SMessage.extend (declare_msg_map KKDD_CHAT_MESSAGE_BASE)
     (SChatBaseMsg.fields KKDD_CHATMSG_WHISPER)"

definition SChatBaseBroadcastMsg :: SChatBaseMsg where
  "SChatBaseBroadcastMsg = SMessage.extend (declare_msg_map KKDD_CHAT_MESSAGE_BASE)
     (SChatBaseMsg.fields KKDD_CHATMSG_BROADCAST)"

definition SChatBaseSystemMsg :: SChatBaseMsg where
  "SChatBaseSystemMsg = SMessage.extend (declare_msg_map KKDD_CHAT_MESSAGE_BASE)
     (SChatBaseMsg.fields KKDD_CHATMSG_SYSTEM)"

definition SChatBaseRoomMsg :: SChatBaseMsg where
  "SChatBaseRoomMsg = SMessage.extend (declare_msg_map KKDD_CHAT_MESSAGE_BASE)
     (SChatBaseMsg.fields KKDD_CHATMSG_ROOM)"

record SQChatWhisperMsg = SChatBaseMsg +
  whisper_dnid :: DNID
  whisper_chatData :: "BYTE list"

record SAChatWhisperMsg = SChatBaseMsg +
  whispered_chatData :: "BYTE list"

record SQChatBroadcastMsg = SChatBaseMsg +
  broadcastData :: "BYTE list"

record SAChatBroadcastMsg = SChatBaseMsg +
  broadcastedData :: "BYTE list"

record SQChatSystemMsg = SChatBaseMsg +
  systemData :: "BYTE list"

record SAChatSystemMsg = SChatBaseMsg +
  systemedData :: "BYTE list"

record SQChatRoomMsg = SChatBaseMsg +
  chat_roomID :: WORD
  roomData :: "BYTE list"

record SAChatRoomMsg = SChatBaseMsg +
  roomedData :: "BYTE list"

section \<open>Images in memory\<close>

text \<open>
  Struct layout: a field of alignment \<open>a\<close> starts at the next multiple of \<open>a\<close>; the bytes in
  between are padding, whose value is not specified (a parameter of the image).
\<close>

definition align_up :: "nat \<Rightarrow> nat \<Rightarrow> nat" where
  "align_up off a = (off + a - 1) div a * a"

definition put_field :: "BYTE \<Rightarrow> nat \<Rightarrow> BYTE list \<Rightarrow> BYTE list \<Rightarrow> BYTE list" where
  "put_field pad a bs f = bs @ replicate (align_up (length bs) a - length bs) pad @ f"

definition point_image :: "POINT \<Rightarrow> BYTE list" where
  "point_image p = store_le 2 (pt_x p) @ store_le 2 (pt_y p)"

definition SQLoginMsg_image :: "SQLoginMsg \<Rightarrow> BYTE list" where
  "SQLoginMsg_image m = [smsg_protocol m, login_protocol m] @ login_str m"

definition SALoginMsg_image :: "SALoginMsg \<Rightarrow> BYTE list" where
  "SALoginMsg_image m = [smsg_protocol m, login_protocol m, LoginRet m]"

definition SQRegisterMsg_image :: "SQRegisterMsg \<Rightarrow> BYTE list" where
  "SQRegisterMsg_image m = [smsg_protocol m, login_protocol m] @ register_str m"

definition SQMoveMsg_image :: "BYTE \<Rightarrow> SQMoveMsg \<Rightarrow> BYTE list" where
  "SQMoveMsg_image pad m =
     put_field pad 8
       (put_field pad 2
         (put_field pad 8 [smsg_protocol m, move_protocol m] (store_le 8 (move_roomID m)))
         (point_image (move_pos m))) []"

definition SAMoveMsg_image :: "BYTE \<Rightarrow> SAMoveMsg \<Rightarrow> BYTE list" where
  "SAMoveMsg_image pad m = put_field pad 2 [smsg_protocol m, move_protocol m] (point_image (moved_pos m))"

definition SQChatWhisperMsg_image :: "BYTE \<Rightarrow> SQChatWhisperMsg \<Rightarrow> BYTE list" where
  "SQChatWhisperMsg_image pad m =
     put_field pad 4 [smsg_protocol m, chat_protocol m] (store_le 4 (whisper_dnid m)) @ whisper_chatData m"

definition SQChatRoomMsg_image :: "BYTE \<Rightarrow> SQChatRoomMsg \<Rightarrow> BYTE list" where
  "SQChatRoomMsg_image pad m =
     put_field pad 2 [smsg_protocol m, chat_protocol m] (store_le 2 (chat_roomID m)) @ roomData m"

text \<open>Reading a field through a cast pointer: \<open>n\<close> bytes at offset \<open>off\<close> of the block.\<close>

definition get_field :: "BYTE list \<Rightarrow> nat \<Rightarrow> nat \<Rightarrow> BYTE list result" where
  "get_field bs off n = (if off + n \<le> length bs then Inr (take n (drop off bs)) else Inl OutOfBounds)"

definition point_read :: "BYTE list \<Rightarrow> nat \<Rightarrow> POINT result" where
  "point_read bs off =
     bnd (get_field bs off 2) (\<lambda>x. bnd (get_field bs (off + 2) 2) (\<lambda>y.
       Inr \<lparr>pt_x = load_le x, pt_y = load_le y\<rparr>))"

definition SQMoveMsg_read :: "BYTE list \<Rightarrow> SQMoveMsg result" where
  "SQMoveMsg_read bs =
     bnd (read_byte bs 0) (\<lambda>p. bnd (read_byte bs 1) (\<lambda>q.
     bnd (get_field bs 8 8) (\<lambda>r. bnd (point_read bs 16) (\<lambda>pos.
       Inr \<lparr>smsg_protocol = p, move_protocol = q, move_roomID = load_le r, move_pos = pos\<rparr>))))"

definition SQChatWhisperMsg_read :: "BYTE list \<Rightarrow> SQChatWhisperMsg result" where
  "SQChatWhisperMsg_read bs =
     bnd (read_byte bs 0) (\<lambda>p. bnd (read_byte bs 1) (\<lambda>q. bnd (get_field bs 4 4) (\<lambda>d.
       Inr \<lparr>smsg_protocol = p, chat_protocol = q, whisper_dnid = load_le d, whisper_chatData = drop 8 bs\<rparr>)))"

definition SQChatRoomMsg_read :: "BYTE list \<Rightarrow> SQChatRoomMsg result" where
  "SQChatRoomMsg_read bs =
     bnd (read_byte bs 0) (\<lambda>p. bnd (read_byte bs 1) (\<lambda>q. bnd (get_field bs 2 2) (\<lambda>d.
       Inr \<lparr>smsg_protocol = p, chat_protocol = q, chat_roomID = load_le d, roomData = drop 4 bs\<rparr>)))"

section \<open>Round trips\<close>

lemma point_read_image:
  "point_read (pre @ point_image p @ post) (length pre) = Inr p"
  by (simp add: point_read_def point_image_def get_field_def)

lemma SQMoveMsg_image_split:
  "SQMoveMsg_image pad m =
    ([smsg_protocol m, move_protocol m] @ replicate 6 pad @ store_le 8 (move_roomID m)) @
    point_image (move_pos m) @ replicate 4 pad"
  by (simp add: SQMoveMsg_image_def put_field_def align_up_def point_image_def)

lemma get_field_mid: "off = length pre \<Longrightarrow> n = length f \<Longrightarrow> get_field (pre @ f @ post) off n = Inr f"
  by (simp add: get_field_def)

lemma SQMoveMsg_roundtrip: "SQMoveMsg_read (SQMoveMsg_image pad m) = Inr m"
proof -
  let ?pre = "[smsg_protocol m, move_protocol m] @ replicate 6 pad @ store_le 8 (move_roomID m)"
  have "length ?pre = 16" by simp
  then have pos: "point_read (SQMoveMsg_image pad m) 16 = Inr (move_pos m)"
    using point_read_image [of ?pre "move_pos m" "replicate 4 pad"]
    by (simp only: SQMoveMsg_image_split)
  have room: "get_field (SQMoveMsg_image pad m) 8 8 = Inr (store_le 8 (move_roomID m))"
    using get_field_mid [of 8 "[smsg_protocol m, move_protocol m] @ replicate 6 pad" 8
        "store_le 8 (move_roomID m)" "point_image (move_pos m) @ replicate 4 pad"]
    by (simp add: SQMoveMsg_image_split)
  show ?thesis
    using pos room by (simp add: SQMoveMsg_read_def read_byte_def SQMoveMsg_image_split)
qed

lemma SQChatWhisperMsg_image_split:
  "SQChatWhisperMsg_image pad m =
    [smsg_protocol m, chat_protocol m, pad, pad] @ store_le 4 (whisper_dnid m) @ whisper_chatData m"
  by (simp add: SQChatWhisperMsg_image_def put_field_def align_up_def numeral_2_eq_2)

lemma SQChatWhisperMsg_roundtrip: "SQChatWhisperMsg_read (SQChatWhisperMsg_image pad m) = Inr m"
proof -
  have "get_field (SQChatWhisperMsg_image pad m) 4 4 = Inr (store_le 4 (whisper_dnid m))"
    unfolding SQChatWhisperMsg_image_split by (rule get_field_mid) simp_all
  moreover have "drop 8 (SQChatWhisperMsg_image pad m) = whisper_chatData m"
    by (simp add: SQChatWhisperMsg_image_split)
  ultimately show ?thesis
    by (simp add: SQChatWhisperMsg_read_def read_byte_def SQChatWhisperMsg_image_split)
qed

lemma SQChatRoomMsg_image_split:
  "SQChatRoomMsg_image pad m =
    [smsg_protocol m, chat_protocol m] @ store_le 2 (chat_roomID m) @ roomData m"
  by (simp add: SQChatRoomMsg_image_def put_field_def align_up_def)

lemma SQChatRoomMsg_roundtrip: "SQChatRoomMsg_read (SQChatRoomMsg_image pad m) = Inr m"
proof -
  have "get_field (SQChatRoomMsg_image pad m) 2 2 = Inr (store_le 2 (chat_roomID m))"
    unfolding SQChatRoomMsg_image_split by (rule get_field_mid) simp_all
  moreover have "drop 4 (SQChatRoomMsg_image pad m) = roomData m"
    by (simp add: SQChatRoomMsg_image_split)
  ultimately show ?thesis
    by (simp add: SQChatRoomMsg_read_def read_byte_def SQChatRoomMsg_image_split)
qed

section \<open>Algorithm.hpp\<close>

text \<open>
  \<^verbatim>\<open>srand_str\<close>. The values of \<^verbatim>\<open>rand()\<close> after \<^verbatim>\<open>srand\<close> are a parameter: \<open>rnd k\<close> is the
  \<open>k\<close>-th; the loop takes two per character.
\<close>

definition srand_ch :: "nat \<Rightarrow> nat \<Rightarrow> char" where
  "srand_ch r1 r2 =
     (let type = r1 mod 3
      in if type = 0 then char_of (r2 mod (90 - 65 + 1) + 65)
         else if type = 1 then char_of (r2 mod (122 - 97 + 1) + 97)
         else char_of (r2 mod (57 - 48 + 1) + 48))"

fun srand_str :: "(nat \<Rightarrow> nat) \<Rightarrow> string \<Rightarrow> nat \<Rightarrow> string" where
  "srand_str rnd nonce 0 = nonce"
| "srand_str rnd nonce (Suc len) =
     srand_str (\<lambda>k. rnd (k + 2)) (nonce @ [srand_ch (rnd 0) (rnd 1)]) len"

definition is_alnum :: "char \<Rightarrow> bool" where
  "is_alnum c \<longleftrightarrow> (let n = of_char c :: nat in
     (48 \<le> n \<and> n \<le> 57) \<or> (65 \<le> n \<and> n \<le> 90) \<or> (97 \<le> n \<and> n \<le> 122))"

lemma srand_ch_alnum: "is_alnum (srand_ch r1 r2)"
proof -
  have "r2 mod 26 \<le> 25" "r2 mod 10 \<le> 9"
    using mod_less_divisor [of 26 r2] mod_less_divisor [of 10 r2] by linarith+
  then show ?thesis
    by (simp add: srand_ch_def is_alnum_def Let_def)
qed

lemma srand_str_appends:
  "\<exists>t. srand_str rnd nonce len = nonce @ t \<and> length t = len \<and> list_all is_alnum t"
proof (induction len arbitrary: rnd nonce)
  case (Suc len)
  obtain t where "srand_str (\<lambda>k. rnd (k + 2)) (nonce @ [srand_ch (rnd 0) (rnd 1)]) len =
      (nonce @ [srand_ch (rnd 0) (rnd 1)]) @ t" "length t = len" "list_all is_alnum t"
    using Suc by blast
  then show ?case
    by (intro exI [of _ "srand_ch (rnd 0) (rnd 1) # t"]) (simp add: srand_ch_alnum)
qed simp

end
