(* ===== verification/Objects.thy ===== *)
theory Objects
  imports Std_Map Net_Messages
begin

text \<open>
  \<^verbatim>\<open>ObjectModule/Object.hpp\<close>, \<^verbatim>\<open>ObjectManager.hpp\<close>/\<^verbatim>\<open>.cpp\<close>, the data of \<^verbatim>\<open>Pet.hpp\<close> and
  \<^verbatim>\<open>PetsManager::CreateObject\<close>. Objects live in an explicit heap, so that \<^verbatim>\<open>delete\<close> of a
  block that is not allocated is a fault; a null pointer is \<open>None\<close>. The lemmas show that the
  manager frees every object at most once as long as \<^verbatim>\<open>RealseObject\<close> and \<^verbatim>\<open>Run\<close> are used,
  that \<^verbatim>\<open>Run\<close> removes exactly the entries whose object is gone, and that \<^verbatim>\<open>Clear\<close> called
  twice frees twice.
\<close>

section \<open>Objects and pets\<close>

record Object =
  obj_IID :: DWORD

definition Object_new :: Object where
  "Object_new = \<lparr>obj_IID = 0\<rparr>"

record SProperty =
  staticID :: DWORD
  prop_pos :: POINT
  prop_name :: "BYTE list"
  prop_password :: "BYTE list"

text \<open>\<^verbatim>\<open>memset(this, 0, sizeof(SProperty))\<close>: two arrays of 20 bytes.\<close>

definition SProperty_new :: SProperty where
  "SProperty_new = \<lparr>staticID = 0, prop_pos = \<lparr>pt_x = 0, pt_y = 0\<rparr>,
     prop_name = replicate 20 0, prop_password = replicate 20 0\<rparr>"

text \<open>\<^verbatim>\<open>Pet\<close> declares an \<^verbatim>\<open>m_IID\<close> of its own beside the private one it inherits.\<close>

record Pet = Object +
  m_Property :: SProperty
  pet_IID :: DWORD
  m_dnid :: DNID

definition Pet_new :: Pet where
  "Pet_new = \<lparr>obj_IID = 0, m_Property = SProperty_new, pet_IID = IID_PETS, m_dnid = 0xFFFFFFFF\<rparr>"

definition GetDnid :: "Pet \<Rightarrow> DNID" where
  "GetDnid p = m_dnid p"

section \<open>The heap\<close>

type_synonym addr = nat

datatype obj = BaseObj Object | PetObj Pet

type_synonym obj_heap = "(addr, obj) std_map"

definition new_addr :: "obj_heap \<Rightarrow> addr" where
  "new_addr h = (if h = [] then 1 else Suc (fst (last h)))"

definition heap_new :: "obj_heap \<Rightarrow> obj \<Rightarrow> addr \<times> obj_heap" where
  "heap_new h x = (new_addr h, map_put h (new_addr h) x)"

definition heap_delete :: "obj_heap \<Rightarrow> addr \<Rightarrow> obj_heap result" where
  "heap_delete h a = (case map_find h a of None \<Rightarrow> Inl DoubleFree | Some _ \<Rightarrow> Inr (map_erase h a))"

text \<open>\<^verbatim>\<open>VDC\<close> is virtual: a base object answers NULL, a pet answers itself for its own type.\<close>

definition VDC :: "obj_heap \<Rightarrow> addr \<Rightarrow> DWORD \<Rightarrow> addr option result" where
  "VDC h a IID = (case map_find h a of None \<Rightarrow> Inl NullDeref
     | Some (BaseObj ob) \<Rightarrow> Inr None
     | Some (PetObj p) \<Rightarrow> Inr (if IID = IID_PETS then Some a else None))"

definition obj_base_IID :: "obj \<Rightarrow> DWORD" where
  "obj_base_IID x = (case x of BaseObj ob \<Rightarrow> obj_IID ob | PetObj p \<Rightarrow> obj_IID p)"

definition DynamicCast :: "obj_heap \<Rightarrow> addr option \<Rightarrow> DWORD \<Rightarrow> addr option result" where
  "DynamicCast h this IID =
     (case this of None \<Rightarrow> Inr None
      | Some a \<Rightarrow> (case map_find h a of None \<Rightarrow> Inl NullDeref
          | Some x \<Rightarrow> if IID = obj_base_IID x then Inr (Some a) else VDC h a IID))"

section \<open>The object manager\<close>

record CObjectManager =
  m_lMaxSize :: int
  m_ObjectMap :: "(DNID, addr option) std_map"
  m_RemoveList :: "DNID list"

definition Initialize :: "CObjectManager \<Rightarrow> int \<Rightarrow> bool \<times> CObjectManager" where
  "Initialize m lMaxObject = (True, m\<lparr>m_lMaxSize := lMaxObject\<rparr>)"

text \<open>The two loops of \<^verbatim>\<open>Run\<close>: collect the keys whose object is NULL, then erase them.\<close>

fun run_collect :: "(DNID, addr option) std_map \<Rightarrow> DNID list \<Rightarrow> DNID list" where
  "run_collect [] rem = rem"
| "run_collect ((k, pObject) # it) rem = run_collect it (if pObject = None then rem @ [k] else rem)"

fun run_remove :: "(DNID, addr option) std_map \<Rightarrow> DNID list \<Rightarrow> (DNID, addr option) std_map" where
  "run_remove m [] = m"
| "run_remove m (k # rem) =
     run_remove (case map_find m k of None \<Rightarrow> m | Some _ \<Rightarrow> map_erase m k) rem"

definition Run :: "CObjectManager \<Rightarrow> bool \<times> CObjectManager" where
  "Run m = (let rem = run_collect (m_ObjectMap m) (m_RemoveList m)
            in (True, m\<lparr>m_ObjectMap := run_remove (m_ObjectMap m) rem, m_RemoveList := []\<rparr>))"

definition RealseObject :: "obj_heap \<Rightarrow> CObjectManager \<Rightarrow> DNID \<Rightarrow> (bool \<times> obj_heap \<times> CObjectManager) result" where
  "RealseObject h m dnid =
     (let ret = (case map_find (m_ObjectMap m) dnid of None \<Rightarrow> None | Some p \<Rightarrow> p)
      in case ret of None \<Rightarrow> Inr (False, h, m)
         | Some a \<Rightarrow> bnd (heap_delete h a) (\<lambda>h'.
             Inr (True, h', m\<lparr>m_ObjectMap := map_put (m_ObjectMap m) dnid None\<rparr>)))"

definition Locate :: "CObjectManager \<Rightarrow> DWORD \<Rightarrow> addr option" where
  "Locate m GID = (case map_find (m_ObjectMap m) GID of None \<Rightarrow> None | Some p \<Rightarrow> p)"

text \<open>
  \<^verbatim>\<open>TraversalObjects\<close>: the callback gets the stored pointer by reference and a parameter, and
  stops the walk by answering 0. It is modelled as a function that returns its answer, the
  pointer it leaves in the table, and the parameter's new value.
\<close>

fun traverse :: "(addr \<Rightarrow> 's \<Rightarrow> bool \<times> addr option \<times> 's) \<Rightarrow> (DNID, addr option) std_map \<Rightarrow> 's \<Rightarrow>
    (DNID, addr option) std_map \<times> 's" where
  "traverse f [] s = ([], s)"
| "traverse f ((k, None) # it) s = (let (it', s') = traverse f it s in ((k, None) # it', s'))"
| "traverse f ((k, Some a) # it) s =
     (case f a s of (go, p, s') \<Rightarrow>
        if go then (let (it', s'') = traverse f it s' in ((k, p) # it', s''))
        else ((k, p) # it, s'))"

definition TraversalObjects :: "(addr \<Rightarrow> 's \<Rightarrow> bool \<times> addr option \<times> 's) \<Rightarrow> 's \<Rightarrow> CObjectManager \<Rightarrow>
    int \<times> 's \<times> CObjectManager" where
  "TraversalObjects f param m =
     (let (om, s) = traverse f (m_ObjectMap m) param
      in (cast_int (int (length om)), s, m\<lparr>m_ObjectMap := om\<rparr>))"

fun clear_loop :: "obj_heap \<Rightarrow> (DNID, addr option) std_map \<Rightarrow> obj_heap result" where
  "clear_loop h [] = Inr h"
| "clear_loop h ((k, None) # it) = clear_loop h it"
| "clear_loop h ((k, Some a) # it) = bnd (heap_delete h a) (\<lambda>h'. clear_loop h' it)"

definition Clear :: "obj_heap \<Rightarrow> CObjectManager \<Rightarrow> (obj_heap \<times> CObjectManager) result" where
  "Clear h m = bnd (clear_loop h (m_ObjectMap m)) (\<lambda>h'. Inr (h', m\<lparr>m_lMaxSize := 0\<rparr>))"

definition Destroy :: "obj_heap \<Rightarrow> CObjectManager \<Rightarrow> (bool \<times> obj_heap \<times> CObjectManager) result" where
  "Destroy h m = bnd (Clear h m) (\<lambda>(h', m'). Inr (True, h', m'))"

definition CObjectManager_dtor :: "obj_heap \<Rightarrow> CObjectManager \<Rightarrow> obj_heap result" where
  "CObjectManager_dtor h m = bnd (Clear h m) (\<lambda>(h', m'). Inr h')"

definition om_size :: "CObjectManager \<Rightarrow> nat" where
  "om_size m = length (m_ObjectMap m)"

text \<open>\<^verbatim>\<open>PetsManager::CreateObject\<close>: a pet for \<open>IID_PETS\<close>, NULL otherwise.\<close>

definition CreateObject :: "obj_heap \<Rightarrow> DWORD \<Rightarrow> addr option \<times> obj_heap" where
  "CreateObject h IID =
     (if IID = IID_PETS then (let (a, h') = heap_new h (PetObj Pet_new) in (Some a, h')) else (None, h))"

section \<open>Invariant: the table owns its objects\<close>

fun ptrs_of :: "(DNID, addr option) std_map \<Rightarrow> addr list" where
  "ptrs_of [] = []"
| "ptrs_of ((k, None) # it) = ptrs_of it"
| "ptrs_of ((k, Some a) # it) = a # ptrs_of it"

definition live_ptrs :: "CObjectManager \<Rightarrow> addr list" where
  "live_ptrs m = ptrs_of (m_ObjectMap m)"

definition om_ok :: "obj_heap \<Rightarrow> CObjectManager \<Rightarrow> bool" where
  "om_ok h m \<longleftrightarrow> map_ok h \<and> map_ok (m_ObjectMap m) \<and> m_RemoveList m = [] \<and>
     distinct (live_ptrs m) \<and> list_all (\<lambda>a. map_find h a \<noteq> None) (live_ptrs m)"

lemma run_collect_eq: "run_collect m rem = rem @ map fst (filter (\<lambda>kv. snd kv = None) m)"
  by (induction m rem rule: run_collect.induct) auto

lemma run_remove_eq:
  "map_ok m \<Longrightarrow> run_remove m rem = filter (\<lambda>kv. fst kv \<notin> set rem) m"
proof (induction rem arbitrary: m)
  case (Cons k rem)
  have step: "(case map_find m k of None \<Rightarrow> m | Some _ \<Rightarrow> map_erase m k) = filter (\<lambda>kv. fst kv \<noteq> k) m"
  proof (rule map_ok_ext)
    show "map_ok (case map_find m k of None \<Rightarrow> m | Some _ \<Rightarrow> map_erase m k)"
      using Cons.prems by (simp split: option.split)
    show "map_ok (filter (\<lambda>kv. fst kv \<noteq> k) m)"
      using Cons.prems by (rule map_ok_filter)
    have "map_find (filter (\<lambda>kv. fst kv \<noteq> k) m) k' = (if k' = k then None else map_find m k')" for k'
      by (induction m) auto
    then show "map_find (case map_find m k of None \<Rightarrow> m | Some _ \<Rightarrow> map_erase m k) k' =
        map_find (filter (\<lambda>kv. fst kv \<noteq> k) m) k'" for k'
      using Cons.prems by (auto split: option.split)
  qed
  show ?case
    using Cons.IH [of "filter (\<lambda>kv. fst kv \<noteq> k) m"] Cons.prems
    by (simp add: step map_ok_filter conj_commute)
qed (simp add: filter_id_conv)

lemma map_ok_unique: "map_ok m \<Longrightarrow> (k, v) \<in> set m \<Longrightarrow> (k, w) \<in> set m \<Longrightarrow> v = w"
  by (simp add: map_find_set_iff)

lemma Run_eq:
  assumes "map_ok (m_ObjectMap m)" "m_RemoveList m = []"
  shows "Run m = (True, m\<lparr>m_ObjectMap := filter (\<lambda>kv. snd kv \<noteq> None) (m_ObjectMap m)\<rparr>)"
proof -
  have "filter (\<lambda>kv. fst kv \<notin> fst ` {kv \<in> set (m_ObjectMap m). snd kv = None}) (m_ObjectMap m) =
      filter (\<lambda>kv. snd kv \<noteq> None) (m_ObjectMap m)"
  proof (rule filter_cong [OF refl])
    fix kv assume kv: "kv \<in> set (m_ObjectMap m)"
    obtain k v where [simp]: "kv = (k, v)" by (cases kv)
    show "(fst kv \<notin> fst ` {kv \<in> set (m_ObjectMap m). snd kv = None}) = (snd kv \<noteq> None)"
    proof (cases v)
      case None
      then show ?thesis using kv by force
    next
      case (Some a)
      have "(k, None) \<notin> set (m_ObjectMap m)"
        using kv Some map_ok_unique [OF assms(1), of k v None] by auto
      then show ?thesis using Some by force
    qed
  qed
  then show ?thesis
    using assms by (simp add: Run_def Let_def run_collect_eq run_remove_eq)
qed

section \<open>What the operations keep\<close>

lemma ptrs_of_mem: "(k, Some a) \<in> set m \<Longrightarrow> a \<in> set (ptrs_of m)"
  by (induction m rule: ptrs_of.induct) auto

lemma ptrs_of_filter [simp]: "ptrs_of (filter (\<lambda>kv. \<exists>a. snd kv = Some a) m) = ptrs_of m"
  by (induction m rule: ptrs_of.induct) auto

lemma ptrs_of_put_None:
  "map_ok m \<Longrightarrow> map_find m k = Some (Some a) \<Longrightarrow> distinct (ptrs_of m) \<Longrightarrow>
    ptrs_of (map_put m k None) = removeAll a (ptrs_of m)"
proof (induction m)
  case (Cons p m)
  obtain k' v where p: "p = (k', v)" by fastforce
  show ?case
  proof (cases "k = k'")
    case True
    then show ?thesis using Cons.prems p by simp
  next
    case False
    then have find: "map_find m k = Some (Some a)" using Cons.prems p by simp
    then have "k' < k" using Cons.prems(1) p map_find_Some_set [OF find] by force
    moreover have "v \<noteq> Some a" using Cons.prems(3) ptrs_of_mem [OF map_find_Some_set [OF find]] p by auto
    ultimately show ?thesis
      using Cons.IH Cons.prems False find p by (cases v) auto
  qed
qed simp

lemma om_ok_find:
  assumes "om_ok h m" "map_find (m_ObjectMap m) k = Some (Some a)"
  shows "\<exists>x. map_find h a = Some x"
proof -
  have "a \<in> set (live_ptrs m)"
    using ptrs_of_mem [OF map_find_Some_set [OF assms(2)]] by (simp add: live_ptrs_def)
  then show ?thesis using assms(1) by (auto simp: om_ok_def list_all_iff)
qed

lemma RealseObject_live:
  assumes "om_ok h m" "map_find (m_ObjectMap m) k = Some (Some a)"
  shows "RealseObject h m k = Inr (True, map_erase h a, m\<lparr>m_ObjectMap := map_put (m_ObjectMap m) k None\<rparr>)"
    and "om_ok (map_erase h a) (m\<lparr>m_ObjectMap := map_put (m_ObjectMap m) k None\<rparr>)"
proof -
  show "RealseObject h m k = Inr (True, map_erase h a, m\<lparr>m_ObjectMap := map_put (m_ObjectMap m) k None\<rparr>)"
    using om_ok_find [OF assms] assms(2) by (auto simp: RealseObject_def Let_def heap_delete_def)
  let ?m = "m\<lparr>m_ObjectMap := map_put (m_ObjectMap m) k None\<rparr>"
  have "live_ptrs ?m = removeAll a (live_ptrs m)"
    using ptrs_of_put_None [of "m_ObjectMap m" k a] assms by (simp add: live_ptrs_def om_ok_def)
  then show "om_ok (map_erase h a) ?m"
    using assms(1) by (auto simp: om_ok_def list_all_iff distinct_removeAll)
qed

lemma RealseObject_absent:
  "map_find (m_ObjectMap m) k = None \<or> map_find (m_ObjectMap m) k = Some None \<Longrightarrow>
    RealseObject h m k = Inr (False, h, m)"
  by (auto simp: RealseObject_def)

lemma Run_ok:
  assumes "om_ok h m"
  shows "om_ok h (snd (Run m))"
proof -
  have "live_ptrs (snd (Run m)) = live_ptrs m"
    using assms by (simp add: om_ok_def Run_eq live_ptrs_def)
  then show ?thesis
    using assms by (simp add: om_ok_def Run_eq map_ok_filter)
qed

lemma map_find_filter_live:
  "map_ok m \<Longrightarrow> map_find (filter (\<lambda>kv. snd kv \<noteq> None) m) k =
    (case map_find m k of Some (Some a) \<Rightarrow> Some (Some a) | _ \<Rightarrow> None)"
proof (induction m)
  case (Cons p m)
  have "map_find m (fst p) = None"
    using Cons.prems by (cases p) (auto simp: map_find_None)
  then show ?case using Cons by (cases p) (auto split: option.splits)
qed simp

text \<open>\<^verbatim>\<open>Clear\<close> frees exactly the live objects.\<close>

lemma clear_loop_ok:
  "map_ok h \<Longrightarrow> distinct (ptrs_of m) \<Longrightarrow> \<forall>a \<in> set (ptrs_of m). map_find h a \<noteq> None \<Longrightarrow>
    \<exists>h'. clear_loop h m = Inr h' \<and> map_ok h' \<and>
      (\<forall>a. map_find h' a = (if a \<in> set (ptrs_of m) then None else map_find h a))"
proof (induction h m rule: clear_loop.induct)
  case (3 h k a it)
  obtain x where x: "map_find h a = Some x" using "3.prems" by auto
  have del: "heap_delete h a = Inr (map_erase h a)" by (simp add: heap_delete_def x)
  have "\<exists>h'. clear_loop (map_erase h a) it = Inr h' \<and> map_ok h' \<and>
      (\<forall>b. map_find h' b = (if b \<in> set (ptrs_of it) then None else map_find (map_erase h a) b))"
    using "3.prems" by (intro "3.IH" [OF del]) (auto simp: List.map_filter_def)
  then show ?case using "3.prems"(1) by (auto simp: del)
qed auto

lemma Clear_ok:
  assumes "om_ok h m"
  shows "\<exists>h'. Clear h m = Inr (h', m\<lparr>m_lMaxSize := 0\<rparr>) \<and> map_ok h' \<and>
    (\<forall>a. map_find h' a = (if a \<in> set (live_ptrs m) then None else map_find h a))"
  using clear_loop_ok [of h "m_ObjectMap m"] assms
  by (fastforce simp: Clear_def om_ok_def live_ptrs_def list_all_iff)

lemma clear_loop_dangling:
  "ptrs_of m \<noteq> [] \<Longrightarrow> map_find h (hd (ptrs_of m)) = None \<Longrightarrow>
    clear_loop h m = Inl DoubleFree"
  by (induction h m rule: clear_loop.induct) (auto simp: heap_delete_def)

lemma Clear_twice:
  assumes "om_ok h m" "live_ptrs m \<noteq> []"
  shows "bnd (Clear h m) (\<lambda>(h', m'). Clear h' m') = Inl DoubleFree"
proof -
  obtain h' where h': "Clear h m = Inr (h', m\<lparr>m_lMaxSize := 0\<rparr>)"
    "\<forall>a. map_find h' a = (if a \<in> set (live_ptrs m) then None else map_find h a)"
    using Clear_ok [OF assms(1)] by blast
  then have "clear_loop h' (m_ObjectMap m) = Inl DoubleFree"
    using assms(2) by (intro clear_loop_dangling) (auto simp: live_ptrs_def)
  then have "Clear h' (m\<lparr>m_lMaxSize := 0\<rparr>) = Inl DoubleFree" by (simp add: Clear_def)
  then show ?thesis by (simp add: h')
qed

section \<open>Traversal and allocation\<close>

lemma traverse_keys: "map fst (fst (traverse f m s)) = map fst m"
  by (induction f m s rule: traverse.induct) (auto simp: Let_def split: prod.splits)

lemma TraversalObjects_size:
  "length (m_ObjectMap m) < 2 ^ 31 \<Longrightarrow> fst (TraversalObjects f s m) = int (om_size m)"
  using arg_cong [OF traverse_keys [of f "m_ObjectMap m" s], of length]
  by (auto simp: TraversalObjects_def om_size_def split: prod.splits)

text \<open>A callback that never stops and never replaces the pointer visits every object in key order.\<close>

lemma traverse_visits:
  "(\<And>a s. f a s = (True, Some a, g a s)) \<Longrightarrow> traverse f m s = (m, fold g (ptrs_of m) s)"
  by (induction f m s rule: traverse.induct) (auto simp: Let_def)

lemma map_ok_last: "map_ok h \<Longrightarrow> p \<in> set h \<Longrightarrow> fst p \<le> fst (last h)"
proof (induction h)
  case (Cons q h)
  obtain k v where q: "q = (k, v)" by fastforce
  show ?case
  proof (cases "h = []")
    case False
    then have "k < fst (last h)" using Cons.prems(1) q last_in_set [OF False] by auto
    then show ?thesis using Cons.IH Cons.prems False q
      by (cases "p = q") (auto simp: less_imp_le)
  qed (use Cons.prems in simp)
qed simp

lemma new_addr_fresh: "map_ok h \<Longrightarrow> map_find h (new_addr h) = None"
  using map_ok_last [of h] by (fastforce simp: map_find_None new_addr_def)

lemma CreateObject_ok:
  assumes "om_ok h m" "CreateObject h IID = (r, h')"
  shows "om_ok h' m" "IID \<noteq> IID_PETS \<Longrightarrow> r = None"
    "IID = IID_PETS \<Longrightarrow> \<exists>a. r = Some a \<and> map_find h a = None \<and> map_find h' a = Some (PetObj Pet_new)"
  using assms new_addr_fresh [of h]
  by (auto simp: CreateObject_def heap_new_def om_ok_def list_all_iff split: if_splits)

lemma DynamicCast_pet:
  assumes "map_find h a = Some (PetObj p)" "obj_IID p = 0"
  shows "DynamicCast h (Some a) IID = Inr (if IID = 0 \<or> IID = IID_PETS then Some a else None)"
  using assms by (simp add: DynamicCast_def VDC_def obj_base_IID_def)

end
