(* ===== verification/Dispatch.thy ===== *)
theory Dispatch
  imports Tcp_Net Objects Transition
begin

text \<open>
  \<^verbatim>\<open>Dispatcher.hpp\<close>/\<^verbatim>\<open>.cpp\<close>: the packet queue between the I/O threads and the logic thread,
  and the dispatch of packets to the callback registered for their message type. A callback
  works on the state \<open>'w\<close> of the modules behind it. \<open>DispatchMsg\<close> gets the readings of the
  system clock it makes (\<open>clock i\<close> is the \<open>i\<close>-th, in nanoseconds) and the packets the I/O
  threads push while it runs (one batch before each look at the queue), and returns, besides
  the counter of the source, the packets it deleted. The accesses of \<^verbatim>\<open>PushPack\<close> and
  \<^verbatim>\<open>GetPack\<close> to the queue as an interleaving of threads are in \<open>Packet_Queue\<close>.
\<close>

section \<open>Data\<close>

record SPacket =
  pack_dnid :: DNID
  pack_buffer :: "BYTE list option"
  pack_context :: "Pet option"

type_synonym 'w DispatcherCallBack = "DNID \<Rightarrow> BYTE list \<Rightarrow> Pet option \<Rightarrow> 'w \<Rightarrow> 'w result"

record 'w Dispatcher =
  m_callBackMap :: "(MESSAGETYPE, 'w DispatcherCallBack option) std_map"
  m_MsgQueue :: "SPacket list"
  m_dispcTimmer :: CELLTimestamp
  m_msgQueueMtx :: MutexLock

definition Dispatcher_new :: "int \<Rightarrow> 'w Dispatcher" where
  "Dispatcher_new now = \<lparr>m_callBackMap = [], m_MsgQueue = [],
     m_dispcTimmer = CELLTimestamp_new now, m_msgQueueMtx = MutexLock_new\<rparr>"

definition InitDispatcher :: "'w Dispatcher \<Rightarrow> 'w Dispatcher" where
  "InitDispatcher d = d"

definition BindCB :: "MESSAGETYPE \<Rightarrow> 'w DispatcherCallBack option \<Rightarrow> 'w Dispatcher \<Rightarrow> 'w Dispatcher" where
  "BindCB type cb d = d\<lparr>m_callBackMap := map_put (m_callBackMap d) type cb\<rparr>"

section \<open>The queue\<close>

text \<open>\<open>t\<close> is the calling thread.\<close>

definition PushPack :: "int \<Rightarrow> SPacket \<Rightarrow> 'w Dispatcher \<Rightarrow> 'w Dispatcher result" where
  "PushPack t pack d =
     (case mutex_lock t (m_msgQueueMtx d) of None \<Rightarrow> Inl Blocked
      | Some m \<Rightarrow>
          (let d1 = d\<lparr>m_msgQueueMtx := m, m_MsgQueue := m_MsgQueue d @ [pack]\<rparr>
           in bnd (mutex_unlock t (m_msgQueueMtx d1)) (\<lambda>m'. Inr (d1\<lparr>m_msgQueueMtx := m'\<rparr>))))"

text \<open>\<open>None\<close> is the answer false; \<^verbatim>\<open>front\<close> and \<^verbatim>\<open>pop\<close> of an empty queue are undefined.\<close>

definition GetPack :: "int \<Rightarrow> 'w Dispatcher \<Rightarrow> (SPacket option \<times> 'w Dispatcher) result" where
  "GetPack t d =
     (if m_MsgQueue d = [] then Inr (None, d)
      else case mutex_lock t (m_msgQueueMtx d) of None \<Rightarrow> Inl Blocked
      | Some m \<Rightarrow>
          (let d1 = d\<lparr>m_msgQueueMtx := m\<rparr>
           in case m_MsgQueue d1 of [] \<Rightarrow> Inl Undefined
              | pack # rest \<Rightarrow>
                  (let d2 = d1\<lparr>m_MsgQueue := rest\<rparr>
                   in bnd (mutex_unlock t (m_msgQueueMtx d2)) (\<lambda>m'.
                        Inr (Some pack, d2\<lparr>m_msgQueueMtx := m'\<rparr>)))))"

text \<open>\<^verbatim>\<open>m_callBackMap[type]\<close>: a missing key is inserted with an empty function.\<close>

definition callback_at :: "MESSAGETYPE \<Rightarrow> 'w Dispatcher \<Rightarrow> 'w DispatcherCallBack option \<times> 'w Dispatcher" where
  "callback_at type d =
     (case map_find (m_callBackMap d) type of
        Some cb \<Rightarrow> (cb, d)
      | None \<Rightarrow> (None, d\<lparr>m_callBackMap := map_put (m_callBackMap d) type None\<rparr>))"

lemma GetPack_shrinks:
  "GetPack t d = Inr (Some pack, d') \<Longrightarrow> length (m_MsgQueue d') < length (m_MsgQueue d)"
  by (auto simp: GetPack_def Let_def bnd_eq_Inr split: if_splits option.splits list.splits)

section \<open>DispatchMsg\<close>

text \<open>The time since the begin of the call, as the unsigned 64-bit difference of the source.\<close>

definition elapsed_ms :: "QWORD \<Rightarrow> int \<Rightarrow> QWORD" where
  "elapsed_ms beginTimeStamp now = word_of_int (getCurrentTimeStampMiliSec now) - beginTimeStamp"

definition arrive :: "SPacket list list \<Rightarrow> 'w Dispatcher \<Rightarrow> 'w Dispatcher" where
  "arrive arr d = d\<lparr>m_MsgQueue := m_MsgQueue d @ concat (take 1 arr)\<rparr>"

record 'w dispatch_result =
  msgCounter :: int
  dr_freed :: "SPacket list"
  dr_disp :: "'w Dispatcher"
  dr_world :: 'w
  dr_clock :: nat
  dr_arr :: "SPacket list list"

function (sequential) dispatch_loop ::
    "int \<Rightarrow> QWORD \<Rightarrow> (nat \<Rightarrow> int) \<Rightarrow> nat \<Rightarrow> SPacket list list \<Rightarrow> 'w Dispatcher \<Rightarrow> 'w \<Rightarrow> int \<Rightarrow> SPacket list \<Rightarrow>
     'w dispatch_result result" where
  "dispatch_loop t beginTS clock i arr d w cnt freed =
     (if elapsed_ms beginTS (clock i) \<le> 1000 then
        bnd (GetPack t (arrive arr d)) (\<lambda>(got, d2).
          case got of
            None \<Rightarrow> Inr \<lparr>msgCounter = cnt, dr_freed = freed, dr_disp = d2, dr_world = w,
                         dr_clock = Suc i, dr_arr = drop 1 arr\<rparr>
          | Some pack \<Rightarrow>
              (case pack_buffer pack of
                 None \<Rightarrow> dispatch_loop t beginTS clock (Suc i) (drop 1 arr) d2 w cnt freed
               | Some pmsg \<Rightarrow>
                   bnd (read_byte pmsg 0) (\<lambda>proto.
                     case callback_at (ucast proto) d2 of (cb, d3) \<Rightarrow>
                       (case cb of
                          None \<Rightarrow> Inl BadFunctionCall
                        | Some f \<Rightarrow>
                            bnd (f (pack_dnid pack) pmsg (pack_context pack) w) (\<lambda>w'.
                              dispatch_loop t beginTS clock (Suc i) (drop 1 arr) d3 w'
                                (cnt + 1) (freed @ [pack]))))))
      else Inr \<lparr>msgCounter = cnt, dr_freed = freed, dr_disp = d, dr_world = w,
                dr_clock = Suc i, dr_arr = arr\<rparr>)"
  by pat_completeness auto

lemma length_concat_take1: "length (concat (take (Suc 0) arr)) + length (concat (drop (Suc 0) arr)) = length (concat arr)"
  by (cases arr) auto

lemma queue_callback_at: "callback_at k d = (cb, d') \<Longrightarrow> m_MsgQueue d' = m_MsgQueue d"
  by (auto simp: callback_at_def split: option.splits)

termination dispatch_loop
proof (relation "measure (\<lambda>(t, b, c, i, arr, d, w, n, f). length (m_MsgQueue d) + length (concat arr))",
    goal_cases)
  case 1
  show ?case by simp
next
  case (2 t beginTS clock i arr d w cnt freed x got d2 pack)
  then show ?case
    using GetPack_shrinks [of t "arrive arr d" pack d2] length_concat_take1 [of arr]
    by (auto simp: arrive_def)
next
  case (3 t beginTS clock i arr d w cnt freed x got d2 pack pmsg proto cb d3 f w')
  then show ?case
    using GetPack_shrinks [of t "arrive arr d" pack d2] length_concat_take1 [of arr]
      queue_callback_at [of "ucast proto" d2 cb d3]
    by (auto simp: arrive_def)
qed

declare dispatch_loop.simps [simp del]

definition DispatchMsg :: "int \<Rightarrow> (nat \<Rightarrow> int) \<Rightarrow> SPacket list list \<Rightarrow> 'w Dispatcher \<Rightarrow> 'w \<Rightarrow>
    'w dispatch_result result" where
  "DispatchMsg t clock arr d w =
     dispatch_loop t (word_of_int (getCurrentTimeStampMiliSec (clock 0))) clock 1 arr d w 0 []"

text \<open>
  One turn of the loop: it ends the loop, skips a packet without a message, or handles a packet.
  The logic thread interleaves with the I/O threads at the granularity of these turns.
\<close>

datatype 'w disp_turn = DtStop "'w Dispatcher" | DtSkip SPacket "'w Dispatcher" | DtHandled SPacket "'w Dispatcher" 'w

definition dispatch_turn :: "int \<Rightarrow> QWORD \<Rightarrow> int \<Rightarrow> 'w Dispatcher \<Rightarrow> 'w \<Rightarrow> 'w disp_turn result" where
  "dispatch_turn t beginTS now d w =
     (if elapsed_ms beginTS now \<le> 1000 then
        bnd (GetPack t d) (\<lambda>(got, d2).
          case got of
            None \<Rightarrow> Inr (DtStop d2)
          | Some pack \<Rightarrow>
              (case pack_buffer pack of
                 None \<Rightarrow> Inr (DtSkip pack d2)
               | Some pmsg \<Rightarrow>
                   bnd (read_byte pmsg 0) (\<lambda>proto.
                     case callback_at (ucast proto) d2 of (cb, d3) \<Rightarrow>
                       (case cb of
                          None \<Rightarrow> Inl BadFunctionCall
                        | Some f \<Rightarrow>
                            bnd (f (pack_dnid pack) pmsg (pack_context pack) w) (\<lambda>w'. Inr (DtHandled pack d3 w'))))))
      else Inr (DtStop d))"

section \<open>Sequential behaviour\<close>

text \<open>Between two operations the lock is free.\<close>

definition lock_free :: "'w Dispatcher \<Rightarrow> bool" where
  "lock_free d \<longleftrightarrow> mutex_ok (m_msgQueueMtx d) \<and> mx_owner (m_msgQueueMtx d) = None"

lemma lock_free_upd [simp]:
  "lock_free (d\<lparr>m_MsgQueue := q\<rparr>) = lock_free d" "lock_free (d\<lparr>m_callBackMap := c\<rparr>) = lock_free d"
  by (simp_all add: lock_free_def)

lemma lock_free_lock:
  assumes "lock_free d"
  obtains m where "mutex_lock t (m_msgQueueMtx d) = Some m" "mutex_unlock t m = Inr (m_msgQueueMtx d)"
  using assms mutex_lock_unlock unfolding lock_free_def
  by (metis mutex_lock_def)

lemma PushPack_ok: "lock_free d \<Longrightarrow> PushPack t pack d = Inr (d\<lparr>m_MsgQueue := m_MsgQueue d @ [pack]\<rparr>)"
  by (erule lock_free_lock [of _ t]) (simp add: PushPack_def)

lemma GetPack_ok:
  assumes "lock_free d"
  shows "GetPack t d = Inr (case m_MsgQueue d of [] \<Rightarrow> (None, d)
    | pack # rest \<Rightarrow> (Some pack, d\<lparr>m_MsgQueue := rest\<rparr>))"
  using assms by (rule lock_free_lock [of _ t]) (auto simp: GetPack_def split: list.splits)

lemma GetPack_queue:
  "GetPack t d = Inr (got, d') \<Longrightarrow> m_MsgQueue d = (case got of None \<Rightarrow> [] | Some p \<Rightarrow> [p]) @ m_MsgQueue d' \<and>
    m_callBackMap d' = m_callBackMap d \<and> (got = None \<longrightarrow> m_MsgQueue d' = [])"
  by (auto simp: GetPack_def Let_def bnd_eq_Inr split: if_splits option.splits list.splits)

section \<open>What a run of the dispatcher does\<close>

text \<open>The effect of one packet, and of a sequence of packets in order, on the modules.\<close>

definition handle_pack :: "(MESSAGETYPE, 'w DispatcherCallBack option) std_map \<Rightarrow> SPacket \<Rightarrow> 'w \<Rightarrow> 'w result" where
  "handle_pack cbs p w =
     (case pack_buffer p of None \<Rightarrow> Inr w
      | Some pmsg \<Rightarrow> bnd (read_byte pmsg 0) (\<lambda>proto.
          case map_find cbs (ucast proto) of
            Some (Some f) \<Rightarrow> f (pack_dnid p) pmsg (pack_context p) w
          | _ \<Rightarrow> Inl BadFunctionCall))"

fun handle_packs :: "(MESSAGETYPE, 'w DispatcherCallBack option) std_map \<Rightarrow> SPacket list \<Rightarrow> 'w \<Rightarrow> 'w result" where
  "handle_packs cbs [] w = Inr w"
| "handle_packs cbs (p # ps) w = bnd (handle_pack cbs p w) (handle_packs cbs ps)"

abbreviation has_buffer :: "SPacket \<Rightarrow> bool" where
  "has_buffer p \<equiv> pack_buffer p \<noteq> None"

definition dispatch_post :: "QWORD \<Rightarrow> (nat \<Rightarrow> int) \<Rightarrow> SPacket list list \<Rightarrow> 'w Dispatcher \<Rightarrow> 'w \<Rightarrow> int \<Rightarrow> SPacket list \<Rightarrow>
    'w dispatch_result \<Rightarrow> SPacket list \<Rightarrow> bool" where
  "dispatch_post beginTS clock arr d w cnt freed r handled \<longleftrightarrow>
     m_MsgQueue d @ concat arr = handled @ m_MsgQueue (dr_disp r) @ concat (dr_arr r) \<and>
     handle_packs (m_callBackMap d) handled w = Inr (dr_world r) \<and>
     dr_freed r = freed @ filter has_buffer handled \<and>
     msgCounter r = cnt + int (length (filter has_buffer handled)) \<and>
     m_callBackMap (dr_disp r) = m_callBackMap d \<and>
     (m_MsgQueue (dr_disp r) = [] \<or> 1000 < elapsed_ms beginTS (clock (dr_clock r - 1)))"

lemma callback_at_case:
  "(case callback_at k d of (cb, d') \<Rightarrow> case cb of None \<Rightarrow> Inl e | Some f \<Rightarrow> g f d') =
   (case map_find (m_callBackMap d) k of Some (Some f) \<Rightarrow> g f d | _ \<Rightarrow> Inl e)"
  by (auto simp: callback_at_def split: option.split)

lemma handle_pack_step:
  "pack_buffer p = Some pmsg \<Longrightarrow>
   bnd (read_byte pmsg 0) (\<lambda>proto. case callback_at (ucast proto) d of (cb, d') \<Rightarrow>
     case cb of None \<Rightarrow> Inl BadFunctionCall
     | Some f \<Rightarrow> bnd (f (pack_dnid p) pmsg (pack_context p) w) (L d')) =
   bnd (handle_pack (m_callBackMap d) p w) (L d)"
  by (cases "read_byte pmsg 0")
    (auto simp: handle_pack_def callback_at_case split: option.split)

lemma arrive_simps [simp]:
  "m_MsgQueue (arrive arr d) @ concat (drop (Suc 0) arr) = m_MsgQueue d @ concat arr"
  "m_callBackMap (arrive arr d) = m_callBackMap d"
  "lock_free (arrive arr d) = lock_free d"
  by (cases arr; simp add: arrive_def)+

lemma dispatch_loop_post:
  "dispatch_loop t beginTS clock i arr d w cnt freed = Inr r \<Longrightarrow>
    \<exists>handled. dispatch_post beginTS clock arr d w cnt freed r handled"
proof (induction t beginTS clock i arr d w cnt freed arbitrary: r rule: dispatch_loop.induct)
  case (1 t beginTS clock i arr d w cnt freed)
  note run = "1.prems" [unfolded dispatch_loop.simps [of t beginTS clock i arr d w cnt freed]]
  show ?case
  proof (cases "elapsed_ms beginTS (clock i) \<le> 1000")
    case False
    then have "dispatch_post beginTS clock arr d w cnt freed r []"
      using run by (auto simp: dispatch_post_def)
    then show ?thesis by blast
  next
    case True
    then obtain got d2 where get: "GetPack t (arrive arr d) = Inr (got, d2)"
      using run by (auto simp: bnd_eq_Inr)
    note q = GetPack_queue [OF get]
    show ?thesis
    proof (cases got)
      case None
      then have "r = \<lparr>msgCounter = cnt, dr_freed = freed, dr_disp = d2, dr_world = w,
          dr_clock = Suc i, dr_arr = drop 1 arr\<rparr>"
        using run True get by simp
      then have "dispatch_post beginTS clock arr d w cnt freed r []"
        using q None arrive_simps(1) [of arr d] by (simp add: dispatch_post_def)
      then show ?thesis by blast
    next
      case (Some p)
      note hist = arrive_simps(1) [of arr d]
      show ?thesis
      proof (cases "pack_buffer p")
        case None
        then have "dispatch_loop t beginTS clock (Suc i) (drop 1 arr) d2 w cnt freed = Inr r"
          using run True get Some by simp
        then obtain h where "dispatch_post beginTS clock (drop 1 arr) d2 w cnt freed r h"
          using "1.IH"(1) [OF True get refl Some None] by blast
        then have "dispatch_post beginTS clock arr d w cnt freed r (p # h)"
          using q hist Some None by (auto simp: dispatch_post_def handle_pack_def)
        then show ?thesis by blast
      next
        case (Some pmsg)
        note buf = Some and got = \<open>got = Some p\<close>
        obtain proto where rb: "read_byte pmsg 0 = Inr proto"
          using run True get buf got by (auto simp: bnd_eq_Inr)
        obtain f where mf: "map_find (m_callBackMap d2) (ucast proto) = Some (Some f)"
          using run True get buf got rb
          by (cases "map_find (m_callBackMap d2) (ucast proto)";
              cases "the (map_find (m_callBackMap d2) (ucast proto))") (auto simp: callback_at_case)
        obtain w' where st: "f (pack_dnid p) pmsg (pack_context p) w = Inr w'"
          "dispatch_loop t beginTS clock (Suc i) (drop 1 arr) d2 w' (cnt + 1) (freed @ [p]) = Inr r"
          using run True get buf got rb mf by (auto simp: bnd_eq_Inr callback_at_case)
        have at: "callback_at (ucast proto) d2 = (Some f, d2)" by (simp add: callback_at_def mf)
        obtain h where "dispatch_post beginTS clock (drop 1 arr) d2 w' (cnt + 1) (freed @ [p]) r h"
          using "1.IH"(2) [OF True get refl got buf rb at [symmetric] refl st] by blast
        then have "dispatch_post beginTS clock arr d w cnt freed r (p # h)"
          using q hist got buf rb mf st by (auto simp: dispatch_post_def handle_pack_def)
        then show ?thesis by blast
      qed
    qed
  qed
qed

text \<open>The loop is the repetition of its turns.\<close>

lemma dispatch_loop_turn:
  "dispatch_loop t beginTS clock i [] d w cnt freed =
     bnd (dispatch_turn t beginTS (clock i) d w) (\<lambda>r. case r of
        DtStop d' \<Rightarrow> Inr \<lparr>msgCounter = cnt, dr_freed = freed, dr_disp = d', dr_world = w, dr_clock = Suc i, dr_arr = []\<rparr>
      | DtSkip p d' \<Rightarrow> dispatch_loop t beginTS clock (Suc i) [] d' w cnt freed
      | DtHandled p d' w' \<Rightarrow> dispatch_loop t beginTS clock (Suc i) [] d' w' (cnt + 1) (freed @ [p]))"
  by (subst dispatch_loop.simps)
    (auto simp: dispatch_turn_def arrive_def bnd_def split: sum.splits option.splits prod.splits)

lemma dispatch_turn_ok:
  assumes "lock_free d" "dispatch_turn t beginTS now d w = Inr r"
  shows "(\<exists>d'. r = DtStop d' \<and> d' = d) \<or>
    (\<exists>p ps. m_MsgQueue d = p # ps \<and>
      (r = DtSkip p (d\<lparr>m_MsgQueue := ps\<rparr>) \<and> handle_pack (m_callBackMap d) p w = Inr w \<or>
       (\<exists>w'. r = DtHandled p (d\<lparr>m_MsgQueue := ps\<rparr>) w' \<and> handle_pack (m_callBackMap d) p w = Inr w')))"
proof (cases "m_MsgQueue d")
  case Nil
  then show ?thesis using assms by (simp add: dispatch_turn_def GetPack_ok split: if_splits)
next
  case (Cons p ps)
  note get = GetPack_ok [OF assms(1), of t]
  show ?thesis
  proof (cases "pack_buffer p")
    case None
    then show ?thesis using assms(2) Cons get by (auto simp: dispatch_turn_def handle_pack_def split: if_splits)
  next
    case (Some pmsg)
    then show ?thesis
      using assms(2) Cons get
        handle_pack_step [OF Some, where d = "d\<lparr>m_MsgQueue := ps\<rparr>" and w = w and L = "\<lambda>d w. Inr (DtHandled p d w)"]
      by (auto simp: dispatch_turn_def bnd_eq_Inr split: if_splits)
  qed
qed

text \<open>
  Conversely, while the clock stays within the second the run handles every packet that is
  queued or arrives: it ends as the sequence of handlers ends.
\<close>

lemma dispatch_loop_all:
  assumes "\<And>i. elapsed_ms beginTS (clock i) \<le> 1000" "lock_free d"
  shows "case handle_packs (m_callBackMap d) (m_MsgQueue d) w of
      Inl e \<Rightarrow> dispatch_loop t beginTS clock i [] d w cnt freed = Inl e
    | Inr w' \<Rightarrow> \<exists>r. dispatch_loop t beginTS clock i [] d w cnt freed = Inr r \<and>
        m_MsgQueue (dr_disp r) = [] \<and> dr_world r = w' \<and>
        dr_freed r = freed @ filter has_buffer (m_MsgQueue d) \<and>
        msgCounter r = cnt + int (length (filter has_buffer (m_MsgQueue d)))"
  using assms(2)
proof (induction "m_MsgQueue d" arbitrary: d w i cnt freed)
  case Nil
  then show ?case
    using assms(1) by (subst dispatch_loop.simps) (simp add: GetPack_ok arrive_def)
next
  case (Cons p ps)
  let ?d = "d\<lparr>m_MsgQueue := ps\<rparr>"
  have get: "GetPack t (arrive [] d) = Inr (Some p, ?d)"
    using Cons.prems Cons.hyps(2) by (simp add: GetPack_ok arrive_def flip: Cons.hyps(2))
  have q: "m_MsgQueue d = p # ps" using Cons.hyps(2) by simp
  note IH = Cons.hyps(1) [of ?d, simplified, OF Cons.prems]
  note run = dispatch_loop.simps [of t beginTS clock i "[]" d w cnt freed]
  show ?case
  proof (cases "pack_buffer p")
    case None
    then have "dispatch_loop t beginTS clock i [] d w cnt freed =
        dispatch_loop t beginTS clock (Suc i) [] ?d w cnt freed"
      using assms(1) [of i] get by (simp add: run)
    then show ?thesis
      using IH [of "Suc i" w cnt freed] None
      by (cases "handle_packs (m_callBackMap d) ps w") (simp_all add: q handle_pack_def)
  next
    case (Some pmsg)
    show ?thesis
    proof (cases "handle_pack (m_callBackMap d) p w")
      case (Inl e)
      then have "dispatch_loop t beginTS clock i [] d w cnt freed = Inl e"
        using assms(1) [of i] get by (simp add: run Some handle_pack_step [OF Some])
      then show ?thesis using Inl by (simp add: q)
    next
      case (Inr w')
      then have "dispatch_loop t beginTS clock i [] d w cnt freed =
          dispatch_loop t beginTS clock (Suc i) [] ?d w' (cnt + 1) (freed @ [p])"
        using assms(1) [of i] get by (simp add: run Some handle_pack_step [OF Some])
      then show ?thesis
        using IH [of "Suc i" w' "cnt + 1" "freed @ [p]"] Some Inr
        by (cases "handle_packs (m_callBackMap d) ps w'") (simp_all add: q algebra_simps)
    qed
  qed
qed

end
