(* ===== verification/Sql_Query.thy ===== *)
theory Sql_Query
  imports C_Strings Sync
begin

text \<open>
  \<^verbatim>\<open>MySqlModule/MysqlQuery.hpp\<close>/\<^verbatim>\<open>.cpp\<close> and \<^verbatim>\<open>SQLDefine.hpp\<close>: the error buffer, statement
  binding, query results and the calls that run a statement. The MySQL client library is not
  part of the sources: its functions are the fields of the record \<open>mysql_lib\<close>, over a state
  \<open>'db\<close> of the connection; handles are numbers, a null handle is \<open>None\<close>. Bound parameters
  point into a memory of byte blocks, which fetching a row writes.
\<close>

section \<open>SQLDefine.hpp\<close>

definition ERROR_MESSAGE_BUFFER_MAX_LENGTH :: nat where "ERROR_MESSAGE_BUFFER_MAX_LENGTH = 1024"

datatype MYSQL_FETCH_TYPE = SQL_COMMON | SQL_STMT

datatype SQL_PACK_TYPE = SQL_COMMON_TYPE | SQL_STMT_TYPE | SQL_PROCEDURE_TYPE

definition DB_USERNAME :: string where "DB_USERNAME = ''XXX''"
definition DB_PASSWORD :: string where "DB_PASSWORD = ''XXX''"
definition DB_IPADDRESS :: string where "DB_IPADDRESS = ''XXX''"
definition DB_IPPORT :: int where "DB_IPPORT = 3306"
definition DB_DBNAME :: string where "DB_DBNAME = ''XXX''"

definition SELECT_PETSLOGIN_STMT :: string where
  "SELECT_PETSLOGIN_STMT = ''select StaticID from Pets where Account=? and Password=?''"

section \<open>Binding of statement parameters\<close>

type_synonym mem_addr = nat
type_synonym mem = "mem_addr \<Rightarrow> BYTE list"

text \<open>The field types the sources use, and the one that is 0; \<open>FieldErr\<close> is the value -1.\<close>

datatype enum_field_types = MYSQL_TYPE_DECIMAL | MYSQL_TYPE_TINY | MYSQL_TYPE_LONG | MYSQL_TYPE_LONGLONG | MYSQL_TYPE_FLOAT
  | MYSQL_TYPE_DOUBLE | MYSQL_TYPE_STRING | MYSQL_TYPE_BLOB | FieldErr

record MYSQL_BIND =
  buffer_type :: enum_field_types
  bind_buffer :: mem_addr
  buffer_length :: nat
  is_null_ptr :: "nat option"
  length_ptr :: "nat option"

text \<open>
  \<^verbatim>\<open>QueryBind\<close> owns three arrays of \<open>m_paramNumbers\<close> elements; \<^verbatim>\<open>new[]\<close> does not
  initialise them, so their first contents are an argument. A \<^verbatim>\<open>MySTMTBind\<close> is a view of the
  elements with one index; its length pointer is that index.
\<close>

record QueryBind =
  m_binds :: "MYSQL_BIND list"
  m_paramNumbers :: BYTE
  m_lens :: "nat list"
  m_nulls :: "bool list"

definition QueryBind_new :: "MYSQL_BIND \<Rightarrow> nat \<Rightarrow> bool \<Rightarrow> BYTE \<Rightarrow> QueryBind" where
  "QueryBind_new junkb junkl junkn paramNumbers =
     \<lparr>m_binds = replicate (unat paramNumbers) junkb, m_paramNumbers = paramNumbers,
      m_lens = replicate (unat paramNumbers) junkl, m_nulls = replicate (unat paramNumbers) junkn\<rparr>"

text \<open>\<open>operator []\<close> is unchecked: an index outside the arrays is out of bounds.\<close>

definition bind_index :: "QueryBind \<Rightarrow> nat \<Rightarrow> unit result" where
  "bind_index b i = (if i < length (m_binds b) then Inr () else Inl OutOfBounds)"

definition bind_param :: "enum_field_types \<Rightarrow> mem_addr \<Rightarrow> DWORD \<Rightarrow> nat option \<Rightarrow> QueryBind \<Rightarrow> nat \<Rightarrow> QueryBind result" where
  "bind_param ftype buf len is_null b i =
     bnd (bind_index b i) (\<lambda>_.
       Inr (b\<lparr>m_lens := (m_lens b)[i := unat len],
              m_binds := (m_binds b)[i := \<lparr>buffer_type = ftype, bind_buffer = buf,
                buffer_length = unat len, is_null_ptr = is_null, length_ptr = Some i\<rparr>]\<rparr>))"

definition BindBlob :: "mem_addr \<Rightarrow> nat \<Rightarrow> QueryBind \<Rightarrow> nat \<Rightarrow> QueryBind result" where
  "BindBlob data sz b i = bind_param MYSQL_TYPE_BLOB data (word_of_nat sz) None b i"

definition BindString :: "mem_addr \<Rightarrow> nat \<Rightarrow> QueryBind \<Rightarrow> nat \<Rightarrow> QueryBind result" where
  "BindString data sz b i = bind_param MYSQL_TYPE_STRING data (word_of_nat sz) None b i"

definition BindLong :: "mem_addr \<Rightarrow> QueryBind \<Rightarrow> nat \<Rightarrow> QueryBind result" where
  "BindLong data b i = bind_param MYSQL_TYPE_LONG data 0 None b i"

definition BindULong :: "mem_addr \<Rightarrow> QueryBind \<Rightarrow> nat \<Rightarrow> QueryBind result" where
  "BindULong data b i = bind_param MYSQL_TYPE_LONG data 0 None b i"

definition BindLongLong :: "mem_addr \<Rightarrow> QueryBind \<Rightarrow> nat \<Rightarrow> QueryBind result" where
  "BindLongLong data b i = bind_param MYSQL_TYPE_LONGLONG data 0 None b i"

definition BindULongLong :: "mem_addr \<Rightarrow> QueryBind \<Rightarrow> nat \<Rightarrow> QueryBind result" where
  "BindULongLong data b i = bind_param MYSQL_TYPE_LONGLONG data 0 None b i"

definition BindUTiny :: "mem_addr \<Rightarrow> QueryBind \<Rightarrow> nat \<Rightarrow> QueryBind result" where
  "BindUTiny data b i = bind_param MYSQL_TYPE_TINY data 0 None b i"

definition IsNull :: "QueryBind \<Rightarrow> nat \<Rightarrow> bool result" where
  "IsNull b i = bnd (bind_index b i) (\<lambda>_. Inr (m_nulls b ! i))"

definition bind_Length :: "QueryBind \<Rightarrow> nat \<Rightarrow> nat result" where
  "bind_Length b i = bnd (bind_index b i) (\<lambda>_. Inr (m_lens b ! i))"

definition GetBind :: "QueryBind \<Rightarrow> MYSQL_BIND list" where
  "GetBind b = m_binds b"

definition GetParamNumCounter :: "QueryBind \<Rightarrow> BYTE" where
  "GetParamNumCounter b = m_paramNumbers b"

record Arguments =
  m_bindnum :: nat
  m_pbinds :: "MYSQL_BIND list"

definition Arguments_default :: Arguments where
  "Arguments_default = \<lparr>m_bindnum = 0, m_pbinds = []\<rparr>"

definition to_Arguments :: "QueryBind \<Rightarrow> Arguments" where
  "to_Arguments b = \<lparr>m_bindnum = unat (m_paramNumbers b), m_pbinds = m_binds b\<rparr>"

definition bind_ok :: "QueryBind \<Rightarrow> bool" where
  "bind_ok b \<longleftrightarrow> length (m_binds b) = unat (m_paramNumbers b) \<and> length (m_lens b) = unat (m_paramNumbers b) \<and>
     length (m_nulls b) = unat (m_paramNumbers b)"

section \<open>The client library\<close>

record 'db mysql_lib =
  mysql_init :: "'db \<Rightarrow> nat option \<times> 'db"
  mysql_real_connect :: "nat \<Rightarrow> string \<Rightarrow> string \<Rightarrow> string \<Rightarrow> string \<Rightarrow> int \<Rightarrow> 'db \<Rightarrow> bool \<times> 'db"
  mysql_error :: "nat \<Rightarrow> 'db \<Rightarrow> string"
  mysql_close :: "nat \<Rightarrow> 'db \<Rightarrow> 'db"
  mysql_real_query :: "nat \<Rightarrow> string \<Rightarrow> 'db \<Rightarrow> int \<times> 'db"
  mysql_store_result :: "nat \<Rightarrow> 'db \<Rightarrow> nat option \<times> 'db"
  mysql_affected_rows :: "nat \<Rightarrow> 'db \<Rightarrow> QWORD"
  mysql_num_rows :: "nat \<Rightarrow> 'db \<Rightarrow> QWORD"
  mysql_num_fields :: "nat \<Rightarrow> 'db \<Rightarrow> DWORD"
  mysql_fetch_row :: "nat \<Rightarrow> 'db \<Rightarrow> string option list option \<times> 'db"
  mysql_fetch_lengths :: "nat \<Rightarrow> 'db \<Rightarrow> nat list option"
  mysql_free_result :: "nat \<Rightarrow> 'db \<Rightarrow> 'db result"
  mysql_stmt_init :: "nat \<Rightarrow> 'db \<Rightarrow> nat option \<times> 'db"
  mysql_stmt_error :: "nat \<Rightarrow> 'db \<Rightarrow> string"
  mysql_stmt_close :: "nat \<Rightarrow> 'db \<Rightarrow> 'db"
  mysql_stmt_prepare :: "nat \<Rightarrow> string \<Rightarrow> 'db \<Rightarrow> int \<times> 'db"
  mysql_stmt_bind_param :: "nat \<Rightarrow> MYSQL_BIND list \<Rightarrow> 'db \<Rightarrow> int \<times> 'db"
  mysql_stmt_execute :: "nat \<Rightarrow> 'db \<Rightarrow> int \<times> 'db"
  mysql_stmt_store_result :: "nat \<Rightarrow> 'db \<Rightarrow> int \<times> 'db"
  mysql_stmt_result_metadata :: "nat \<Rightarrow> 'db \<Rightarrow> nat option \<times> 'db"
  mysql_stmt_affected_rows :: "nat \<Rightarrow> 'db \<Rightarrow> QWORD"
  mysql_stmt_free_result :: "nat \<Rightarrow> 'db \<Rightarrow> 'db"
  mysql_stmt_bind_result :: "nat \<Rightarrow> MYSQL_BIND list \<Rightarrow> 'db \<Rightarrow> int \<times> 'db"
  mysql_stmt_fetch :: "nat \<Rightarrow> 'db \<Rightarrow> mem \<Rightarrow> int \<times> 'db \<times> mem"

section \<open>Query results\<close>

record QueryResult =
  qr_stmt :: "nat option"
  qr_res :: "nat option"
  qr_binds :: "MYSQL_BIND list option"
  qr_sql :: "string option"
  nrow :: QWORD
  num_rows :: QWORD
  num_fields :: DWORD
  qr_lens :: "nat list option"
  qr_rows :: "string option list option"

definition QueryResult_new :: QueryResult where
  "QueryResult_new = \<lparr>qr_stmt = None, qr_res = None, qr_binds = None, qr_sql = None, nrow = 0,
     num_rows = 0, num_fields = 0, qr_lens = None, qr_rows = None\<rparr>"

definition qr_Release :: "'db mysql_lib \<Rightarrow> QueryResult \<Rightarrow> 'db \<Rightarrow> 'db result" where
  "qr_Release L qr db =
     bnd (case qr_res qr of None \<Rightarrow> Inr db | Some r \<Rightarrow> mysql_free_result L r db) (\<lambda>db1.
       Inr (case qr_stmt qr of None \<Rightarrow> db1 | Some st \<Rightarrow> mysql_stmt_free_result L st db1))"

definition qr_Reset :: "'db mysql_lib \<Rightarrow> QueryResult \<Rightarrow> 'db \<Rightarrow> (QueryResult \<times> 'db) result" where
  "qr_Reset L qr db = bnd (qr_Release L qr db) (\<lambda>db1. Inr (QueryResult_new, db1))"

definition AffectedRows :: "QueryResult \<Rightarrow> int" where
  "AffectedRows qr = cast_int (uint (nrow qr))"

definition FetchResult_bind :: "'db mysql_lib \<Rightarrow> QueryBind \<Rightarrow> QueryResult \<Rightarrow> 'db \<Rightarrow> mem \<Rightarrow> (int \<times> 'db \<times> mem) result" where
  "FetchResult_bind L bind qr db mm =
     (if (ucast (GetParamNumCounter bind) :: DWORD) \<noteq> num_fields qr then Inr (1, db, mm)
      else case qr_stmt qr of None \<Rightarrow> Inl NullDeref
      | Some st \<Rightarrow>
          (case mysql_stmt_bind_result L st (GetBind bind) db of (result, db1) \<Rightarrow>
             if result \<noteq> 0 then Inr (result, db1, mm)
             else Inr (mysql_stmt_fetch L st db1 mm)))"

definition FetchResult :: "'db mysql_lib \<Rightarrow> QueryResult \<Rightarrow> 'db \<Rightarrow> int \<times> QueryResult \<times> 'db" where
  "FetchResult L qr db =
     (case qr_res qr of None \<Rightarrow> (1, qr, db)
      | Some r \<Rightarrow>
          if num_rows qr = 0 \<or> num_fields qr = 0 then (1, qr, db)
          else case mysql_fetch_row L r db of (rows, db1) \<Rightarrow>
            (let lens = mysql_fetch_lengths L r db1;
                 qr1 = qr\<lparr>qr_rows := rows, qr_lens := lens\<rparr>
             in (if rows \<noteq> None \<and> lens \<noteq> None then 0 else 1, qr1, db1)))"

section \<open>MyQuery: state, initialisation\<close>

record DBInfo =
  m_user :: string
  m_password :: string
  m_dbname :: string
  m_host :: string
  m_port :: int

definition DBInfo_new :: DBInfo where
  "DBInfo_new = \<lparr>m_user = [], m_password = [], m_dbname = [], m_host = [], m_port = 0\<rparr>"

record MyQuery =
  m_pMysql :: "nat option"
  m_pMysqlStmt :: "nat option"
  m_ErrInfo :: string
  m_dbInfo :: DBInfo
  sql_exitFlag :: bool

definition MyQuery_new :: MyQuery where
  "MyQuery_new = \<lparr>m_pMysql = None, m_pMysqlStmt = None, m_ErrInfo = [], m_dbInfo = DBInfo_new,
     sql_exitFlag = False\<rparr>"

definition MyQuery_dtor :: "'db mysql_lib \<Rightarrow> MyQuery \<Rightarrow> 'db \<Rightarrow> MyQuery \<times> 'db" where
  "MyQuery_dtor L q db =
     (let db1 = (case m_pMysqlStmt q of None \<Rightarrow> db | Some st \<Rightarrow> mysql_stmt_close L st db);
          db2 = (case m_pMysql q of None \<Rightarrow> db1 | Some h \<Rightarrow> mysql_close L h db1)
      in (q\<lparr>m_pMysqlStmt := None, m_pMysql := None\<rparr>, db2))"

text \<open>\<^verbatim>\<open>vsprintf\<close> into an array of 1024 characters: the text with its terminator must fit.\<close>

definition LogMsg :: "string \<Rightarrow> MyQuery \<Rightarrow> MyQuery result" where
  "LogMsg text q =
     (if length text < ERROR_MESSAGE_BUFFER_MAX_LENGTH then Inr (q\<lparr>m_ErrInfo := text\<rparr>)
      else Inl BufferOverflow)"

definition SetInfo :: "string \<Rightarrow> string \<Rightarrow> string \<Rightarrow> string \<Rightarrow> int \<Rightarrow> DBInfo \<Rightarrow> DBInfo" where
  "SetInfo UserName PassWord DBIP DBName dwPort i =
     i\<lparr>m_user := UserName, m_password := PassWord, m_dbname := DBName, m_host := DBIP,
       m_port := cast_int dwPort\<rparr>"

definition GetDBName :: "MyQuery \<Rightarrow> string" where
  "GetDBName q = m_dbname (m_dbInfo q)"

definition Connect :: "'db mysql_lib \<Rightarrow> string \<Rightarrow> string \<Rightarrow> string \<Rightarrow> string \<Rightarrow> int \<Rightarrow> MyQuery \<Rightarrow> 'db \<Rightarrow>
    (bool \<times> MyQuery \<times> 'db) result" where
  "Connect L UserName PassWord DBIP DBName dwPort q db =
     (case m_pMysql q of None \<Rightarrow> Inl NullDeref
      | Some h \<Rightarrow>
          (case mysql_real_connect L h DBIP UserName PassWord DBName dwPort db of (ok, db1) \<Rightarrow>
             if \<not> ok then
               bnd (LogMsg (''mysql_real_connect Error ['' @ mysql_error L h db1 @ '']'') q) (\<lambda>q1.
                 Inr (False, q1, db1))
             else Inr (True, q, db1)))"

text \<open>The call of \<open>Connect\<close> leaves the port at its default, 3306.\<close>

definition Init :: "'db mysql_lib \<Rightarrow> string \<Rightarrow> string \<Rightarrow> string \<Rightarrow> string \<Rightarrow> int \<Rightarrow> MyQuery \<Rightarrow> 'db \<Rightarrow>
    (bool \<times> MyQuery \<times> 'db) result" where
  "Init L UserName PassWord DBIP DBName dwPort q db =
     (case mysql_init L db of (h, db1) \<Rightarrow>
        (let q1 = q\<lparr>m_pMysql := h\<rparr>
         in case h of
              None \<Rightarrow> bnd (LogMsg ''init mysql Error'' q1) (\<lambda>q2. Inr (False, q2, db1))
            | Some hnd \<Rightarrow>
                bnd (Connect L UserName PassWord DBIP DBName 3306 q1 db1) (\<lambda>(ok, q2, db2).
                  if \<not> ok then Inr (False, q2, db2)
                  else case mysql_stmt_init L hnd db2 of (st, db3) \<Rightarrow>
                    (let q3 = q2\<lparr>m_pMysqlStmt := st\<rparr>
                     in case st of
                          None \<Rightarrow> bnd (LogMsg ''init_mysql_stmt Error'' q3) (\<lambda>q4. Inr (False, q4, db3))
                        | Some _ \<Rightarrow>
                            Inr (True, q3\<lparr>m_dbInfo := SetInfo UserName PassWord DBIP DBName dwPort (m_dbInfo q3)\<rparr>,
                              db3)))))"

section \<open>Running a statement\<close>

definition stmt_msg :: "string \<Rightarrow> string \<Rightarrow> string \<Rightarrow> string" where
  "stmt_msg what reason sql = what @ reason @ '' --- sql:'' @ sql @ '']''"

text \<open>
  \<^verbatim>\<open>%S\<close> in the messages of the last two steps reads the reason as wide characters, which it
  is not: undefined.
\<close>

definition ExecuteStmt :: "'db mysql_lib \<Rightarrow> string option \<Rightarrow> QueryResult \<Rightarrow> Arguments \<Rightarrow> MyQuery \<Rightarrow> 'db \<Rightarrow>
    (int \<times> QueryResult \<times> MyQuery \<times> 'db) result" where
  "ExecuteStmt L sql qr args q db =
     (case (sql, m_pMysqlStmt q) of
        (Some s, Some st) \<Rightarrow>
          (case mysql_stmt_prepare L st s db of (result, db1) \<Rightarrow>
             if result \<noteq> 0 then
               bnd (LogMsg (stmt_msg ''Execute mysql_stmt_prepare is Error [ reason:'' (mysql_stmt_error L st db1) s) q)
                 (\<lambda>q1. Inr (result, qr, q1, db1))
             else
               (case (if m_bindnum args \<noteq> 0 then mysql_stmt_bind_param L st (m_pbinds args) db1 else (0, db1)) of
                  (result, db2) \<Rightarrow>
                  if result \<noteq> 0 then
                    bnd (LogMsg (stmt_msg ''Execute mysql_stmt_bind_param is Error [reason:'' (mysql_stmt_error L st db2) s) q)
                      (\<lambda>q1. Inr (result, qr, q1, db2))
                  else
                    (case mysql_stmt_execute L st db2 of (result, db3) \<Rightarrow>
                       if result \<noteq> 0 then Inl Undefined
                       else
                         (case mysql_stmt_store_result L st db3 of (result, db4) \<Rightarrow>
                            if result \<noteq> 0 then Inl Undefined
                            else
                              (case mysql_stmt_result_metadata L st db4 of (res, db5) \<Rightarrow>
                                 (let qr1 = qr\<lparr>qr_sql := Some s, qr_stmt := Some st, qr_res := res,
                                              nrow := mysql_stmt_affected_rows L st db5\<rparr>;
                                      qr2 = (case res of None \<Rightarrow> qr1
                                             | Some r \<Rightarrow> qr1\<lparr>num_rows := mysql_num_rows L r db5,
                                                              num_fields := mysql_num_fields L r db5\<rparr>)
                                  in Inr (0, qr2, q, db5)))))))
      | _ \<Rightarrow> bnd (LogMsg ''sql or Mysql_STMT is NULL'' q) (\<lambda>q1. Inr (-1, qr, q1, db)))"

text \<open>\<open>qr\<close> is \<open>None\<close> where the source passes NULL; the result set is then freed at once.\<close>

definition ExecuteSQL :: "'db mysql_lib \<Rightarrow> string option \<Rightarrow> QueryResult option \<Rightarrow> MyQuery \<Rightarrow> 'db \<Rightarrow>
    (int \<times> QueryResult option \<times> MyQuery \<times> 'db) result" where
  "ExecuteSQL L sql qr q db =
     (case (sql, m_pMysql q) of
        (Some s, Some h) \<Rightarrow>
          (case mysql_real_query L h s db of (result, db1) \<Rightarrow>
             if result \<noteq> 0 then
               bnd (LogMsg (stmt_msg ''Execute mysql_real_query is Error [reason:'' (mysql_error L h db1) s) q)
                 (\<lambda>q1. Inr (result, qr, q1, db1))
             else
               (case mysql_store_result L h db1 of (tempSQL_RES, db2) \<Rightarrow>
                  (case qr of
                     Some r0 \<Rightarrow>
                       (let r1 = r0\<lparr>qr_sql := Some s, qr_res := tempSQL_RES, nrow := mysql_affected_rows L h db2\<rparr>;
                            r2 = (case tempSQL_RES of None \<Rightarrow> r1
                                  | Some r \<Rightarrow> r1\<lparr>num_rows := mysql_num_rows L r db2,
                                                   num_fields := mysql_num_fields L r db2\<rparr>)
                        in Inr (0, Some r2, q, db2))
                   | None \<Rightarrow>
                       bnd (case tempSQL_RES of None \<Rightarrow> Inr db2 | Some r \<Rightarrow> mysql_free_result L r db2)
                         (\<lambda>db3. Inr (0, None, q, db3)))))
      | _ \<Rightarrow> bnd (LogMsg ''sql or MySQL is NULL!!!'' q) (\<lambda>q1. Inr (-1, qr, q1, db)))"

definition ExecuteSQLEx :: "'db mysql_lib \<Rightarrow> string option \<Rightarrow> QueryResult \<Rightarrow> MyQuery \<Rightarrow> 'db \<Rightarrow>
    (int \<times> QueryResult \<times> MyQuery \<times> 'db) result" where
  "ExecuteSQLEx L sql qr q db =
     (case (sql, m_pMysql q) of
        (Some s, Some h) \<Rightarrow>
          (case mysql_real_query L h s db of (result, db1) \<Rightarrow>
             if result \<noteq> 0 then
               bnd (LogMsg (stmt_msg ''Execute mysql_real_query is Error [reason:'' (mysql_error L h db1) s) q)
                 (\<lambda>q1. Inr (result, qr, q1, db1))
             else Inr (0, qr, q, db1))
      | _ \<Rightarrow> bnd (LogMsg ''sql or MySQL is NULL!!!'' q) (\<lambda>q1. Inr (-1, qr, q1, db)))"

section \<open>Facts about binding\<close>

lemma QueryBind_new_ok: "bind_ok (QueryBind_new jb jl jn n)"
  by (simp add: bind_ok_def QueryBind_new_def)

lemma bind_param_ok:
  assumes "bind_ok b" "i < unat (m_paramNumbers b)"
  shows "\<exists>b'. bind_param ty p len nul b i = Inr b' \<and> bind_ok b' \<and> m_paramNumbers b' = m_paramNumbers b \<and>
    m_nulls b' = m_nulls b \<and>
    m_binds b' ! i = \<lparr>buffer_type = ty, bind_buffer = p, buffer_length = unat len, is_null_ptr = nul,
      length_ptr = Some i\<rparr> \<and> m_lens b' ! i = unat len \<and>
    (\<forall>j. j \<noteq> i \<longrightarrow> m_binds b' ! j = m_binds b ! j \<and> m_lens b' ! j = m_lens b ! j)"
  using assms by (auto simp: bind_param_def bind_index_def bind_ok_def)

lemma bind_param_oob: "bind_ok b \<Longrightarrow> unat (m_paramNumbers b) \<le> i \<Longrightarrow> bind_param ty p len nul b i = Inl OutOfBounds"
  by (simp add: bind_param_def bind_index_def bind_ok_def)

text \<open>No member of the class ever writes a null flag, so \<^verbatim>\<open>IsNull\<close> reads what \<^verbatim>\<open>new[]\<close> left there.\<close>

lemma IsNull_uninitialised:
  assumes "i < unat n" "bind_param ty p len nul (QueryBind_new jb jl jn n) i = Inr b'"
  shows "IsNull b' i = Inr jn"
  using assms by (auto simp: bind_param_def bind_index_def QueryBind_new_def IsNull_def)

section \<open>Facts about results\<close>

lemma FetchResult_cases:
  assumes "FetchResult L qr db = (code, qr', db')"
  shows "code = 0 \<or> code = 1"
    "code = 0 \<Longrightarrow> qr_res qr \<noteq> None \<and> num_rows qr \<noteq> 0 \<and> qr_rows qr' \<noteq> None \<and> qr_lens qr' \<noteq> None"
    "qr_res qr' = qr_res qr"
  using assms by (auto simp: FetchResult_def Let_def split: option.splits if_splits prod.splits)

lemma FetchResult_bind_mismatch:
  "(ucast (m_paramNumbers b) :: DWORD) \<noteq> num_fields qr \<Longrightarrow> FetchResult_bind L b qr db mm = Inr (1, db, mm)"
  by (simp add: FetchResult_bind_def GetParamNumCounter_def)

lemma AffectedRows_small: "uint (nrow qr) < 2 ^ 31 \<Longrightarrow> AffectedRows qr = uint (nrow qr)"
  unfolding AffectedRows_def
  by (rule cast_int_small) (use uint_ge_0 [of "nrow qr"] in linarith)+

section \<open>Facts about statements\<close>

lemma LogMsg_short: "length m < 1024 \<Longrightarrow> LogMsg m q = Inr (q\<lparr>m_ErrInfo := m\<rparr>)"
  by (simp add: LogMsg_def ERROR_MESSAGE_BUFFER_MAX_LENGTH_def)

lemma ExecuteSQL_null:
  assumes "sql = None \<or> m_pMysql q = None"
  shows "ExecuteSQL L sql qr q db = Inr (-1, qr, q\<lparr>m_ErrInfo := ''sql or MySQL is NULL!!!''\<rparr>, db)"
  using assms by (auto simp: ExecuteSQL_def LogMsg_short split: option.split)

text \<open>The message of a failed query holds the whole statement: a long one overruns the buffer.\<close>

lemma ExecuteSQL_long_error:
  assumes "m_pMysql q = Some h" "fst (mysql_real_query L h s db) \<noteq> 0" "1024 \<le> length s"
  shows "ExecuteSQL L (Some s) qr q db = Inl BufferOverflow"
  using assms
  by (cases "mysql_real_query L h s db")
    (simp add: ExecuteSQL_def LogMsg_def stmt_msg_def ERROR_MESSAGE_BUFFER_MAX_LENGTH_def)

lemma ExecuteSQL_error:
  assumes "m_pMysql q = Some h" "mysql_real_query L h s db = (code, db1)" "code \<noteq> 0"
    "length s + length (mysql_error L h db1) < 960"
  shows "\<exists>q1. ExecuteSQL L (Some s) qr q db = Inr (code, qr, q1, db1) \<and> q1\<lparr>m_ErrInfo := m_ErrInfo q\<rparr> = q"
  using assms by (simp add: ExecuteSQL_def stmt_msg_def LogMsg_short)

lemma ExecuteSQL_stores:
  assumes "m_pMysql q = Some h" "mysql_real_query L h s db = (0, db1)" "mysql_store_result L h db1 = (res, db2)"
  shows "\<exists>r. ExecuteSQL L (Some s) (Some r0) q db = Inr (0, Some r, q, db2) \<and> qr_res r = res \<and>
    qr_sql r = Some s \<and> qr_stmt r = qr_stmt r0 \<and> nrow r = mysql_affected_rows L h db2 \<and>
    (\<forall>rs. res = Some rs \<longrightarrow> num_rows r = mysql_num_rows L rs db2 \<and> num_fields r = mysql_num_fields L rs db2)"
  using assms by (auto simp: ExecuteSQL_def Let_def split: option.split)

text \<open>The server connects to port 3306 whatever port it is given.\<close>

lemma Init_success:
  assumes "mysql_init L db = (Some h, db1)" "mysql_real_connect L h ip user pwd dbn 3306 db1 = (True, db2)"
    "mysql_stmt_init L h db2 = (Some st, db3)"
  shows "Init L user pwd ip dbn port q db =
    Inr (True, q\<lparr>m_pMysql := Some h, m_pMysqlStmt := Some st,
      m_dbInfo := SetInfo user pwd ip dbn port (m_dbInfo q)\<rparr>, db3)"
  using assms by (simp add: Init_def Connect_def Let_def)

lemma Init_connect_fails:
  assumes "mysql_init L db = (Some h, db1)" "mysql_real_connect L h ip user pwd dbn 3306 db1 = (False, db2)"
    "length (mysql_error L h db2) < 900"
  shows "\<exists>q'. Init L user pwd ip dbn port q db = Inr (False, q', db2) \<and> m_pMysqlStmt q' = m_pMysqlStmt q"
  using assms by (simp add: Init_def Connect_def Let_def LogMsg_short)

lemma MyQuery_dtor_twice: "MyQuery_dtor L (fst (MyQuery_dtor L q db)) db' = (fst (MyQuery_dtor L q db), db')"
  by (simp add: MyQuery_dtor_def Let_def)

end
