(* ===== verification/Sql_Procedure.thy ===== *)
theory Sql_Procedure
  imports Sql_Query
begin

text \<open>
  \<^verbatim>\<open>MySqlModule/ProcedureHelper.hpp\<close>/\<^verbatim>\<open>.cpp\<close>: \<^verbatim>\<open>Prepare\<close> asks the server for the parameter
  list of a stored procedure and parses it, \<^verbatim>\<open>Execute\<close> builds the \<^verbatim>\<open>set\<close>, \<^verbatim>\<open>call\<close> and
  \<^verbatim>\<open>select\<close> statements, runs them and reads the results back. \<^verbatim>\<open>SELECT_PROCEDURE_PARAMLIST\<close>
  is not defined in the sources: the text it formats is a parameter. Printing and reading of
  floating-point numbers are the fields of \<open>float_lib\<close>.
\<close>

section \<open>Data\<close>

text \<open>The values a \<^verbatim>\<open>boost::any\<close> parameter holds; a null pointer inside is \<open>None\<close>.\<close>

datatype sql_any = SAEmpty | SAInt int | SAInt64 int | SAFloat real | SADouble real
  | SAStr "string option" | SAPtr "BYTE list option"

datatype DIRECTION = V_IN | V_OUT | V_INOUT

record SqlParam =
  direction :: DIRECTION
  ptype :: enum_field_types
  plens :: nat
  bindValue :: sql_any

text \<open>All bytes zero: the first direction, the field type 0, length 0, an empty value.\<close>

definition SqlParam_zero :: SqlParam where
  "SqlParam_zero = \<lparr>direction = V_IN, ptype = MYSQL_TYPE_DECIMAL, plens = 0, bindValue = SAEmpty\<rparr>"

definition MAX_PARAM_COUNT :: nat where "MAX_PARAM_COUNT = 10"

text \<open>The base class \<^verbatim>\<open>QueryResult\<close> is the first field.\<close>

record ProcedureHelper =
  ph_qr :: QueryResult
  strProc :: string
  strArgs :: string
  totalCount :: nat
  inCount :: nat
  outCount :: nat
  inoutCount :: nat
  parameters :: "SqlParam list"

definition ph_Clear :: "'db mysql_lib \<Rightarrow> ProcedureHelper \<Rightarrow> 'db \<Rightarrow> (ProcedureHelper \<times> 'db) result" where
  "ph_Clear L p db = bnd (qr_Release L (ph_qr p) db) (\<lambda>db1.
     Inr (p\<lparr>strProc := [], strArgs := [], totalCount := 0, inCount := 0, outCount := 0, inoutCount := 0,
            parameters := replicate MAX_PARAM_COUNT SqlParam_zero\<rparr>, db1))"

definition ProcedureHelper_new :: "'db mysql_lib \<Rightarrow> 'db \<Rightarrow> (ProcedureHelper \<times> 'db) result" where
  "ProcedureHelper_new L db = ph_Clear L \<lparr>ph_qr = QueryResult_new, strProc = [], strArgs = [],
     totalCount = 0, inCount = 0, outCount = 0, inoutCount = 0,
     parameters = replicate MAX_PARAM_COUNT SqlParam_zero\<rparr> db"

section \<open>Field types\<close>

definition char_at :: "string \<Rightarrow> nat \<Rightarrow> char" where
  "char_at s i = (if i < length s then s ! i else CHR 0x00)"

definition GetMySqlType :: "string \<Rightarrow> enum_field_types" where
  "GetMySqlType typestr =
     (let c = char_at typestr 0
      in if c = CHR ''b'' then
           (let c1 = char_at typestr 1
            in if c1 = CHR ''l'' then (if typestr = ''blob'' then MYSQL_TYPE_BLOB else FieldErr)
               else if c1 = CHR ''i'' then (if typestr = ''bigint'' then MYSQL_TYPE_LONGLONG else FieldErr)
               else FieldErr)
         else if c = CHR ''i'' then (if typestr = ''int'' then MYSQL_TYPE_LONG else FieldErr)
         else if c = CHR ''c'' then (if typestr = ''char'' then MYSQL_TYPE_STRING else FieldErr)
         else if c = CHR ''v'' then (if typestr = ''varchar'' then MYSQL_TYPE_STRING else FieldErr)
         else FieldErr)"

section \<open>Prepare: the parser of the parameter list\<close>

definition to_lower :: "char \<Rightarrow> char" where
  "to_lower c = (let n = of_char c :: nat in if 65 \<le> n \<and> n \<le> 90 then char_of (n + 32) else c)"

text \<open>\<^verbatim>\<open>stream >> word\<close> until the stream is empty: the words between blanks.\<close>

function stream_words :: "string \<Rightarrow> string list" where
  "stream_words s = (let t = dropWhile is_space s
     in if t = [] then [] else takeWhile (\<lambda>c. \<not> is_space c) t # stream_words (dropWhile (\<lambda>c. \<not> is_space c) t))"
  by pat_completeness auto
termination
proof (relation "measure length", simp)
  fix s t :: string assume t: "t = dropWhile is_space s" "t \<noteq> []"
  then have "\<not> is_space (hd t)" using hd_dropWhile [of is_space s] by simp
  then have "length (dropWhile (\<lambda>c. \<not> is_space c) t) < length t"
    using t(2) by (cases t) (auto simp: le_imp_less_Suc length_dropWhile_le)
  moreover have "length t \<le> length s" by (simp add: t(1) length_dropWhile_le)
  ultimately show "(dropWhile (\<lambda>c. \<not> is_space c) t, s) \<in> measure length" by simp
qed

declare stream_words.simps [simp del]

definition set_param :: "ProcedureHelper \<Rightarrow> (SqlParam \<Rightarrow> SqlParam) \<Rightarrow> ProcedureHelper result" where
  "set_param p f =
     (if totalCount p < length (parameters p)
      then Inr (p\<lparr>parameters := (parameters p)[totalCount p := f (parameters p ! totalCount p)]\<rparr>)
      else Inl BufferOverflow)"

definition prepare_direction :: "string \<Rightarrow> ProcedureHelper \<Rightarrow> (nat \<times> ProcedureHelper) result" where
  "prepare_direction parampart p =
     (if parampart = ''in'' then
        bnd (set_param (p\<lparr>inCount := inCount p + 1\<rparr>) (\<lambda>s. s\<lparr>direction := V_IN\<rparr>)) (\<lambda>p. Inr (1, p))
      else if parampart = ''out'' then
        bnd (set_param (p\<lparr>outCount := outCount p + 1\<rparr>) (\<lambda>s. s\<lparr>direction := V_OUT\<rparr>)) (\<lambda>p. Inr (1, p))
      else if parampart = ''inout'' then
        bnd (set_param (p\<lparr>inoutCount := inoutCount p + 1\<rparr>) (\<lambda>s. s\<lparr>direction := V_INOUT\<rparr>)) (\<lambda>p. Inr (1, p))
      else
        bnd (set_param (p\<lparr>inCount := inCount p + 1\<rparr>) (\<lambda>s. s\<lparr>direction := V_IN\<rparr>)) (\<lambda>p. Inr (2, p)))"

text \<open>\<^verbatim>\<open>std::string::at\<close> with a \<^verbatim>\<open>size_t\<close> index: the index of an empty prefix wraps.\<close>

definition str_at :: "string \<Rightarrow> nat \<Rightarrow> char result" where
  "str_at s i = (if i < length s then Inr (s ! i) else Inl OutOfRange)"

definition prepare_type :: "string \<Rightarrow> ProcedureHelper \<Rightarrow> (int option \<times> ProcedureHelper) result" where
  "prepare_type parampart p =
     bnd (str_at parampart (sz_sub (length parampart) 1)) (\<lambda>c.
       let fin = (if c = CHR '','' then length parampart - 1 else length parampart)
       in bnd (str_at parampart (sz_sub fin 1)) (\<lambda>c'.
            let open = (if c' = CHR '')'' then memchr parampart (CHR ''('') else Some fin);
                fin' = (case open of None \<Rightarrow> length parampart | Some k \<Rightarrow> k)
            in bnd (if c' = CHR '')'' \<and> open \<noteq> None
                    then set_param p (\<lambda>s. s\<lparr>plens := nat (atoi (drop (fin' + 1) parampart) mod 2 ^ 64)\<rparr>)
                    else Inr p) (\<lambda>p1.
               let ty = GetMySqlType (take fin' parampart)
               in bnd (set_param p1 (\<lambda>s. s\<lparr>ptype := ty\<rparr>)) (\<lambda>p2.
                    if ty = FieldErr then Inr (Some (-3), p2)
                    else Inr (None, p2\<lparr>totalCount := totalCount p2 + 1\<rparr>)))))"

fun prepare_loop :: "string list \<Rightarrow> nat \<Rightarrow> ProcedureHelper \<Rightarrow> (int \<times> ProcedureHelper) result" where
  "prepare_loop [] whichPart p = Inr (0, p)"
| "prepare_loop (parampart # ws) whichPart p =
     (if whichPart = 0 then
        bnd (prepare_direction parampart p) (\<lambda>(w, p1). prepare_loop ws w p1)
      else if whichPart = 1 then prepare_loop ws 2 p
      else bnd (prepare_type parampart p) (\<lambda>(r, p1).
             case r of Some code \<Rightarrow> Inr (code, p1) | None \<Rightarrow> prepare_loop ws 0 p1))"

text \<open>
  The local query result is released when \<^verbatim>\<open>Prepare\<close> returns, on every path.
  \<open>paramlist dbname proc\<close> is the formatted query.
\<close>

definition Prepare :: "'db mysql_lib \<Rightarrow> (string \<Rightarrow> string \<Rightarrow> string) \<Rightarrow> string option \<Rightarrow> ProcedureHelper \<Rightarrow>
    MyQuery \<Rightarrow> 'db \<Rightarrow> (int \<times> ProcedureHelper \<times> MyQuery \<times> 'db) result" where
  "Prepare L paramlist procName p q db =
     (case procName of None \<Rightarrow> Inl NullDeref
      | Some name \<Rightarrow>
        (let p = p\<lparr>strProc := name\<rparr>; sql = paramlist (GetDBName q) name
         in if 1024 \<le> length sql then Inl BufferOverflow
            else bnd (ExecuteSQL L (Some sql) (Some QueryResult_new) q db) (\<lambda>(result, qro, q1, db1).
              let qr = the qro
              in if result \<noteq> 0 then bnd (qr_Release L qr db1) (\<lambda>db2. Inr (-4, p, q1, db2))
                 else if AffectedRows qr < 1 then bnd (qr_Release L qr db1) (\<lambda>db2. Inr (-1, p, q1, db2))
                 else case FetchResult L qr db1 of (code, qr1, db2) \<Rightarrow>
                   if code \<noteq> 0 then bnd (qr_Release L qr1 db2) (\<lambda>db3. Inr (-2, p, q1, db3))
                   else case qr_rows qr1 of
                     Some (Some args # _) \<Rightarrow>
                       (let p1 = p\<lparr>strArgs := map to_lower args\<rparr>
                        in bnd (prepare_loop (stream_words (strArgs p1)) 0 p1) (\<lambda>(ret, p2).
                             bnd (qr_Release L qr1 db2) (\<lambda>db3. Inr (ret, p2, q1, db3))))
                   | _ \<Rightarrow> Inl NullDeref)))"

section \<open>Values\<close>

record float_lib =
  fmt_f :: "real \<Rightarrow> string"
  strtof :: "string \<Rightarrow> real"
  strtod :: "string \<Rightarrow> real"

definition sprintf_f :: "float_lib \<Rightarrow> real \<Rightarrow> string result" where
  "sprintf_f F x = (if length (fmt_f F x) < 33 then Inr (fmt_f F x) else Inl BufferOverflow)"

definition AnyValueToString :: "float_lib \<Rightarrow> SqlParam \<Rightarrow> string result" where
  "AnyValueToString F param =
     (case ptype param of
        MYSQL_TYPE_LONG \<Rightarrow> (case bindValue param of SAInt i \<Rightarrow> Inr (to_string i) | _ \<Rightarrow> Inl BadAnyCast)
      | MYSQL_TYPE_LONGLONG \<Rightarrow> (case bindValue param of SAInt64 i \<Rightarrow> Inr (to_string i) | _ \<Rightarrow> Inl BadAnyCast)
      | MYSQL_TYPE_FLOAT \<Rightarrow> (case bindValue param of SAFloat x \<Rightarrow> sprintf_f F x | _ \<Rightarrow> Inl BadAnyCast)
      | MYSQL_TYPE_DOUBLE \<Rightarrow> (case bindValue param of SADouble x \<Rightarrow> sprintf_f F x | _ \<Rightarrow> Inl BadAnyCast)
      | MYSQL_TYPE_STRING \<Rightarrow>
          (case bindValue param of
             SAStr (Some s) \<Rightarrow> Inr ([CHR 0x27] @ s @ [CHR 0x27])
           | SAStr None \<Rightarrow> Inl NullDeref
           | _ \<Rightarrow> Inl BadAnyCast)
      | _ \<Rightarrow> Inr [])"

definition SqlValueToAny :: "float_lib \<Rightarrow> SqlParam \<Rightarrow> string option \<Rightarrow> nat \<Rightarrow> SqlParam result" where
  "SqlValueToAny F param val sz =
     (case ptype param of
        MYSQL_TYPE_LONG \<Rightarrow> (case val of None \<Rightarrow> Inl NullDeref
          | Some v \<Rightarrow> Inr (param\<lparr>bindValue := SAInt (atoi v)\<rparr>))
      | MYSQL_TYPE_LONGLONG \<Rightarrow> (case val of None \<Rightarrow> Inl NullDeref
          | Some v \<Rightarrow> Inr (param\<lparr>bindValue := SAInt64 (strtol10 v)\<rparr>))
      | MYSQL_TYPE_FLOAT \<Rightarrow> (case val of None \<Rightarrow> Inl NullDeref
          | Some v \<Rightarrow> Inr (param\<lparr>bindValue := SAFloat (strtof F v)\<rparr>))
      | MYSQL_TYPE_DOUBLE \<Rightarrow> (case val of None \<Rightarrow> Inl NullDeref
          | Some v \<Rightarrow> Inr (param\<lparr>bindValue := SADouble (strtod F v)\<rparr>))
      | MYSQL_TYPE_STRING \<Rightarrow> Inr (param\<lparr>bindValue := SAStr val\<rparr>)
      | MYSQL_TYPE_BLOB \<Rightarrow>
          Inr (param\<lparr>bindValue := SAPtr (map_option (map byte_of_char) val), plens := sz\<rparr>)
      | _ \<Rightarrow> Inr param)"

section \<open>Execute\<close>

text \<open>
  \<^verbatim>\<open>PrepareBuffer\<close> is written from its start without gaps, so it is the text written so far
  and \<^verbatim>\<open>prepareIdx\<close> its length. A write, with the terminator \<^verbatim>\<open>sprintf\<close> adds, must stay
  inside the \<open>0xFA00\<close> characters.
\<close>

definition PREPARE_SIZE :: nat where "PREPARE_SIZE = 0xFA00"

definition prep_write :: "string \<Rightarrow> string \<Rightarrow> string result" where
  "prep_write prep t = (if length prep + length t < PREPARE_SIZE then Inr (prep @ t) else Inl BufferOverflow)"

definition prep_copy :: "string \<Rightarrow> string \<Rightarrow> string result" where
  "prep_copy prep t = (if length prep + length t \<le> PREPARE_SIZE then Inr (prep @ t) else Inl BufferOverflow)"

definition prep_separator :: "string \<Rightarrow> string result" where
  "prep_separator prep = (if prep \<noteq> [] then prep_copy prep '','' else Inr ''set'')"

definition hex_byte :: "BYTE \<Rightarrow> string" where
  "hex_byte b = [hex_lower (unat b div 16), hex_lower (unat b mod 16)]"

fun prep_hex :: "string \<Rightarrow> BYTE list \<Rightarrow> string result" where
  "prep_hex prep [] = Inr prep"
| "prep_hex prep (b # bs) = bnd (prep_write prep (hex_byte b)) (\<lambda>prep1. prep_hex prep1 bs)"

definition blob_bytes :: "SqlParam \<Rightarrow> BYTE list result" where
  "blob_bytes param =
     (case bindValue param of
        SAPtr pt \<Rightarrow>
          (if plens param = 0 then Inr []
           else case pt of None \<Rightarrow> Inl NullDeref
             | Some bs \<Rightarrow> if plens param \<le> length bs then Inr (take (plens param) bs) else Inl OutOfBounds)
      | _ \<Rightarrow> Inl BadAnyCast)"

record exec_text =
  ex_prep :: string
  ex_call :: string
  ex_select :: string

definition var_name :: "nat \<Rightarrow> string" where
  "var_name i = ''@_'' @ dec_nat i"

text \<open>One turn of the loop over the parameters; \<open>Inl code\<close> is an early return.\<close>

definition exec_param :: "float_lib \<Rightarrow> nat \<Rightarrow> SqlParam \<Rightarrow> exec_text \<Rightarrow> (int + exec_text) result" where
  "exec_param F i param x =
     (let x = (if i \<noteq> 0 then x\<lparr>ex_call := ex_call x @ '', ''\<rparr> else x)
      in if direction param = V_IN then
           (if ptype param \<noteq> MYSQL_TYPE_BLOB then
              bnd (AnyValueToString F param) (\<lambda>ret.
                if ret = [] then Inr (Inl (-1)) else Inr (Inr (x\<lparr>ex_call := ex_call x @ ret\<rparr>)))
            else
              bnd (prep_separator (ex_prep x)) (\<lambda>prep1.
              bnd (prep_copy prep1 (var_name i @ '' = 0x'')) (\<lambda>prep2.
              bnd (blob_bytes param) (\<lambda>bs.
              bnd (prep_hex prep2 bs) (\<lambda>prep3.
                Inr (Inr (x\<lparr>ex_prep := prep3, ex_call := ex_call x @ var_name i\<rparr>)))))))
         else
           bnd (prep_separator (ex_prep x)) (\<lambda>prep1.
           bnd (if direction param = V_INOUT then
                  (if ptype param \<noteq> MYSQL_TYPE_BLOB then
                     bnd (AnyValueToString F param) (\<lambda>ret.
                       if ret = [] then Inr (Inl (-1)) else Inl NonPodVararg)
                   else
                     bnd (blob_bytes param) (\<lambda>bs. bnd (prep_hex prep1 bs) (\<lambda>prep2. Inr (Inr prep2))))
                else bnd (prep_write prep1 ('' '' @ var_name i @ '' = null'')) (\<lambda>prep2. Inr (Inr prep2)))
             (\<lambda>r. case r of
                Inl code \<Rightarrow> Inr (Inl code)
              | Inr prep2 \<Rightarrow>
                  Inr (Inr (x\<lparr>ex_prep := prep2, ex_call := ex_call x @ var_name i,
                    ex_select := ex_select x @ (if ex_select x = [] then ''select '' else '', '') @ var_name i\<rparr>)))))"

fun exec_params :: "float_lib \<Rightarrow> nat \<Rightarrow> SqlParam list \<Rightarrow> exec_text \<Rightarrow> (int + exec_text) result" where
  "exec_params F i [] x = Inr (Inr x)"
| "exec_params F i (param # ps) x =
     bnd (exec_param F i param x) (\<lambda>r. case r of Inl code \<Rightarrow> Inr (Inl code) | Inr x1 \<Rightarrow> exec_params F (Suc i) ps x1)"

text \<open>Copying row \<open>i\<close>, \<open>i + 1\<close>, ... to the parameters from \<open>inCount\<close> on; \<open>n\<close> are left.\<close>

fun bind_out :: "float_lib \<Rightarrow> nat \<Rightarrow> nat \<Rightarrow> nat \<Rightarrow> string option list \<Rightarrow> nat list \<Rightarrow> SqlParam list \<Rightarrow> SqlParam list result" where
  "bind_out F 0 i k rows lens ps = Inr ps"
| "bind_out F (Suc n) i k rows lens ps =
     (if i < length rows \<and> i < length lens \<and> k + i < length ps then
        bnd (SqlValueToAny F (ps ! (k + i)) (rows ! i) (lens ! i)) (\<lambda>v.
          bind_out F n (Suc i) k rows lens (ps[k + i := v]))
      else Inl OutOfBounds)"

text \<open>The last phase: select the output variables and copy them to the parameters.\<close>

definition Execute_outputs :: "'db mysql_lib \<Rightarrow> float_lib \<Rightarrow> string \<Rightarrow> ProcedureHelper \<Rightarrow> MyQuery \<Rightarrow> 'db \<Rightarrow>
    (int \<times> ProcedureHelper \<times> MyQuery \<times> 'db) result" where
  "Execute_outputs L F sel p q db =
     bnd (ExecuteSQL L (Some sel) (Some (ph_qr p)) q db) (\<lambda>(result, qro, q1, db1).
       let p1 = p\<lparr>ph_qr := the qro\<rparr>
       in if result \<noteq> 0 then Inr (result, p1, q1, db1)
          else if AffectedRows (ph_qr p1) \<noteq> 1 then Inr (-1, p1, q1, db1)
          else case FetchResult L (ph_qr p1) db1 of (code, qr, db2) \<Rightarrow>
            (let p2 = p1\<lparr>ph_qr := qr\<rparr>
             in if code \<noteq> 0 then Inr (code, p2, q1, db2)
                else bnd (bind_out F (outCount p2 + inoutCount p2) 0 (inCount p2)
                            (the (qr_rows qr)) (the (qr_lens qr)) (parameters p2)) (\<lambda>ps.
                       Inl MissingReturn)))"

text \<open>The statements: the variables, the call, the release of its result, the outputs.\<close>

definition Execute_statements :: "'db mysql_lib \<Rightarrow> float_lib \<Rightarrow> exec_text \<Rightarrow> ProcedureHelper \<Rightarrow> MyQuery \<Rightarrow> 'db \<Rightarrow>
    (int \<times> ProcedureHelper \<times> MyQuery \<times> 'db) result" where
  "Execute_statements L F x p q db =
     (let call = ex_call x @ '' )''
      in if ex_prep x \<noteq> [] \<and> length (ex_prep x) > PREPARE_SIZE - 20 then Inr (-1, p, q, db)
         else
           bnd (if ex_prep x \<noteq> [] then ExecuteSQL L (Some (ex_prep x)) None q db
                else Inr (0, None, q, db)) (\<lambda>(result, _, q1, db1).
           if result \<noteq> 0 then Inr (result, p, q1, db1)
           else
             bnd (ExecuteSQL L (Some call) (Some (ph_qr p)) q1 db1) (\<lambda>(result, qro, q2, db2).
             let p1 = p\<lparr>ph_qr := the qro\<rparr>
             in if result \<noteq> 0 then Inr (result, p1, q2, db2)
                else
                  bnd (qr_Release L (ph_qr p1) db2) (\<lambda>db3.
                  if ex_select x = [] then Inr (0, p1, q2, db3)
                  else Execute_outputs L F (ex_select x) p1 q2 db3))))"

definition Execute :: "'db mysql_lib \<Rightarrow> float_lib \<Rightarrow> ProcedureHelper \<Rightarrow> MyQuery \<Rightarrow> 'db \<Rightarrow>
    (int \<times> ProcedureHelper \<times> MyQuery \<times> 'db) result" where
  "Execute L F p q db =
     bnd (if totalCount p \<le> length (parameters p)
          then exec_params F 0 (take (totalCount p) (parameters p))
                 \<lparr>ex_prep = [], ex_call = ''call '' @ strProc p @ '' ( '', ex_select = []\<rparr>
          else Inl OutOfBounds) (\<lambda>r.
     case r of Inl code \<Rightarrow> Inr (code, p, q, db) | Inr x \<Rightarrow> Execute_statements L F x p q db)"

section \<open>The parser reads back a printed parameter list\<close>

text \<open>A declaration as the documentation of the helper asks for it: direction, name, type with length.\<close>

record param_decl =
  pd_dir :: DIRECTION
  pd_name :: string
  pd_type :: string
  pd_len :: "nat option"
  pd_comma :: bool

fun dir_word :: "DIRECTION \<Rightarrow> string" where
  "dir_word V_IN = ''in''"
| "dir_word V_OUT = ''out''"
| "dir_word V_INOUT = ''inout''"

definition type_word :: "param_decl \<Rightarrow> string" where
  "type_word d = pd_type d @ (case pd_len d of None \<Rightarrow> [] | Some n \<Rightarrow> ''('' @ dec_nat n @ '')'') @
     (if pd_comma d then '','' else [])"

definition decl_words :: "param_decl \<Rightarrow> string list" where
  "decl_words d = [dir_word (pd_dir d), pd_name d, type_word d]"

definition decl_ok :: "param_decl \<Rightarrow> bool" where
  "decl_ok d \<longleftrightarrow> pd_type d \<in> {''int'', ''bigint'', ''char'', ''varchar'', ''blob''} \<and>
     (case pd_len d of None \<Rightarrow> True | Some n \<Rightarrow> n < 2 ^ 31)"

definition decl_len :: "param_decl \<Rightarrow> SqlParam \<Rightarrow> SqlParam" where
  "decl_len d s = (case pd_len d of None \<Rightarrow> s | Some n \<Rightarrow> s\<lparr>plens := n\<rparr>)"

definition decl_param :: "param_decl \<Rightarrow> SqlParam \<Rightarrow> SqlParam" where
  "decl_param d s = (decl_len d (s\<lparr>direction := pd_dir d\<rparr>))\<lparr>ptype := GetMySqlType (pd_type d)\<rparr>"

lemma memchr_append: "c \<notin> set xs \<Longrightarrow> memchr (xs @ c # ys) c = Some (length xs)"
  by (induction xs) auto

lemma atoi_dec: "n < 2 ^ 31 \<Longrightarrow> atoi (dec_nat n @ CHR '')'' # t) = int n"
proof -
  assume n: "n < 2 ^ 31"
  obtain c cs where cs: "dec_nat n = c # cs" "is_digit c"
    using dec_nat_not_Nil [of n] hd_dec_nat [of n] by (cases "dec_nat n") auto
  have "\<not> is_digit (CHR '')'')" by (simp add: is_digit_def)
  then have "read_dec 0 (dec_nat n @ CHR '')'' # t) = n"
    using read_dec_append [OF dec_nat_digits, of 0 n "CHR '')'' # t"] by (simp add: read_dec_nat)
  then show "atoi (dec_nat n @ CHR '')'' # t) = int n"
    using n cs is_digit_char [OF cs(2)] by (simp add: atoi_def strtol10_def Let_def)
qed

lemma decl_type_chars:
  assumes "decl_ok d"
  shows "pd_type d \<noteq> []" "CHR ''('' \<notin> set (pd_type d)" "last (pd_type d) \<noteq> CHR '',''"
    "last (pd_type d) \<noteq> CHR '')''" "GetMySqlType (pd_type d) \<noteq> FieldErr"
  using assms by (auto simp: decl_ok_def GetMySqlType_def char_at_def)

lemma str_at_last: "s \<noteq> [] \<Longrightarrow> str_at s (sz_sub (length s) 1) = Inr (last s)"
  by (cases s) (simp_all add: str_at_def last_conv_nth)

lemma str_at_butlast: "t \<noteq> [] \<Longrightarrow> str_at (t @ u) (sz_sub (length t) 1) = Inr (last t)"
  by (cases t) (simp_all add: str_at_def last_conv_nth nth_append)

lemma set_param_set_param:
  "totalCount p < length (parameters p) \<Longrightarrow>
    bnd (set_param p f) (\<lambda>p1. set_param p1 g) = set_param p (g \<circ> f)"
  by (simp add: set_param_def)

lemma prepare_type_decl:
  assumes "decl_ok d" "totalCount p < length (parameters p)"
  shows "prepare_type (type_word d) p =
    Inr (None, p\<lparr>parameters := (parameters p)[totalCount p := (decl_len d (parameters p ! totalCount p))
        \<lparr>ptype := GetMySqlType (pd_type d)\<rparr>],
      totalCount := totalCount p + 1\<rparr>)"
proof -
  note ty = decl_type_chars [OF assms(1)]
  let ?body = "pd_type d @ (case pd_len d of None \<Rightarrow> [] | Some n \<Rightarrow> ''('' @ dec_nat n @ '')'')"
  let ?fin = "length ?body"
  have body: "?body \<noteq> []" using ty(1) by simp
  have last: "last ?body \<noteq> CHR '',''" using ty by (auto split: option.split)
  have word: "type_word d = ?body @ (if pd_comma d then '','' else [])" by (simp add: type_word_def)
  define w where "w = type_word d"
  obtain c where c: "str_at w (sz_sub (length w) 1) = Inr c"
    "(if c = CHR '','' then length w - 1 else length w) = ?fin"
    using str_at_last [of w] body last by (cases "pd_comma d") (auto simp: word w_def)
  have second: "str_at w (sz_sub ?fin 1) = Inr (last ?body)"
    unfolding w_def word by (rule str_at_butlast [OF body])
  have pre: "take (length (pd_type d)) w = pd_type d" by (simp add: word w_def)
  have "prepare_type w p =
    Inr (None, p\<lparr>parameters := (parameters p)[totalCount p := (decl_len d (parameters p ! totalCount p))
        \<lparr>ptype := GetMySqlType (pd_type d)\<rparr>],
      totalCount := totalCount p + 1\<rparr>)"
  proof (cases "pd_len d")
    case None
    then show ?thesis
      using c second ty assms(2) pre by (simp add: prepare_type_def Let_def set_param_def decl_len_def)
  next
    case (Some n)
    have "memchr w (CHR ''('') = Some (length (pd_type d))"
      using memchr_append [OF ty(2), of "dec_nat n @ '')'' @ (if pd_comma d then '','' else [])"]
      by (simp add: word w_def Some)
    moreover have "atoi (drop (Suc (length (pd_type d))) w) = int n"
      using atoi_dec [of n] assms(1) by (simp add: word w_def Some decl_ok_def)
    moreover have "nat (int n mod 2 ^ 64) = n" using assms(1) Some by (simp add: decl_ok_def)
    ultimately show ?thesis
      using c second ty(5) assms(2) Some pre
      by (simp add: prepare_type_def Let_def set_param_def decl_len_def)
  qed
  then show ?thesis by (simp add: w_def)
qed

lemma prepare_direction_word:
  assumes "totalCount p < length (parameters p)"
  shows "prepare_direction (dir_word dd) p =
    Inr (1, p\<lparr>inCount := inCount p + (if dd = V_IN then 1 else 0), outCount := outCount p + (if dd = V_OUT then 1 else 0),
      inoutCount := inoutCount p + (if dd = V_INOUT then 1 else 0),
      parameters := (parameters p)[totalCount p := (parameters p ! totalCount p)\<lparr>direction := dd\<rparr>]\<rparr>)"
  using assms by (cases dd) (simp_all add: prepare_direction_def set_param_def)

text \<open>One declaration takes three turns of the loop.\<close>

definition add_decl :: "param_decl \<Rightarrow> ProcedureHelper \<Rightarrow> ProcedureHelper" where
  "add_decl d p = p\<lparr>inCount := inCount p + (if pd_dir d = V_IN then 1 else 0),
     outCount := outCount p + (if pd_dir d = V_OUT then 1 else 0),
     inoutCount := inoutCount p + (if pd_dir d = V_INOUT then 1 else 0),
     parameters := (parameters p)[totalCount p := decl_param d (parameters p ! totalCount p)],
     totalCount := totalCount p + 1\<rparr>"

lemma add_decl_simps [simp]:
  "totalCount (add_decl d p) = Suc (totalCount p)"
  "parameters (add_decl d p) = (parameters p)[totalCount p := decl_param d (parameters p ! totalCount p)]"
  by (simp_all add: add_decl_def)

lemma prepare_loop_decl:
  assumes "decl_ok d" "totalCount p < length (parameters p)"
  shows "prepare_loop (decl_words d @ ws) 0 p = prepare_loop ws 0 (add_decl d p)"
  using assms
  by (simp add: decl_words_def prepare_direction_word prepare_type_decl add_decl_def decl_param_def)

lemma prepare_loop_decls:
  "list_all decl_ok ds \<Longrightarrow> totalCount p + length ds \<le> length (parameters p) \<Longrightarrow>
    prepare_loop (concat (map decl_words ds) @ ws) 0 p = prepare_loop ws 0 (fold add_decl ds p)"
proof (induction ds arbitrary: p)
  case (Cons d ds)
  then show ?case
    using prepare_loop_decl [of d p "concat (map decl_words ds) @ ws"] Cons.IH [of "add_decl d p"]
    by simp
qed simp

lemma fold_add_decl:
  "totalCount p + length ds \<le> length (parameters p) \<Longrightarrow>
    totalCount (fold add_decl ds p) = totalCount p + length ds \<and>
    length (parameters (fold add_decl ds p)) = length (parameters p) \<and>
    take (totalCount p) (parameters (fold add_decl ds p)) = take (totalCount p) (parameters p) \<and>
    (\<forall>i < length ds. parameters (fold add_decl ds p) ! (totalCount p + i) =
       decl_param (ds ! i) (parameters p ! (totalCount p + i)))"
proof (induction ds arbitrary: p)
  case (Cons d ds)
  let ?p = "add_decl d p"
  have IH: "totalCount (fold add_decl ds ?p) = totalCount p + 1 + length ds"
    "length (parameters (fold add_decl ds ?p)) = length (parameters p)"
    "take (totalCount p + 1) (parameters (fold add_decl ds ?p)) = take (totalCount p + 1) (parameters ?p)"
    "\<And>i. i < length ds \<Longrightarrow> parameters (fold add_decl ds ?p) ! (totalCount p + 1 + i) =
      decl_param (ds ! i) (parameters ?p ! (totalCount p + 1 + i))"
    using Cons.IH [of ?p] Cons.prems by simp_all
  have lt: "totalCount p < length (parameters p)" using Cons.prems by simp
  have "parameters (fold add_decl ds ?p) ! totalCount p = decl_param d (parameters p ! totalCount p)"
    using arg_cong [OF IH(3), of "\<lambda>xs. xs ! totalCount p"] lt IH(2) by simp
  moreover have "take (totalCount p) (parameters (fold add_decl ds ?p)) = take (totalCount p) (parameters p)"
    using arg_cong [OF IH(3), of "take (totalCount p)"] by (simp add: min_def)
  ultimately show ?case
    using IH lt by (auto simp: less_Suc_eq_0_disj)
qed simp

text \<open>Blanks between the words.\<close>

lemma stream_words_Cons:
  assumes "w \<noteq> []" "list_all (\<lambda>c. \<not> is_space c) w" "is_space b"
  shows "stream_words (w @ b # t) = w # stream_words (b # t)"
proof -
  have "dropWhile is_space (w @ b # t) = w @ b # t" using assms by (cases w) auto
  moreover have "takeWhile (\<lambda>c. \<not> is_space c) (w @ b # t) = w"
    "dropWhile (\<lambda>c. \<not> is_space c) (w @ b # t) = b # t"
    using assms(2,3) by (induction w) auto
  ultimately show ?thesis by (subst stream_words.simps) (simp add: Let_def)
qed

lemma stream_words_blank: "is_space b \<Longrightarrow> stream_words (b # t) = stream_words t"
  by (subst stream_words.simps, subst (2) stream_words.simps) simp

lemma stream_words_unwords:
  "list_all (\<lambda>w. w \<noteq> [] \<and> list_all (\<lambda>c. \<not> is_space c) w) ws \<Longrightarrow>
    stream_words (concat (map (\<lambda>w. w @ '' '') ws)) = ws"
proof (induction ws)
  case Nil
  show ?case by (subst stream_words.simps) simp
next
  case (Cons w ws)
  have "is_space (CHR '' '')" by (simp add: is_space_def)
  then show ?case
    using Cons stream_words_Cons [of w "CHR '' ''"] by (simp add: stream_words_blank)
qed

lemma decl_words_ok:
  assumes "decl_ok d" "pd_name d \<noteq> []" "list_all (\<lambda>c. \<not> is_space c) (pd_name d)"
  shows "list_all (\<lambda>w. w \<noteq> [] \<and> list_all (\<lambda>c. \<not> is_space c) w) (decl_words d)"
proof -
  have digits: "list_all (\<lambda>c. \<not> is_space c) (dec_nat n)" for n
    using dec_nat_digits [of n] is_digit_char by (auto simp: list_all_iff)
  have "list_all (\<lambda>c. \<not> is_space c) (pd_type d)" using assms(1) by (auto simp: decl_ok_def is_space_def)
  then have "list_all (\<lambda>c. \<not> is_space c) (type_word d)"
    using digits by (simp add: type_word_def is_space_def split: option.split)
  moreover have "type_word d \<noteq> []" using decl_type_chars(1) [OF assms(1)] by (simp add: type_word_def)
  moreover have "dir_word dd \<noteq> [] \<and> list_all (\<lambda>c. \<not> is_space c) (dir_word dd)" for dd
    by (cases dd) (simp_all add: is_space_def)
  ultimately show ?thesis using assms(2,3) by (simp add: decl_words_def)
qed

lemma fold_add_decl_counts:
  "inCount (fold add_decl ds p) = inCount p + length (filter (\<lambda>d. pd_dir d = V_IN) ds)"
  "outCount (fold add_decl ds p) = outCount p + length (filter (\<lambda>d. pd_dir d = V_OUT) ds)"
  "inoutCount (fold add_decl ds p) = inoutCount p + length (filter (\<lambda>d. pd_dir d = V_INOUT) ds)"
  by (induction ds arbitrary: p) (simp_all add: add_decl_def)

text \<open>Past the tenth parameter the array is overrun; a lone comma in the place of a type throws.\<close>

lemma prepare_direction_overrun:
  "length (parameters p) \<le> totalCount p \<Longrightarrow> prepare_direction w p = Inl BufferOverflow"
  by (simp add: prepare_direction_def set_param_def)

lemma prepare_type_comma: "prepare_type '','' p = Inl OutOfRange"
  by (simp add: prepare_type_def str_at_def sz_sub_def size_max_def Let_def)

section \<open>What Execute sends\<close>

fun join :: "string list \<Rightarrow> string" where
  "join [] = []"
| "join [v] = v"
| "join (v # vs) = v @ '', '' @ join vs"

lemma join_snoc: "vs \<noteq> [] \<Longrightarrow> join (vs @ [v]) = join vs @ '', '' @ v"
  by (induction vs rule: join.induct) simp_all

text \<open>Only input values: nothing to set or to select, the call holds the values in order.\<close>

lemma exec_params_in:
  fixes us :: "string list"
  assumes "list_all2 (\<lambda>p v. direction p = V_IN \<and> ptype p \<noteq> MYSQL_TYPE_BLOB \<and> AnyValueToString F p = Inr v \<and> v \<noteq> []) ps vs"
  shows "exec_params F (length us) ps x =
    Inr (Inr (x\<lparr>ex_call := ex_call x @ (if us = [] \<or> vs = [] then [] else '', '') @ join vs\<rparr>))"
  using assms
proof (induction ps vs arbitrary: us x rule: list_all2_induct)
  case (Cons p ps v vs)
  let ?x = "x\<lparr>ex_call := ex_call x @ (if us = [] then [] else '', '') @ v\<rparr>"
  have "exec_param F (length us) p x = Inr (Inr ?x)"
    using Cons.hyps by (simp add: exec_param_def Let_def)
  moreover have "exec_params F (length (us @ [v])) ps ?x =
      Inr (Inr (?x\<lparr>ex_call := ex_call ?x @ (if vs = [] then [] else '', '') @ join vs\<rparr>))"
    using Cons.IH [of "us @ [v]" ?x] by simp
  ultimately show ?case by (cases vs) simp_all
qed simp

text \<open>Binary values travel as hexadecimal digits, two per byte.\<close>

lemma prep_hex_ok:
  "length prep + 2 * length bs < PREPARE_SIZE \<Longrightarrow> prep_hex prep bs = Inr (prep @ concat (map hex_byte bs))"
proof (induction bs arbitrary: prep)
  case (Cons b bs)
  then show ?case
    using Cons.IH [of "prep @ hex_byte b"] by (simp add: prep_write_def hex_byte_def)
qed simp

lemma prep_hex_overrun:
  "PREPARE_SIZE \<le> length prep + 2 * length bs \<Longrightarrow> bs \<noteq> [] \<Longrightarrow> prep_hex prep bs = Inl BufferOverflow"
proof (induction bs arbitrary: prep)
  case (Cons b bs)
  show ?case
  proof (cases "length prep + 2 < PREPARE_SIZE")
    case True
    then have "bs \<noteq> []" using Cons.prems by auto
    then show ?thesis
      using Cons.IH [of "prep @ hex_byte b"] Cons.prems True by (simp add: prep_write_def hex_byte_def)
  qed (simp add: prep_write_def hex_byte_def)
qed simp

lemma of_char_hex_lower: "d < 16 \<Longrightarrow> of_char (hex_lower d) = (if d < 10 then 48 + d else 87 + d :: nat)"
  by (simp add: hex_lower_def digit_def)

lemma hex_lower_inj:
  assumes "d < 16" "e < 16" "hex_lower d = hex_lower e"
  shows "d = e"
proof -
  have "(if d < 10 then 48 + d else 87 + d) = (if e < 10 then 48 + e else 87 + e)"
    using arg_cong [OF assms(3), of "of_char :: char \<Rightarrow> nat"] assms(1,2) by (simp only: of_char_hex_lower)
  then show ?thesis using assms(1,2) by (simp split: if_splits)
qed

lemma length_hex_byte: "length (hex_byte b) = 2"
  by (simp add: hex_byte_def)

lemma hex_byte_inj:
  assumes "hex_byte a = hex_byte b"
  shows "a = b"
proof -
  have nibble: "unat x div 16 < 16" for x :: BYTE
  proof -
    have "unat x < 2 ^ LENGTH(8)" by (rule unsigned_less)
    then show ?thesis by simp
  qed
  have h: "hex_lower (unat a div 16) = hex_lower (unat b div 16)"
    "hex_lower (unat a mod 16) = hex_lower (unat b mod 16)"
    using assms by (simp_all add: hex_byte_def)
  have "unat a div 16 = unat b div 16" by (rule hex_lower_inj [OF nibble nibble h(1)])
  moreover have "unat a mod 16 = unat b mod 16" by (rule hex_lower_inj [OF _ _ h(2)]) simp_all
  ultimately have "unat a = unat b" by (metis div_mult_mod_eq)
  then show ?thesis by (simp add: word_unat_eq_iff)
qed

lemma concat_hex_inj: "concat (map hex_byte as) = concat (map hex_byte bs) \<Longrightarrow> as = bs"
proof (induction as arbitrary: bs)
  case Nil
  then show ?case by (cases bs) (simp_all add: hex_byte_def)
next
  case (Cons a as)
  then obtain b bs' where bs: "bs = b # bs'" by (cases bs) (auto simp: hex_byte_def)
  have "hex_byte a = hex_byte b \<and> concat (map hex_byte as) = concat (map hex_byte bs')"
    using Cons.prems bs by (simp add: append_eq_append_conv length_hex_byte)
  then show ?case using Cons.IH hex_byte_inj bs by blast
qed

text \<open>An output parameter is initialised to null, named in the call and selected afterwards.\<close>

lemma exec_param_out:
  assumes "direction p = V_OUT" "ex_prep x = []"
  shows "exec_param F 0 p x = Inr (Inr (x\<lparr>ex_prep := ''set @_0 = null'', ex_call := ex_call x @ ''@_0'',
    ex_select := ex_select x @ (if ex_select x = [] then ''select '' else '', '') @ ''@_0''\<rparr>))"
proof -
  have "dec_nat 0 = ''0''" by (simp add: dec_nat.simps digit_def char_of_eq_iff)
  then show ?thesis
    using assms by (simp add: exec_param_def prep_separator_def prep_write_def PREPARE_SIZE_def var_name_def)
qed

text \<open>A value of an INOUT parameter is passed to \<^verbatim>\<open>sprintf\<close> as a \<^verbatim>\<open>std::string\<close> object.\<close>

lemma exec_param_inout:
  assumes "direction p = V_INOUT" "ptype p \<noteq> MYSQL_TYPE_BLOB" "AnyValueToString F p = Inr v" "v \<noteq> []"
    "length (ex_prep x) < PREPARE_SIZE"
  shows "exec_param F i p x = Inl NonPodVararg"
  using assms by (auto simp: exec_param_def prep_separator_def prep_copy_def Let_def)

text \<open>Values are read back as they were sent.\<close>

lemma value_roundtrip_int:
  assumes "ptype p = MYSQL_TYPE_LONG" "bindValue p = SAInt i" "- (2 ^ 31) \<le> i" "i < 2 ^ 31"
  shows "bnd (AnyValueToString F p) (\<lambda>s. SqlValueToAny F p (Some s) n) = Inr p"
  using assms by (simp add: AnyValueToString_def SqlValueToAny_def atoi_to_string)

lemma value_roundtrip_int64:
  assumes "ptype p = MYSQL_TYPE_LONGLONG" "bindValue p = SAInt64 i" "- (2 ^ 63) \<le> i" "i < 2 ^ 63"
  shows "bnd (AnyValueToString F p) (\<lambda>s. SqlValueToAny F p (Some s) n) = Inr p"
  using assms by (simp add: AnyValueToString_def SqlValueToAny_def strtol10_to_string)

section \<open>How Execute ends\<close>

text \<open>
  With only input parameters: the set of the call is released and 0 returned, but the helper
  still points to it.
\<close>

lemma Execute_in_only:
  assumes args: "totalCount p \<le> length (parameters p)"
    "list_all2 (\<lambda>p v. direction p = V_IN \<and> ptype p \<noteq> MYSQL_TYPE_BLOB \<and> AnyValueToString F p = Inr v \<and> v \<noteq> [])
       (take (totalCount p) (parameters p)) vs"
    and call: "ExecuteSQL L (Some (''call '' @ strProc p @ '' ( '' @ join vs @ '' )'')) (Some (ph_qr p)) q db =
      Inr (0, Some r, q1, db1)"
    and rel: "qr_Release L r db1 = Inr db2"
  shows "Execute L F p q db = Inr (0, p\<lparr>ph_qr := r\<rparr>, q1, db2)"
  using exec_params_in [OF args(2), of "[]"] args(1) call rel
  by (simp add: Execute_def Execute_statements_def Let_def)

lemma Execute_outputs_code: "Execute_outputs L F sel p q db = Inr (code, p', q', db') \<Longrightarrow> code \<noteq> 0"
  by (auto simp: Execute_outputs_def Let_def bnd_eq_Inr split: if_splits prod.splits)

text \<open>With an output parameter \<^verbatim>\<open>Execute\<close> never answers success.\<close>

lemma Execute_out_no_return:
  assumes "totalCount p \<le> length (parameters p)"
    "exec_params F 0 (take (totalCount p) (parameters p))
       \<lparr>ex_prep = [], ex_call = ''call '' @ strProc p @ '' ( '', ex_select = []\<rparr> = Inr (Inr x)"
    "ex_select x \<noteq> []"
  shows "Execute L F p q db \<noteq> Inr (0, p', q', db')"
proof
  assume "Execute L F p q db = Inr (0, p', q', db')"
  then have "Execute_statements L F x p q db = Inr (0, p', q', db')"
    using assms(1,2) by (simp add: Execute_def)
  then show False
    using assms(3)
    by (auto simp: Execute_statements_def Let_def bnd_eq_Inr split: if_splits dest: Execute_outputs_code)
qed

end
