(* ===== verification/Sql_Loop.thy ===== *)
theory Sql_Loop
  imports Sql_Procedure
begin

text \<open>
  The rest of \<^verbatim>\<open>MySqlModule/MysqlQuery.cpp\<close>: the task packs, their queue, the SQL thread
  \<^verbatim>\<open>MysqlLoop\<close> and what it runs. The state \<open>sql_sys\<close> holds the singleton, its queue, lock and
  condition variable,
  the function-static \<^verbatim>\<open>ProcedureHelper\<close> of \<^verbatim>\<open>ExecuteProcedure\<close> (\<open>None\<close> before its first
  call), the connection, the memory and the state \<open>'w\<close> the callbacks work on. \<open>ss_freed\<close> records
  what the loop deletes.
\<close>

section \<open>Data\<close>

type_synonym ('db, 'w) SqlCallBack = "QueryResult \<Rightarrow> 'db \<Rightarrow> mem \<Rightarrow> 'w \<Rightarrow> (QueryResult \<times> 'db \<times> mem \<times> 'w) result"

text \<open>The union of the two pointers; it is read as a pointer whichever member is active.\<close>

datatype sql_union = UBind "QueryBind option" | UAny "sql_any list option"

fun union_null :: "sql_union \<Rightarrow> bool" where
  "union_null (UBind p) = (p = None)"
| "union_null (UAny p) = (p = None)"

record ('db, 'w) SqlPack =
  pack_type :: SQL_PACK_TYPE
  sentence :: "string option"
  pack_union :: sql_union
  sql_callback :: "('db, 'w) SqlCallBack option"
  paramNums :: BYTE

datatype sql_free = FreeAnyArr "sql_any list" | FreeBind QueryBind | FreePack

record ('db, 'w) sql_sys =
  ss_query :: MyQuery
  ss_queue :: "('db, 'w) SqlPack list"
  ss_mtx :: MutexLock
  ss_cv :: Condition
  ss_helper :: "ProcedureHelper option"
  ss_db :: 'db
  ss_mem :: mem
  ss_world :: 'w
  ss_freed :: "sql_free list"

section \<open>The task queue\<close>

definition PushSqlPack :: "int \<Rightarrow> ('db, 'w) SqlPack \<Rightarrow> ('db, 'w) sql_sys \<Rightarrow> ('db, 'w) sql_sys result" where
  "PushSqlPack t pack S =
     (case mutex_lock t (ss_mtx S) of None \<Rightarrow> Inl Blocked
      | Some m \<Rightarrow>
          (let S1 = S\<lparr>ss_mtx := m, ss_queue := ss_queue S @ [pack]\<rparr>
           in bnd (mutex_unlock t (ss_mtx S1)) (\<lambda>m'. Inr (S1\<lparr>ss_mtx := m'\<rparr>))))"

definition GetSqlPack :: "('db, 'w) sql_sys \<Rightarrow> ('db, 'w) SqlPack option \<times> ('db, 'w) sql_sys" where
  "GetSqlPack S = (case ss_queue S of [] \<Rightarrow> (None, S) | pack # rest \<Rightarrow> (Some pack, S\<lparr>ss_queue := rest\<rparr>))"

section \<open>Running a task\<close>

definition run_callback :: "('db, 'w) SqlPack \<Rightarrow> QueryResult \<Rightarrow> ('db, 'w) sql_sys \<Rightarrow>
    (QueryResult \<times> ('db, 'w) sql_sys) result" where
  "run_callback pack qr S =
     (case sql_callback pack of None \<Rightarrow> Inl BadFunctionCall
      | Some f \<Rightarrow> bnd (f qr (ss_db S) (ss_mem S) (ss_world S)) (\<lambda>(qr', db, mm, w).
          Inr (qr', S\<lparr>ss_db := db, ss_mem := mm, ss_world := w\<rparr>)))"

fun bind_values :: "nat \<Rightarrow> nat \<Rightarrow> sql_any list \<Rightarrow> SqlParam list \<Rightarrow> SqlParam list result" where
  "bind_values 0 i vs ps = Inr ps"
| "bind_values (Suc n) i vs ps =
     (if length ps \<le> i then Inl BufferOverflow
      else if length vs \<le> i then Inl OutOfBounds
      else bind_values n (Suc i) vs (ps[i := (ps ! i)\<lparr>bindValue := vs ! i\<rparr>]))"

definition clear_helper :: "'db mysql_lib \<Rightarrow> ProcedureHelper \<Rightarrow> ('db, 'w) sql_sys \<Rightarrow> ('db, 'w) sql_sys result" where
  "clear_helper L p S = bnd (ph_Clear L p (ss_db S)) (\<lambda>(p', db). Inr (S\<lparr>ss_helper := Some p', ss_db := db\<rparr>))"

definition ExecuteProcedure :: "'db mysql_lib \<Rightarrow> float_lib \<Rightarrow> (string \<Rightarrow> string \<Rightarrow> string) \<Rightarrow> ('db, 'w) SqlPack \<Rightarrow>
    ('db, 'w) sql_sys \<Rightarrow> (bool \<times> ('db, 'w) sql_sys) result" where
  "ExecuteProcedure L F paramlist pack S =
     bnd (case ss_helper S of Some p \<Rightarrow> Inr (p, ss_db S) | None \<Rightarrow> ProcedureHelper_new L (ss_db S)) (\<lambda>(p0, db0).
     bnd (Prepare L paramlist (sentence pack) p0 (ss_query S) db0) (\<lambda>(code, p1, q1, db1).
       let S1 = S\<lparr>ss_query := q1, ss_db := db1, ss_helper := Some p1\<rparr>
       in if code \<noteq> 0 then bnd (clear_helper L p1 S1) (\<lambda>S2. Inr (False, S2))
          else
            bnd (case pack_union pack of
                   UAny (Some vs) \<Rightarrow> bind_values (unat (paramNums pack)) 0 vs (parameters p1)
                 | UAny None \<Rightarrow> (if paramNums pack = 0 then Inr (parameters p1) else Inl NullDeref)
                 | UBind _ \<Rightarrow> Inl Undefined) (\<lambda>ps.
            bnd (Execute L F (p1\<lparr>parameters := ps\<rparr>) q1 db1) (\<lambda>(code, p2, q2, db2).
              let S2 = S1\<lparr>ss_query := q2, ss_db := db2, ss_helper := Some p2\<rparr>
              in if code \<noteq> 0 then bnd (clear_helper L p2 S2) (\<lambda>S3. Inr (False, S3))
                 else
                   bnd (run_callback pack (ph_qr p2) S2) (\<lambda>(qr, S3).
                   bnd (clear_helper L (p2\<lparr>ph_qr := qr\<rparr>) S3) (\<lambda>S4. Inr (True, S4)))))))"

text \<open>The local query result is released when its block is left.\<close>

definition ExecuteSentence :: "'db mysql_lib \<Rightarrow> float_lib \<Rightarrow> (string \<Rightarrow> string \<Rightarrow> string) \<Rightarrow>
    ('db, 'w) SqlPack option \<Rightarrow> ('db, 'w) sql_sys \<Rightarrow> ('db, 'w) sql_sys result" where
  "ExecuteSentence L F paramlist packp S =
     (case packp of None \<Rightarrow> Inr S
      | Some pack \<Rightarrow>
        (case pack_type pack of
           SQL_COMMON_TYPE \<Rightarrow>
             bnd (ExecuteSQL L (sentence pack) (Some QueryResult_new) (ss_query S) (ss_db S)) (\<lambda>(code, qro, q1, db1).
               let S1 = S\<lparr>ss_query := q1, ss_db := db1\<rparr>
               in bnd (if code \<noteq> 0 then Inr (the qro, S1) else run_callback pack (the qro) S1) (\<lambda>(qr, S2).
                  bnd (qr_Release L qr (ss_db S2)) (\<lambda>db2. Inr (S2\<lparr>ss_db := db2\<rparr>))))
         | SQL_STMT_TYPE \<Rightarrow>
             (case pack_union pack of
                UBind (Some b) \<Rightarrow>
                  bnd (ExecuteStmt L (sentence pack) QueryResult_new (to_Arguments b) (ss_query S) (ss_db S))
                    (\<lambda>(code, qr, q1, db1).
                      let S1 = S\<lparr>ss_query := q1, ss_db := db1\<rparr>
                      in bnd (if code \<noteq> 0 then Inr (qr, S1) else run_callback pack qr S1) (\<lambda>(qr, S2).
                         bnd (qr_Release L qr (ss_db S2)) (\<lambda>db2. Inr (S2\<lparr>ss_db := db2\<rparr>))))
              | UBind None \<Rightarrow> Inl NullDeref
              | UAny _ \<Rightarrow> Inl Undefined)
         | SQL_PROCEDURE_TYPE \<Rightarrow>
             bnd (ExecuteProcedure L F paramlist pack S) (\<lambda>(_, S1). Inr S1)))"

section \<open>The SQL thread\<close>

text \<open>
  The release of a pack. The \<^verbatim>\<open>else\<close> belongs to the inner \<^verbatim>\<open>if\<close>: it is reached for a
  procedure whose pointer is null, and then has nothing to delete.
\<close>

definition release_pack :: "('db, 'w) SqlPack \<Rightarrow> sql_free list" where
  "release_pack pack =
     (if pack_type pack = SQL_PROCEDURE_TYPE then
        (case pack_union pack of
           UAny (Some vs) \<Rightarrow> [FreeAnyArr vs]
         | UBind (Some b) \<Rightarrow> [FreeAnyArr []]
         | _ \<Rightarrow> [])
      else []) @ [FreePack]"

text \<open>The inner loop; the lock is held, so the queue holds at most \<open>fuel\<close> packs.\<close>

fun sql_drain :: "'db mysql_lib \<Rightarrow> float_lib \<Rightarrow> (string \<Rightarrow> string \<Rightarrow> string) \<Rightarrow> nat \<Rightarrow> ('db, 'w) sql_sys \<Rightarrow>
    ('db, 'w) sql_sys result option" where
  "sql_drain L F pl fuel S =
     (if ss_queue S = [] then Some (Inr S)
      else case fuel of 0 \<Rightarrow> None
      | Suc n \<Rightarrow>
        (case GetSqlPack S of
           (None, S1) \<Rightarrow> Some (Inr S1)
         | (Some pack, S1) \<Rightarrow>
             if union_null (pack_union pack) then sql_drain L F pl n S1
             else (case ExecuteSentence L F pl (Some pack) S1 of
                     Inl e \<Rightarrow> Some (Inl e)
                   | Inr S2 \<Rightarrow> sql_drain L F pl n (S2\<lparr>ss_freed := ss_freed S2 @ release_pack pack\<rparr>))))"

declare sql_drain.simps [simp del]

text \<open>
  One turn of the outer loop: lock, wait for a task, drain, unlock at the end of the block.
  With an empty queue the condition variable puts the thread to sleep with the lock free.
\<close>

definition MysqlLoop_turn :: "'db mysql_lib \<Rightarrow> float_lib \<Rightarrow> (string \<Rightarrow> string \<Rightarrow> string) \<Rightarrow> int \<Rightarrow> ('db, 'w) sql_sys \<Rightarrow>
    ('db, 'w) sql_sys result option" where
  "MysqlLoop_turn L F pl t S =
     (case mutex_lock t (ss_mtx S) of None \<Rightarrow> Some (Inl Blocked)
      | Some m \<Rightarrow>
          if ss_queue S = [] then Some (Inr S)
          else (case sql_drain L F pl (length (ss_queue S)) (S\<lparr>ss_mtx := m\<rparr>) of
                  None \<Rightarrow> None
                | Some r \<Rightarrow> Some (bnd r (\<lambda>S1. bnd (mutex_unlock t (ss_mtx S1)) (\<lambda>m'. Inr (S1\<lparr>ss_mtx := m'\<rparr>))))))"

text \<open>
  \<^verbatim>\<open>MysqlLoop\<close>: between two turns the other threads push a batch of packs. The exit flag is
  tested before every turn.
\<close>

fun MysqlLoop :: "'db mysql_lib \<Rightarrow> float_lib \<Rightarrow> (string \<Rightarrow> string \<Rightarrow> string) \<Rightarrow> int \<Rightarrow> ('db, 'w) SqlPack list list \<Rightarrow>
    ('db, 'w) sql_sys \<Rightarrow> ('db, 'w) sql_sys result option" where
  "MysqlLoop L F pl t [] S = Some (Inr S)"
| "MysqlLoop L F pl t (batch # batches) S =
     (if sql_exitFlag (ss_query S) then Some (Inr S)
      else case MysqlLoop_turn L F pl t (S\<lparr>ss_queue := ss_queue S @ batch\<rparr>) of
             None \<Rightarrow> None
           | Some (Inl e) \<Rightarrow> Some (Inl e)
           | Some (Inr S1) \<Rightarrow> MysqlLoop L F pl t batches S1)"

section \<open>Facts\<close>

lemma PushSqlPack_ok:
  assumes "mutex_ok (ss_mtx S)" "mx_owner (ss_mtx S) = None"
  shows "PushSqlPack t pack S = Inr (S\<lparr>ss_queue := ss_queue S @ [pack]\<rparr>)"
proof -
  obtain m where m: "mutex_lock t (ss_mtx S) = Some m" using assms(2) by (simp add: mutex_lock_def)
  then show ?thesis using mutex_lock_unlock [OF assms(1) m] by (simp add: PushSqlPack_def)
qed

lemma run_callback_frame:
  "run_callback pack qr S = Inr (qr', S') \<Longrightarrow> ss_queue S' = ss_queue S \<and> ss_mtx S' = ss_mtx S \<and>
    ss_freed S' = ss_freed S \<and> ss_query S' = ss_query S"
  by (auto simp: run_callback_def bnd_eq_Inr split: option.splits)

lemma clear_helper_frame:
  "clear_helper L p S = Inr S' \<Longrightarrow> ss_queue S' = ss_queue S \<and> ss_mtx S' = ss_mtx S \<and>
    ss_freed S' = ss_freed S \<and> ss_query S' = ss_query S"
  by (auto simp: clear_helper_def bnd_eq_Inr)

lemma ExecuteProcedure_frame:
  "ExecuteProcedure L F pl pack S = Inr (b, S') \<Longrightarrow> ss_queue S' = ss_queue S \<and> ss_mtx S' = ss_mtx S \<and>
    ss_freed S' = ss_freed S"
  by (auto simp: ExecuteProcedure_def Let_def bnd_eq_Inr split: if_splits
      dest!: clear_helper_frame run_callback_frame)

lemma ExecuteSentence_frame:
  "ExecuteSentence L F pl pk S = Inr S' \<Longrightarrow> ss_queue S' = ss_queue S \<and> ss_mtx S' = ss_mtx S \<and>
    ss_freed S' = ss_freed S"
  by (auto simp: ExecuteSentence_def Let_def bnd_eq_Inr
      split: option.splits SQL_PACK_TYPE.splits sql_union.splits if_splits
      dest!: ExecuteProcedure_frame run_callback_frame)

text \<open>The drain always ends, and runs the packs in the order of the queue.\<close>

fun run_packs :: "'db mysql_lib \<Rightarrow> float_lib \<Rightarrow> (string \<Rightarrow> string \<Rightarrow> string) \<Rightarrow> ('db, 'w) SqlPack list \<Rightarrow>
    ('db, 'w) sql_sys \<Rightarrow> ('db, 'w) sql_sys result" where
  "run_packs L F pl [] S = Inr S"
| "run_packs L F pl (pack # ps) S =
     (let S1 = S\<lparr>ss_queue := ps\<rparr>
      in if union_null (pack_union pack) then run_packs L F pl ps S1
         else bnd (ExecuteSentence L F pl (Some pack) S1) (\<lambda>S2.
                run_packs L F pl ps (S2\<lparr>ss_freed := ss_freed S2 @ release_pack pack\<rparr>)))"

lemma sql_drain_runs:
  "ss_queue S = ps \<Longrightarrow> length ps \<le> fuel \<Longrightarrow> sql_drain L F pl fuel S = Some (run_packs L F pl ps S)"
proof (induction ps arbitrary: S fuel)
  case Nil
  then show ?case by (simp add: sql_drain.simps)
next
  case (Cons pack ps)
  then obtain n where fuel: "fuel = Suc n" "length ps \<le> n" by (cases fuel) auto
  let ?S = "S\<lparr>ss_queue := ps\<rparr>"
  note unfold = sql_drain.simps [of L F pl "Suc n" S]
  have get: "GetSqlPack S = (Some pack, ?S)" using Cons.prems(1) by (simp add: GetSqlPack_def)
  show ?case
  proof (cases "union_null (pack_union pack)")
    case True
    then show ?thesis
      using Cons.IH [of ?S n] Cons.prems(1) fuel get by (simp add: unfold)
  next
    case False
    show ?thesis
    proof (cases "ExecuteSentence L F pl (Some pack) ?S")
      case (Inl e)
      then show ?thesis using False Cons.prems(1) fuel get by (simp add: unfold)
    next
      case (Inr S2)
      then have "ss_queue S2 = ps" using ExecuteSentence_frame by fastforce
      then show ?thesis
        using False Cons.IH [of "S2\<lparr>ss_freed := ss_freed S2 @ release_pack pack\<rparr>" n] Inr Cons.prems(1) fuel get
        by (simp add: unfold)
    qed
  qed
qed

lemma run_packs_frame:
  "run_packs L F pl ps S = Inr S' \<Longrightarrow> ss_mtx S' = ss_mtx S \<and> (ps \<noteq> [] \<longrightarrow> ss_queue S' = []) \<and>
    (\<exists>ev. ss_freed S' = ss_freed S @ ev \<and> (\<forall>b. FreeBind b \<notin> set ev))"
proof (induction ps arbitrary: S)
  case (Cons pack ps)
  show ?case
  proof (cases "union_null (pack_union pack)")
    case True
    then show ?thesis using Cons.IH [of "S\<lparr>ss_queue := ps\<rparr>"] Cons.prems by (cases ps) auto
  next
    case False
    then obtain S2 where S2: "ExecuteSentence L F pl (Some pack) (S\<lparr>ss_queue := ps\<rparr>) = Inr S2"
      "run_packs L F pl ps (S2\<lparr>ss_freed := ss_freed S2 @ release_pack pack\<rparr>) = Inr S'"
      using Cons.prems by (auto simp: bnd_eq_Inr)
    have "\<forall>b. FreeBind b \<notin> set (release_pack pack)"
      by (auto simp: release_pack_def split: sql_union.split option.split)
    then show ?thesis
      using Cons.IH [OF S2(2)] ExecuteSentence_frame [OF S2(1)] S2(2) by (cases ps) auto
  qed
qed simp

text \<open>A turn with tasks ends with an empty queue and the lock free again.\<close>

lemma MysqlLoop_turn_runs:
  assumes "mutex_ok (ss_mtx S)" "mx_owner (ss_mtx S) = None" "ss_queue S \<noteq> []"
    "run_packs L F pl (ss_queue S) (S\<lparr>ss_mtx := \<lparr>mx_owner = Some t, holder = t\<rparr>\<rparr>) = Inr S1"
  shows "MysqlLoop_turn L F pl t S = Some (Inr (S1\<lparr>ss_mtx := ss_mtx S\<rparr>))" "ss_queue S1 = []"
proof -
  let ?m = "\<lparr>mx_owner = Some t, holder = t\<rparr>"
  have m: "mutex_lock t (ss_mtx S) = Some ?m"
    using assms(2) by (cases "ss_mtx S") (simp add: mutex_lock_def assignHolder_def)
  have "sql_drain L F pl (length (ss_queue S)) (S\<lparr>ss_mtx := ?m\<rparr>) = Some (Inr S1)"
    using sql_drain_runs [of "S\<lparr>ss_mtx := ?m\<rparr>" "ss_queue S"] assms(4) by simp
  moreover have "ss_mtx S1 = ?m" using run_packs_frame [OF assms(4)] by simp
  ultimately show "MysqlLoop_turn L F pl t S = Some (Inr (S1\<lparr>ss_mtx := ss_mtx S\<rparr>))"
    using assms(3) m mutex_lock_unlock [OF assms(1) m] by (simp add: MysqlLoop_turn_def)
  show "ss_queue S1 = []" using run_packs_frame [OF assms(4)] assms(3) by simp
qed

text \<open>
  A procedure with only input parameters whose call returns a result set: \<^verbatim>\<open>Execute\<close> frees the
  set and \<^verbatim>\<open>Clear\<close> frees it again.
\<close>

lemma Execute_Clear_double_free:
  assumes "totalCount p \<le> length (parameters p)"
    "list_all2 (\<lambda>p v. direction p = V_IN \<and> ptype p \<noteq> MYSQL_TYPE_BLOB \<and> AnyValueToString F p = Inr v \<and> v \<noteq> [])
       (take (totalCount p) (parameters p)) vs"
    "ExecuteSQL L (Some (''call '' @ strProc p @ '' ( '' @ join vs @ '' )'')) (Some (ph_qr p)) q db =
      Inr (0, Some r, q1, db1)"
    "qr_res r = Some rs" "qr_stmt r = None" "mysql_free_result L rs db1 = Inr db2"
    "mysql_free_result L rs db2 = Inl DoubleFree"
  shows "bnd (Execute L F p q db) (\<lambda>(code, p', q', db'). ph_Clear L p' db') = Inl DoubleFree"
proof -
  have "qr_Release L r db1 = Inr db2" using assms(4-6) by (simp add: qr_Release_def)
  then have "Execute L F p q db = Inr (0, p\<lparr>ph_qr := r\<rparr>, q1, db2)"
    using Execute_in_only [OF assms(1-3)] by simp
  then show ?thesis using assms(4,7) by (simp add: ph_Clear_def qr_Release_def)
qed

end
