(* ===== verification/Pets.thy ===== *)
theory Pets
  imports Dispatch Sql_Loop
begin

text \<open>
  \<^verbatim>\<open>ObjectModule/Pet.cpp\<close> and \<^verbatim>\<open>PetsManager.cpp\<close>: the message handlers of the game logic and
  the callback of the login query. A handler gets the received block, so that reading past its
  end is a fault; \<open>'w\<close> is the state behind the dispatcher, which no handler changes.
\<close>

section \<open>Parse\<close>

text \<open>\<^verbatim>\<open>std::string::find\<close>: the first occurrence; \<open>None\<close> is \<^verbatim>\<open>npos\<close>.\<close>

fun str_find :: "string \<Rightarrow> string \<Rightarrow> nat option" where
  "str_find pat [] = (if pat = [] then Some 0 else None)"
| "str_find pat (c # cs) = (if prefix pat (c # cs) then Some 0 else map_option Suc (str_find pat cs))"

partial_function (option) parse_loop :: "string \<Rightarrow> string \<Rightarrow> string list \<Rightarrow> string list option" where
  "parse_loop delimiter strs res =
     (case str_find delimiter strs of
        None \<Rightarrow> Some res
      | Some pos \<Rightarrow> parse_loop delimiter (drop (pos + length delimiter) strs) (res @ [take pos strs]))"

text \<open>After the loop control reaches the end of the function: there is no return statement.\<close>

definition Parse :: "string \<Rightarrow> string \<Rightarrow> string list result" where
  "Parse str delimiter =
     (if length str \<le> 1 then Inr []
      else case parse_loop delimiter (str @ delimiter) [] of
             None \<Rightarrow> Inl Diverges
           | Some res \<Rightarrow> Inl MissingReturn)"

section \<open>Pet\<close>

text \<open>
  The casts of the \<^verbatim>\<open>void*\<close> by type are the choice of the member of \<open>u\<close> by the caller; \<open>pick\<close>
  is the thread that \<^verbatim>\<open>notify_one\<close> wakes.
\<close>

definition PrepareSQL :: "(int list \<Rightarrow> int) \<Rightarrow> int \<Rightarrow> SQL_PACK_TYPE \<Rightarrow> string option \<Rightarrow> sql_union \<Rightarrow> nat \<Rightarrow> ('db, 'w) SqlCallBack option \<Rightarrow>
    ('db, 'w) sql_sys \<Rightarrow> ('db, 'w) sql_sys result" where
  "PrepareSQL pick t type sent u bindNums cb S =
     bnd (PushSqlPack t \<lparr>pack_type = type, sentence = sent, pack_union = u, sql_callback = cb,
       paramNums = word_of_nat bindNums\<rparr> S) (\<lambda>S1. Inr (S1\<lparr>ss_cv := cond_notify pick (ss_cv S1)\<rparr>))"

text \<open>\<open>pMsg\<close> is the received block; the string starts after the two protocol bytes.\<close>

definition OnNetLoginMsg :: "BYTE list \<Rightarrow> unit result" where
  "OnNetLoginMsg pMsg =
     bnd (c_str (drop 2 pMsg)) (\<lambda>str.
     bnd (Parse str ''&'') (\<lambda>vecParam.
       if vecParam = [] \<or> length vecParam \<noteq> 2 then Inr () else Inr ()))"

definition mem_long :: "mem \<Rightarrow> mem_addr \<Rightarrow> QWORD" where
  "mem_long mm a = load_le (take 8 (mm a))"

partial_function (option) login_fetch :: "'db mysql_lib \<Rightarrow> QueryBind \<Rightarrow> QueryResult \<Rightarrow> mem_addr \<Rightarrow> 'db \<Rightarrow> mem \<Rightarrow>
    ('db \<times> mem) result option" where
  "login_fetch L bind qr roleID db mm =
     (case FetchResult_bind L bind qr db mm of
        Inl e \<Rightarrow> Some (Inl e)
      | Inr r \<Rightarrow>
          (case r of (code, db1, mm1) \<Rightarrow>
             if code \<noteq> 0 then Some (Inr (db1, mm1))
             else case IsNull bind 0 of
                    Inl e \<Rightarrow> Some (Inl e)
                  | Inr nul \<Rightarrow>
                      if nul \<or> mem_long mm1 roleID = 0 then login_fetch L bind qr roleID db1 mm1
                      else Some (Inr (db1, mm1))))"

datatype login_log = LoginNothing | LoginFailed | LoginSuccess

text \<open>
  \<^verbatim>\<open>roleID\<close> is a local at address \<open>a\<close>; the arrays of the local \<^verbatim>\<open>QueryBind\<close> start with what
  \<^verbatim>\<open>new[]\<close> left there (\<open>jb\<close>, \<open>jl\<close>, \<open>jn\<close>).
\<close>

definition OnMysqlLoginMsg :: "'db mysql_lib \<Rightarrow> mem_addr \<Rightarrow> MYSQL_BIND \<Rightarrow> nat \<Rightarrow> bool \<Rightarrow> QueryResult \<Rightarrow> 'db \<Rightarrow> mem \<Rightarrow>
    (login_log \<times> 'db \<times> mem) result option" where
  "OnMysqlLoginMsg L a jb jl jn qr db mm =
     (if AffectedRows qr \<noteq> 0 then
        (let mm0 = mm(a := replicate 8 0)
         in case BindLong a (QueryBind_new jb jl jn 1) 0 of
              Inl e \<Rightarrow> Some (Inl e)
            | Inr bind \<Rightarrow>
                (case login_fetch L bind qr a db mm0 of
                   None \<Rightarrow> None
                 | Some (Inl e) \<Rightarrow> Some (Inl e)
                 | Some (Inr (db1, mm1)) \<Rightarrow>
                     Some (Inr (if mem_long mm1 a = 0 then LoginFailed else LoginSuccess, db1, mm1))))
      else Some (Inr (LoginNothing, db, mm)))"

definition TESTFUNC :: "QueryResult \<Rightarrow> 'db \<Rightarrow> mem \<Rightarrow> 'w \<Rightarrow> (QueryResult \<times> 'db \<times> mem \<times> 'w) result" where
  "TESTFUNC qr db mm w = Inr (qr, db, mm, w)"

section \<open>PetsManager\<close>

text \<open>
  The handlers read the second protocol byte, at offset 1. The call through the pet pointer
  is a plain function that does not touch the pet, so a null pet is passed like any other.
\<close>

definition OnDispatchLoginMsg :: "DNID \<Rightarrow> BYTE list \<Rightarrow> Pet option \<Rightarrow> 'w \<Rightarrow> (bool \<times> 'w) result" where
  "OnDispatchLoginMsg dnid basemsg pet w =
     bnd (read_byte basemsg 1) (\<lambda>p.
       if p = KKDD_LOGINMSG_LOGIN then bnd (OnNetLoginMsg basemsg) (\<lambda>_. Inr (False, w))
       else if p = KKDD_LOGINMSG_REGISTER then Inr (False, w)
       else if p = KKDD_LOGINMSG_SETINFO then Inr (False, w)
       else if p = KKDD_LOGINMSG_GEITINFO then Inr (False, w)
       else Inr (False, w))"

definition OnDispatchChatMsg :: "DNID \<Rightarrow> BYTE list \<Rightarrow> Pet option \<Rightarrow> 'w \<Rightarrow> (bool \<times> 'w) result" where
  "OnDispatchChatMsg dnid basemsg pet w =
     bnd (read_byte basemsg 1) (\<lambda>p.
       if p = KKDD_CHATMSG_WHISPER then Inr (False, w)
       else if p = KKDD_CHATMSG_BROADCAST then Inr (False, w)
       else if p = KKDD_CHATMSG_SYSTEM then Inr (False, w)
       else if p = KKDD_CHATMSG_ROOM then Inr (False, w)
       else Inr (False, w))"

definition OnDispatchMoveMsg :: "DNID \<Rightarrow> BYTE list \<Rightarrow> Pet option \<Rightarrow> 'w \<Rightarrow> (bool \<times> 'w) result" where
  "OnDispatchMoveMsg dnid basemsg pet w =
     bnd (read_byte basemsg 1) (\<lambda>p.
       if p = KKDD_MOVEMSG_MOVE then Inr (False, w)
       else if p = KKDD_MOVEMSG_POSITION then Inr (False, w)
       else if p = KKDD_MOVEMSG_JUMP then Inr (False, w)
       else Inr (False, w))"

definition PetsManager_Run :: "CObjectManager \<Rightarrow> bool \<times> CObjectManager" where
  "PetsManager_Run m = Run m"

text \<open>\<^verbatim>\<open>std::bind\<close> of a handler drops its answer.\<close>

definition as_callback :: "(DNID \<Rightarrow> BYTE list \<Rightarrow> Pet option \<Rightarrow> 'w \<Rightarrow> (bool \<times> 'w) result) \<Rightarrow> 'w DispatcherCallBack" where
  "as_callback h dnid msg pet w = bnd (h dnid msg pet w) (\<lambda>(_, w'). Inr w')"

section \<open>Facts about Parse\<close>

fun split_at :: "char \<Rightarrow> string \<Rightarrow> string list" where
  "split_at d [] = [[]]"
| "split_at d (c # cs) =
     (if c = d then [] # split_at d cs
      else case split_at d cs of [] \<Rightarrow> [[c]] | w # ws \<Rightarrow> (c # w) # ws)"

fun join_with :: "char \<Rightarrow> string list \<Rightarrow> string" where
  "join_with d [] = []"
| "join_with d [w] = w"
| "join_with d (w # ws) = w @ d # join_with d ws"

lemma split_at_not_Nil: "split_at d s \<noteq> []"
  by (induction s) (auto split: list.split)

lemma join_split_at: "join_with d (split_at d s) = s"
proof (induction s)
  case (Cons c cs)
  obtain w ws where "split_at d cs = w # ws" using split_at_not_Nil by (cases "split_at d cs") auto
  then show ?case using Cons by (cases ws) auto
qed simp

lemma split_at_free: "list_all (\<lambda>w. d \<notin> set w) (split_at d s)"
  by (induction s) (auto split: list.split)

lemma str_find_single: "str_find [d] s = memchr s d"
  by (induction s) auto

lemma split_at_memchr:
  "split_at d s = (case memchr s d of None \<Rightarrow> [s] | Some i \<Rightarrow> take i s # split_at d (drop (Suc i) s))"
proof (induction s)
  case (Cons c cs)
  then show ?case by (auto split: option.split)
qed simp

lemma memchr_snoc: "memchr (s @ [d]) d = (case memchr s d of None \<Rightarrow> Some (length s) | Some i \<Rightarrow> Some i)"
  by (induction s) (auto split: option.split)

lemma parse_loop_split:
  "parse_loop [d] (s @ [d]) res = Some (res @ split_at d s)"
proof (induction "length s" arbitrary: s res rule: less_induct)
  case less
  show ?case
  proof (cases "memchr s d")
    case None
    have "parse_loop [d] (s @ [d]) res = parse_loop [d] [] (res @ [s])"
      by (subst parse_loop.simps) (simp add: str_find_single memchr_snoc None)
    also have "\<dots> = Some (res @ [s])" by (subst parse_loop.simps) simp
    finally show ?thesis by (subst split_at_memchr) (simp add: None)
  next
    case (Some i)
    have i: "i < length s" using memchr_Some [OF Some] by simp
    have "parse_loop [d] (s @ [d]) res = parse_loop [d] (drop (Suc i) s @ [d]) (res @ [take i s])"
      using i by (subst parse_loop.simps) (simp add: str_find_single memchr_snoc Some)
    also have "\<dots> = Some ((res @ [take i s]) @ split_at d (drop (Suc i) s))"
      using i by (intro less) simp
    finally show ?thesis by (subst split_at_memchr) (simp add: Some)
  qed
qed

lemma Parse_cases: "Parse str [d] = (if length str \<le> 1 then Inr [] else Inl MissingReturn)"
  by (simp add: Parse_def parse_loop_split)

lemma OnNetLoginMsg_cases:
  "OnNetLoginMsg msg = (case c_str (drop 2 msg) of
     Inl e \<Rightarrow> Inl e | Inr s \<Rightarrow> if length s \<le> 1 then Inr () else Inl MissingReturn)"
  by (simp add: OnNetLoginMsg_def Parse_cases split: sum.split)

section \<open>Facts about the handlers\<close>

lemma OnDispatchChatMsg_ok: "2 \<le> length msg \<Longrightarrow> OnDispatchChatMsg dnid msg pet w = Inr (False, w)"
  by (simp add: OnDispatchChatMsg_def read_byte_def)

lemma OnDispatchMoveMsg_ok: "2 \<le> length msg \<Longrightarrow> OnDispatchMoveMsg dnid msg pet w = Inr (False, w)"
  by (simp add: OnDispatchMoveMsg_def read_byte_def)

lemma OnDispatchLoginMsg_other:
  "2 \<le> length msg \<Longrightarrow> msg ! 1 \<noteq> KKDD_LOGINMSG_LOGIN \<Longrightarrow> OnDispatchLoginMsg dnid msg pet w = Inr (False, w)"
  by (simp add: OnDispatchLoginMsg_def read_byte_def)

lemma handler_short:
  assumes "length msg \<le> 1"
  shows "OnDispatchLoginMsg dnid msg pet w = Inl OutOfBounds" "OnDispatchChatMsg dnid msg pet w = Inl OutOfBounds"
    "OnDispatchMoveMsg dnid msg pet w = Inl OutOfBounds"
  using assms
  by (simp_all add: OnDispatchLoginMsg_def OnDispatchChatMsg_def OnDispatchMoveMsg_def read_byte_def)

section \<open>Facts about the login query\<close>

text \<open>
  When every fetch either ends the rows or stores the next row's id, the callback reports
  success exactly when some row has an id other than 0 (with the null flag clear).
\<close>

definition row_source :: "'db mysql_lib \<Rightarrow> nat \<Rightarrow> mem_addr \<Rightarrow> ('db \<Rightarrow> QWORD list) \<Rightarrow> bool" where
  "row_source L st a ids \<longleftrightarrow>
     (\<forall>binds db. mysql_stmt_bind_result L st binds db = (0, db)) \<and>
     (\<forall>db mm. ids db = [] \<longrightarrow> (\<exists>code db1. mysql_stmt_fetch L st db mm = (code, db1, mm) \<and> code \<noteq> 0)) \<and>
     (\<forall>db mm i is. ids db = i # is \<longrightarrow>
        (\<exists>db1 mm1. mysql_stmt_fetch L st db mm = (0, db1, mm1) \<and> ids db1 = is \<and> mem_long mm1 a = i))"

lemma login_fetch_rows:
  assumes src: "row_source L st a ids" and qr: "qr_stmt qr = Some st"
    "num_fields qr = ucast (m_paramNumbers bind)" and nul: "IsNull bind 0 = Inr False"
  shows "\<exists>db' mm'. login_fetch L bind qr a db mm = Some (Inr (db', mm')) \<and>
    mem_long mm' a = (case filter (\<lambda>i. i \<noteq> 0) (ids db) of i # _ \<Rightarrow> i
      | [] \<Rightarrow> if ids db = [] then mem_long mm a else 0)"
proof (induction "ids db" arbitrary: db mm)
  case Nil
  obtain code db1 where f: "mysql_stmt_fetch L st db mm = (code, db1, mm)" "code \<noteq> 0"
    using src Nil unfolding row_source_def by metis
  have "FetchResult_bind L bind qr db mm = Inr (code, db1, mm)"
    using src qr f by (simp add: FetchResult_bind_def GetParamNumCounter_def row_source_def)
  then show ?case using f Nil by (subst login_fetch.simps) (simp flip: Nil)
next
  case (Cons i "is")
  obtain db1 mm1 where f: "mysql_stmt_fetch L st db mm = (0, db1, mm1)" "ids db1 = is" "mem_long mm1 a = i"
    using src Cons.hyps(2) unfolding row_source_def by metis
  have fr: "FetchResult_bind L bind qr db mm = Inr (0, db1, mm1)"
    using src qr f by (simp add: FetchResult_bind_def GetParamNumCounter_def row_source_def)
  show ?case
  proof (cases "i = 0")
    case True
    then have "login_fetch L bind qr a db mm = login_fetch L bind qr a db1 mm1"
      using fr nul f by (subst login_fetch.simps) simp
    then show ?thesis
      using Cons.hyps(1) [of db1 mm1] f True by (auto simp flip: Cons.hyps(2) split: list.splits)
  next
    case False
    then have "login_fetch L bind qr a db mm = Some (Inr (db1, mm1))"
      using fr nul f by (subst login_fetch.simps) simp
    then show ?thesis using f False by (simp flip: Cons.hyps(2))
  qed
qed

end
