(* ===== verification/Packet_Codec.thy ===== *)
theory Packet_Codec
  imports Dispatch
begin

text \<open>
  \<^verbatim>\<open>codec.hpp\<close>/\<^verbatim>\<open>.cpp\<close>: the decoder that cuts a connection's input buffer into packets and
  pushes them to the dispatcher, and the encoder \<^verbatim>\<open>SendMsg\<close>. The loop of \<^verbatim>\<open>onMessage\<close> is a
  partial function: \<open>None\<close> is a call that does not return. It is shown to return on every
  well-formed buffer and to refine \<open>decode\<close>, the frame format read off a byte list.
\<close>

section \<open>The connection's context\<close>

text \<open>What the server stores in the \<^verbatim>\<open>boost::any\<close> of a connection, and the two casts.\<close>

datatype conn_any = AnyEmpty | AnyDnid DNID | AnyPet Pet

definition any_cast_pet :: "conn_any \<Rightarrow> Pet option" where
  "any_cast_pet a = (case a of AnyPet p \<Rightarrow> Some p | _ \<Rightarrow> None)"

definition any_cast_dnid :: "conn_any \<Rightarrow> DNID result" where
  "any_cast_dnid a = (case a of AnyDnid d \<Rightarrow> Inr d | _ \<Rightarrow> Inl BadAnyCast)"

section \<open>Codec\<close>

record 'w Codec =
  m_dispc :: "'w Dispatcher option"

definition InitCodecMem :: "int \<Rightarrow> 'w Codec \<Rightarrow> 'w Codec" where
  "InitCodecMem now c = c\<lparr>m_dispc := Some (Dispatcher_new now)\<rparr>"

definition Codec_new :: "int \<Rightarrow> 'w Codec" where
  "Codec_new now = InitCodecMem now \<lparr>m_dispc = None\<rparr>"

definition GetDispatcher :: "'w Codec \<Rightarrow> 'w Dispatcher option" where
  "GetDispatcher c = m_dispc c"

text \<open>The packet of one frame: \<^verbatim>\<open>malloc(len)\<close> and a copy of the bytes.\<close>

definition make_pack :: "conn_any \<Rightarrow> BYTE list \<Rightarrow> SPacket result" where
  "make_pack ctx data =
     (case any_cast_pet ctx of
        Some pet \<Rightarrow> Inr \<lparr>pack_dnid = GetDnid pet, pack_buffer = Some data, pack_context = Some pet\<rparr>
      | None \<Rightarrow> bnd (any_cast_dnid ctx) (\<lambda>dnid.
          Inr \<lparr>pack_dnid = dnid, pack_buffer = Some data, pack_context = None\<rparr>))"

text \<open>The length in the header: four bytes in network order as a signed 32-bit number.\<close>

definition header_len :: "BYTE list \<Rightarrow> int" where
  "header_len header = sint (networkToHost32 (load_le header :: DWORD))"

definition push_to :: "int \<Rightarrow> SPacket \<Rightarrow> 'w Codec \<Rightarrow> 'w Codec result" where
  "push_to t pack c =
     (case m_dispc c of None \<Rightarrow> Inl NullDeref
      | Some d \<Rightarrow> bnd (PushPack t pack d) (\<lambda>d'. Inr (c\<lparr>m_dispc := Some d'\<rparr>)))"

partial_function (option) onMessage_loop ::
    "int \<Rightarrow> conn_any \<Rightarrow> Buffer \<Rightarrow> 'w Codec \<Rightarrow> tcp_call list \<Rightarrow> (Buffer \<times> 'w Codec \<times> tcp_call list) result option" where
  "onMessage_loop t ctx buf c calls =
     (if readableBytes buf \<ge> HEADMSGLEN then
        (let len = header_len (buf_range buf (peek buf) (peek buf + 4))
         in if len > 65536 \<or> len < 0 then Some (Inr (buf, c, calls @ [CallShutdown]))
            else if readableBytes buf \<ge> nat len + HEADMSGLEN then
              (case retrieve buf HEADMSGLEN of
                 Inl e \<Rightarrow> Some (Inl e)
               | Inr buf1 \<Rightarrow>
                   (let data = buf_range buf1 (peek buf1) (peek buf1 + nat len)
                    in case make_pack ctx data of
                         Inl e \<Rightarrow> Some (Inl e)
                       | Inr pack \<Rightarrow>
                           (case push_to t pack c of
                              Inl e \<Rightarrow> Some (Inl e)
                            | Inr c1 \<Rightarrow>
                                (case retrieve buf1 (nat len) of
                                   Inl e \<Rightarrow> Some (Inl e)
                                 | Inr buf2 \<Rightarrow> onMessage_loop t ctx buf2 c1 calls))))
            else Some (Inr (buf, c, calls)))
      else Some (Inr (buf, c, calls)))"

definition onMessage :: "int \<Rightarrow> (conn_any, 'f) TcpConnection \<Rightarrow> Buffer \<Rightarrow> Timestamp \<Rightarrow> 'w Codec \<Rightarrow>
    (Buffer \<times> 'w Codec \<times> tcp_call list) result option" where
  "onMessage t conn buf receiveTime c = onMessage_loop t (getContext conn) buf c []"

text \<open>\<open>data\<close> is the block the pointer points to, \<open>sz\<close> the number of bytes to send.\<close>

definition SendMsg :: "BYTE list \<Rightarrow> DWORD \<Rightarrow> tcp_call list result" where
  "SendMsg data sz =
     bnd (Buffer_new kInitialSize) (\<lambda>buf.
     bnd (get_field data 0 (unat sz)) (\<lambda>bytes.
     bnd (Buffer_append buf bytes) (\<lambda>buf.
       let be32 = hostToNetwork32 sz
       in bnd (prepend buf (store_le 4 be32)) (\<lambda>buf. Inr [CallSend (content buf)]))))"

section \<open>The frame format\<close>

text \<open>
  The frames at the front of a byte sequence, the bytes left over, and whether decoding stopped
  at a length outside \<open>0..65536\<close>.
\<close>

function decode :: "BYTE list \<Rightarrow> BYTE list list \<times> BYTE list \<times> bool" where
  "decode bs =
     (if length bs < 4 then ([], bs, False)
      else let len = header_len (take 4 bs)
           in if len > 65536 \<or> len < 0 then ([], bs, True)
              else if length bs < 4 + nat len then ([], bs, False)
              else (case decode (drop (4 + nat len) bs) of
                      (fs, rest, bad) \<Rightarrow> (take (nat len) (drop 4 bs) # fs, rest, bad)))"
  by pat_completeness auto
termination by (relation "measure length") auto

declare decode.simps [simp del]

definition encode :: "BYTE list \<Rightarrow> BYTE list" where
  "encode data = store_le 4 (hostToNetwork32 (word_of_nat (length data))) @ data"

lemma decode_short: "length bs < 4 \<Longrightarrow> decode bs = ([], bs, False)"
  by (subst decode.simps) simp

lemma decode_bad: "4 \<le> length bs \<Longrightarrow> header_len (take 4 bs) > 65536 \<or> header_len (take 4 bs) < 0 \<Longrightarrow>
    decode bs = ([], bs, True)"
  by (subst decode.simps) auto

lemma decode_wait:
  assumes "4 \<le> length bs" "0 \<le> header_len (take 4 bs)" "header_len (take 4 bs) \<le> 65536"
    "length bs < 4 + nat (header_len (take 4 bs))"
  shows "decode bs = ([], bs, False)"
  using assms by (subst decode.simps) (simp add: Let_def)

lemma decode_frame:
  assumes "0 \<le> header_len (take 4 bs)" "header_len (take 4 bs) \<le> 65536"
    "4 + nat (header_len (take 4 bs)) \<le> length bs"
  shows "decode bs = (case decode (drop (4 + nat (header_len (take 4 bs))) bs) of (fs, rest, bad) \<Rightarrow>
    (take (nat (header_len (take 4 bs))) (drop 4 bs) # fs, rest, bad))"
  using assms by (subst decode.simps) (simp add: Let_def)

lemma header_len_encode:
  assumes "length data \<le> 65536"
  shows "header_len (take 4 (encode data @ rest)) = int (length data)"
proof -
  have "sint (word_of_int (int (length data)) :: DWORD) = int (length data)"
    using assms by (subst int_word_sint) simp
  then show ?thesis
    by (simp add: header_len_def encode_def)
qed

lemma decode_Cons:
  assumes "decode bs = (f # fs, rest, bad)"
  shows "4 \<le> length bs" "0 \<le> header_len (take 4 bs)" "header_len (take 4 bs) \<le> 65536"
    "4 + nat (header_len (take 4 bs)) \<le> length bs"
  using assms by (subst (asm) decode.simps, auto simp: Let_def not_less split: if_splits)+

lemma decode_encode:
  assumes "length data \<le> 65536"
  shows "decode (encode data @ rest) = (case decode rest of (fs, r, bad) \<Rightarrow> (data # fs, r, bad))"
proof -
  note len = header_len_encode [OF assms, of rest]
  have "length (encode data) = 4 + length data" by (simp add: encode_def)
  moreover have "drop 4 (encode data @ rest) = data @ rest" by (simp add: encode_def)
  ultimately show ?thesis
    using decode_frame [of "encode data @ rest"] len assms by simp
qed

text \<open>Cutting the stream at another place changes nothing: decoding goes on where it stopped.\<close>

lemma decode_append:
  "decode a = (fs, r, False) \<Longrightarrow> decode (a @ b) = (case decode (r @ b) of (fs', r', bad) \<Rightarrow> (fs @ fs', r', bad))"
proof (induction a arbitrary: fs r rule: decode.induct)
  case (1 a)
  let ?n = "header_len (take 4 a)"
  consider "length a < 4" | "4 \<le> length a" "?n > 65536 \<or> ?n < 0"
    | "4 \<le> length a" "0 \<le> ?n" "?n \<le> 65536" "length a < 4 + nat ?n"
    | "4 \<le> length a" "0 \<le> ?n" "?n \<le> 65536" "4 + nat ?n \<le> length a"
    by linarith
  then show ?case
  proof cases
    case 1
    then show ?thesis using "1.prems" by (simp add: decode_short split: prod.splits)
  next
    case 2
    then show ?thesis using "1.prems" by (simp add: decode_bad)
  next
    case 3
    then show ?thesis using "1.prems" by (simp add: decode_wait split: prod.splits)
  next
    case 4
    have take4: "take 4 (a @ b) = take 4 a" using 4(1) by simp
    obtain fs1 where d1: "decode (drop (4 + nat ?n) a) = (fs1, r, False)"
      and fs: "fs = take (nat ?n) (drop 4 a) # fs1"
      using "1.prems" 4 by (simp add: decode_frame split: prod.splits)
    have nb: "\<not> (65536 < ?n \<or> ?n < 0)" "\<not> length a < 4" "\<not> length a < 4 + nat ?n" using 4 by auto
    have IH: "decode (drop (4 + nat ?n) a @ b) = (case decode (r @ b) of (fs', r', bad) \<Rightarrow> (fs1 @ fs', r', bad))"
      using "1.IH" [OF nb(2) refl nb(1) nb(3) d1] .
    have "decode (a @ b) = (case decode (drop (4 + nat ?n) a @ b) of (fs', r', bad) \<Rightarrow>
        (take (nat ?n) (drop 4 a) # fs', r', bad))"
      using decode_frame [of "a @ b"] 4 by (simp add: take4)
    then show ?thesis by (simp add: IH fs split: prod.splits)
  qed
qed

section \<open>The decoder refines the format\<close>

text \<open>The dispatcher the codec owns, with its lock free.\<close>

definition codec_ok :: "'w Codec \<Rightarrow> bool" where
  "codec_ok c \<longleftrightarrow> (case m_dispc c of None \<Rightarrow> False | Some d \<Rightarrow> lock_free d)"

definition codec_queue :: "'w Codec \<Rightarrow> SPacket list" where
  "codec_queue c = (case m_dispc c of None \<Rightarrow> [] | Some d \<Rightarrow> m_MsgQueue d)"

definition with_queue :: "SPacket list \<Rightarrow> 'w Codec \<Rightarrow> 'w Codec" where
  "with_queue q c = c\<lparr>m_dispc := map_option (\<lambda>d. d\<lparr>m_MsgQueue := q\<rparr>) (m_dispc c)\<rparr>"

lemma with_queue_simps [simp]:
  "codec_ok (with_queue q c) = codec_ok c" "with_queue q (with_queue q' c) = with_queue q c"
  "codec_ok c \<Longrightarrow> codec_queue (with_queue q c) = q" "with_queue (codec_queue c) c = c"
  by (cases "m_dispc c"; simp add: with_queue_def codec_ok_def codec_queue_def)+

lemma push_to_ok: "codec_ok c \<Longrightarrow> push_to t pack c = Inr (with_queue (codec_queue c @ [pack]) c)"
  by (auto simp: push_to_def codec_ok_def PushPack_ok with_queue_def codec_queue_def split: option.splits)

text \<open>The packet a context gives to a frame; a context that is neither a pet nor an id has none.\<close>

definition ctx_pack :: "conn_any \<Rightarrow> BYTE list \<Rightarrow> SPacket" where
  "ctx_pack ctx data =
     (case ctx of AnyPet p \<Rightarrow> \<lparr>pack_dnid = GetDnid p, pack_buffer = Some data, pack_context = Some p\<rparr>
      | AnyDnid d \<Rightarrow> \<lparr>pack_dnid = d, pack_buffer = Some data, pack_context = None\<rparr>
      | AnyEmpty \<Rightarrow> \<lparr>pack_dnid = 0, pack_buffer = None, pack_context = None\<rparr>)"

lemma make_pack_ok: "ctx \<noteq> AnyEmpty \<Longrightarrow> make_pack ctx data = Inr (ctx_pack ctx data)"
  by (cases ctx) (simp_all add: make_pack_def any_cast_pet_def any_cast_dnid_def ctx_pack_def)

lemma make_pack_empty: "make_pack AnyEmpty data = Inl BadAnyCast"
  by (simp add: make_pack_def any_cast_pet_def any_cast_dnid_def)

lemma header_front: "buffer_ok b \<Longrightarrow> 4 \<le> readableBytes b \<Longrightarrow> buf_range b (peek b) (peek b + 4) = take 4 (content b)"
  by (rule buf_range_content)

text \<open>One turn of the loop on a complete frame.\<close>

lemma onMessage_frame:
  assumes ok: "buffer_ok b" "codec_ok c" and len: "0 \<le> header_len (take 4 (content b))"
    "header_len (take 4 (content b)) \<le> 65536" "4 + nat (header_len (take 4 (content b))) \<le> length (content b)"
    and ctx: "ctx \<noteq> AnyEmpty"
  shows "\<exists>b'. buffer_ok b' \<and> content b' = drop (4 + nat (header_len (take 4 (content b)))) (content b) \<and>
    onMessage_loop t ctx b c calls = onMessage_loop t ctx b'
      (with_queue (codec_queue c @ [ctx_pack ctx (take (nat (header_len (take 4 (content b)))) (drop 4 (content b)))]) c) calls"
proof -
  let ?n = "header_len (take 4 (content b))"
  have avail: "4 + nat ?n \<le> readableBytes b" using len ok by simp
  obtain b1 b2 where b: "retrieve b 4 = Inr b1" "buffer_ok b1"
    "buf_range b1 (peek b1) (peek b1 + nat ?n) = take (nat ?n) (drop 4 (content b))"
    "retrieve b1 (nat ?n) = Inr b2" "buffer_ok b2" "content b2 = drop (4 + nat ?n) (content b)"
    using nbuf.header_body [OF ok(1) avail] by blast
  have "onMessage_loop t ctx b c calls = onMessage_loop t ctx b2
      (with_queue (codec_queue c @ [ctx_pack ctx (take (nat ?n) (drop 4 (content b)))]) c) calls"
    using avail len b make_pack_ok [OF ctx] push_to_ok [OF ok(2)] header_front [OF ok(1)]
    by (subst onMessage_loop.simps) (simp add: HEADMSGLEN_def Let_def)
  then show ?thesis using b by blast
qed

lemma onMessage_loop_decode:
  assumes "buffer_ok b" "codec_ok c" "ctx \<noteq> AnyEmpty" "decode (content b) = (fs, rest, bad)"
  shows "\<exists>b'. onMessage_loop t ctx b c calls =
      Some (Inr (b', with_queue (codec_queue c @ map (ctx_pack ctx) fs) c,
        if bad then calls @ [CallShutdown] else calls)) \<and> buffer_ok b' \<and> content b' = rest"
  using assms(1,2,4)
proof (induction "length (content b)" arbitrary: b c fs rule: less_induct)
  case less
  let ?n = "header_len (take 4 (content b))"
  note ok = less.prems(1,2)
  have avail: "readableBytes b = length (content b)" using ok by simp
  consider "length (content b) < 4" | "4 \<le> length (content b)" "?n > 65536 \<or> ?n < 0"
    | "4 \<le> length (content b)" "0 \<le> ?n" "?n \<le> 65536" "length (content b) < 4 + nat ?n"
    | "4 \<le> length (content b)" "0 \<le> ?n" "?n \<le> 65536" "4 + nat ?n \<le> length (content b)"
    by linarith
  then show ?case
  proof cases
    case 1
    then have "onMessage_loop t ctx b c calls = Some (Inr (b, c, calls))"
      using avail by (subst onMessage_loop.simps) (simp add: HEADMSGLEN_def)
    then show ?thesis using 1 less.prems by (auto simp: decode_short)
  next
    case 2
    then have "onMessage_loop t ctx b c calls = Some (Inr (b, c, calls @ [CallShutdown]))"
      using avail header_front [OF ok(1)]
      by (subst onMessage_loop.simps) (simp add: HEADMSGLEN_def Let_def)
    then show ?thesis using 2 less.prems by (auto simp: decode_bad)
  next
    case 3
    then have "onMessage_loop t ctx b c calls = Some (Inr (b, c, calls))"
      using avail header_front [OF ok(1)]
      by (subst onMessage_loop.simps) (simp add: HEADMSGLEN_def Let_def)
    then show ?thesis using 3 less.prems by (auto simp: decode_wait)
  next
    case 4
    let ?f = "take (nat ?n) (drop 4 (content b))"
    let ?c = "with_queue (codec_queue c @ [ctx_pack ctx ?f]) c"
    obtain b' where b': "buffer_ok b'" "content b' = drop (4 + nat ?n) (content b)"
      "onMessage_loop t ctx b c calls = onMessage_loop t ctx b' ?c calls"
      using onMessage_frame [OF ok 4(2-4) assms(3)] by blast
    obtain fs1 where d1: "decode (content b') = (fs1, rest, bad)" and fs: "fs = ?f # fs1"
      using less.prems(3) 4 b'(2) by (auto simp: decode_frame split: prod.splits)
    have "length (content b') < length (content b)" using b'(2) 4(1) by simp
    then show ?thesis
      using less.hyps [of b' ?c fs1] b' d1 fs ok(2) by auto
  qed
qed

lemma onMessage_empty_ctx:
  assumes "buffer_ok b" "decode (content b) = (f # fs, rest, bad)"
  shows "onMessage_loop t AnyEmpty b c calls = Some (Inl BadAnyCast)"
proof -
  let ?n = "header_len (take 4 (content b))"
  have d: "4 \<le> length (content b)" "0 \<le> ?n" "?n \<le> 65536" "4 + nat ?n \<le> length (content b)"
    using decode_Cons [OF assms(2)] by auto
  obtain b1 where "retrieve b 4 = Inr b1" using retrieve_ok [OF assms(1), of 4] d(1) assms(1) by auto
  then show ?thesis
    using d assms(1) header_front [OF assms(1)]
    by (subst onMessage_loop.simps) (auto simp: HEADMSGLEN_def Let_def make_pack_empty)
qed

section \<open>One turn of the decoder\<close>

text \<open>
  The body of the loop of \<^verbatim>\<open>onMessage\<close>: it ends the loop, or it pushes the packet of one frame.
  The I/O threads interleave at the granularity of these turns.
\<close>

datatype 'w om_turn = OmStop "tcp_call list" | OmPushed SPacket Buffer "'w Codec"

definition onMessage_turn :: "int \<Rightarrow> conn_any \<Rightarrow> Buffer \<Rightarrow> 'w Codec \<Rightarrow> 'w om_turn result" where
  "onMessage_turn t ctx buf c =
     (if readableBytes buf \<ge> HEADMSGLEN then
        (let len = header_len (buf_range buf (peek buf) (peek buf + 4))
         in if len > 65536 \<or> len < 0 then Inr (OmStop [CallShutdown])
            else if readableBytes buf \<ge> nat len + HEADMSGLEN then
              bnd (retrieve buf HEADMSGLEN) (\<lambda>buf1.
              bnd (make_pack ctx (buf_range buf1 (peek buf1) (peek buf1 + nat len))) (\<lambda>pack.
              bnd (push_to t pack c) (\<lambda>c1.
              bnd (retrieve buf1 (nat len)) (\<lambda>buf2. Inr (OmPushed pack buf2 c1)))))
            else Inr (OmStop []))
      else Inr (OmStop []))"

lemma onMessage_loop_turn:
  "onMessage_loop t ctx buf c calls =
     (case onMessage_turn t ctx buf c of
        Inl e \<Rightarrow> Some (Inl e)
      | Inr (OmStop cs) \<Rightarrow> Some (Inr (buf, c, calls @ cs))
      | Inr (OmPushed pack buf' c') \<Rightarrow> onMessage_loop t ctx buf' c' calls)"
  by (subst onMessage_loop.simps)
    (simp add: onMessage_turn_def Let_def bnd_def split: sum.splits)

lemma onMessage_turn_pushed:
  assumes "buffer_ok b" "codec_ok c" "onMessage_turn t ctx b c = Inr (OmPushed pack b' c')"
  shows "buffer_ok b' \<and> c' = with_queue (codec_queue c @ [pack]) c \<and> ctx \<noteq> AnyEmpty \<and>
    (\<exists>data. pack = ctx_pack ctx data \<and>
      0 \<le> header_len (take 4 (content b)) \<and> header_len (take 4 (content b)) \<le> 65536 \<and>
      4 + nat (header_len (take 4 (content b))) \<le> length (content b) \<and>
      data = take (nat (header_len (take 4 (content b)))) (drop 4 (content b)) \<and>
      content b' = drop (4 + nat (header_len (take 4 (content b)))) (content b))"
proof -
  let ?n = "header_len (take 4 (content b))"
  have long: "4 \<le> readableBytes b"
    using assms(3) by (simp add: onMessage_turn_def HEADMSGLEN_def split: if_splits)
  note hd = header_front [OF assms(1) long]
  have len: "0 \<le> ?n" "?n \<le> 65536" "4 + nat ?n \<le> readableBytes b"
    using assms(3) long by (auto simp: onMessage_turn_def HEADMSGLEN_def Let_def hd split: if_splits)
  obtain b1 b2 where b: "retrieve b 4 = Inr b1" "buffer_ok b1"
    "buf_range b1 (peek b1) (peek b1 + nat ?n) = take (nat ?n) (drop 4 (content b))"
    "retrieve b1 (nat ?n) = Inr b2" "buffer_ok b2" "content b2 = drop (4 + nat ?n) (content b)"
    using nbuf.header_body [OF assms(1) len(3)] by blast
  have ctx: "ctx \<noteq> AnyEmpty"
    using assms(3) long len b by (auto simp: onMessage_turn_def HEADMSGLEN_def Let_def hd make_pack_empty)
  show ?thesis
    using assms long len b ctx make_pack_ok [OF ctx] push_to_ok [OF assms(2)]
    by (auto simp: onMessage_turn_def HEADMSGLEN_def Let_def hd)
qed

lemma onMessage_turn_frame:
  assumes ok: "buffer_ok b" "codec_ok c" and ctx: "ctx \<noteq> AnyEmpty" and fs: "decode (content b) = (f # fs, rest, bad)"
  shows "\<exists>b'. onMessage_turn t ctx b c = Inr (OmPushed (ctx_pack ctx f) b' (with_queue (codec_queue c @ [ctx_pack ctx f]) c)) \<and>
    decode (content b') = (fs, rest, bad)"
proof -
  let ?n = "header_len (take 4 (content b))"
  note d = decode_Cons [OF fs]
  have avail: "4 + nat ?n \<le> readableBytes b" "4 \<le> readableBytes b" using d ok by simp_all
  obtain b1 b2 where b: "retrieve b 4 = Inr b1" "buffer_ok b1"
    "buf_range b1 (peek b1) (peek b1 + nat ?n) = take (nat ?n) (drop 4 (content b))"
    "retrieve b1 (nat ?n) = Inr b2" "buffer_ok b2" "content b2 = drop (4 + nat ?n) (content b)"
    using nbuf.header_body [OF ok(1) avail(1)] by blast
  have "f = take (nat ?n) (drop 4 (content b))" "decode (content b2) = (fs, rest, bad)"
    using fs decode_frame [OF d(2-4)] b(6) by (auto split: prod.splits)
  then show ?thesis
    using avail d b make_pack_ok [OF ctx] push_to_ok [OF ok(2)] header_front [OF ok(1) avail(2)]
    by (auto simp: onMessage_turn_def HEADMSGLEN_def Let_def)
qed

lemma onMessage_turn_total:
  assumes "buffer_ok b" "codec_ok c" "ctx \<noteq> AnyEmpty"
  shows "\<exists>r. onMessage_turn t ctx b c = Inr r"
proof (cases "onMessage_turn t ctx b c")
  case (Inl e)
  then have "onMessage_loop t ctx b c [] = Some (Inl e)" by (subst onMessage_loop_turn) simp
  then show ?thesis
    using onMessage_loop_decode [OF assms, of _ _ _ t "[]"] by (cases "decode (content b)") fastforce
qed auto

lemma decode_nothing: "decode bs = ([], rest, bad) \<Longrightarrow> rest = bs"
  by (subst (asm) decode.simps) (auto simp: Let_def split: if_splits prod.splits)

text \<open>
  \<open>consumed fs all rest\<close>: of the stream \<open>all\<close> the frames \<open>fs\<close> have been cut off and \<open>rest\<close> is
  left, whatever bytes follow.
\<close>

definition prefix_frames :: "BYTE list list \<Rightarrow> BYTE list list \<times> BYTE list \<times> bool \<Rightarrow> BYTE list list \<times> BYTE list \<times> bool" where
  "prefix_frames fs x = (case x of (gs, r, bad) \<Rightarrow> (fs @ gs, r, bad))"

definition consumed :: "BYTE list list \<Rightarrow> BYTE list \<Rightarrow> BYTE list \<Rightarrow> bool" where
  "consumed fs whole rest \<longleftrightarrow> (\<exists>pre. whole = pre @ rest \<and> (\<forall>more. decode (pre @ more) = prefix_frames fs (decode more)))"

lemma consumed_none: "consumed [] bs bs"
  unfolding consumed_def by (rule exI [of _ "[]"]) (simp add: prefix_frames_def split: prod.split)

lemma consumed_more: "consumed fs whole rest \<Longrightarrow> consumed fs (whole @ bs) (rest @ bs)"
  by (auto simp: consumed_def)

lemma consumed_decode: "consumed fs whole rest \<Longrightarrow> decode whole = prefix_frames fs (decode rest)"
  by (auto simp: consumed_def)

lemma decode_pushed:
  assumes "0 \<le> header_len (take 4 bs)" "header_len (take 4 bs) \<le> 65536" "4 + nat (header_len (take 4 bs)) \<le> length bs"
    "data = take (nat (header_len (take 4 bs))) (drop 4 bs)" "rest = drop (4 + nat (header_len (take 4 bs))) bs"
  shows "\<exists>pre. bs = pre @ rest \<and> (\<forall>more. decode (pre @ more) = (case decode more of (fs, r, bad) \<Rightarrow> (data # fs, r, bad)))"
proof -
  let ?n = "header_len (take 4 bs)" and ?pre = "take (4 + nat (header_len (take 4 bs))) bs"
  have len: "length ?pre = 4 + nat ?n" using assms(3) by simp
  have hd: "take 4 (?pre @ more) = take 4 bs" for more using len by (simp add: min_def)
  have body: "take (nat ?n) (drop 4 (?pre @ more)) = data" for more
    using assms(3,4) by (simp add: drop_take)
  have "decode (?pre @ more) = (case decode more of (fs, r, bad) \<Rightarrow> (data # fs, r, bad))" for more
    using decode_frame [of "?pre @ more", unfolded hd, OF assms(1,2)] len body [of more] by simp
  then show ?thesis using assms(5) append_take_drop_id [of "4 + nat ?n" bs] by metis
qed

lemma consumed_frame:
  assumes "consumed fs whole bs" "0 \<le> header_len (take 4 bs)" "header_len (take 4 bs) \<le> 65536"
    "4 + nat (header_len (take 4 bs)) \<le> length bs"
    "data = take (nat (header_len (take 4 bs))) (drop 4 bs)" "rest = drop (4 + nat (header_len (take 4 bs))) bs"
  shows "consumed (fs @ [data]) whole rest"
proof -
  obtain pre where pre: "whole = pre @ bs" "\<And>more. decode (pre @ more) = prefix_frames fs (decode more)"
    using assms(1) by (auto simp: consumed_def)
  obtain pre' where pre': "bs = pre' @ rest"
    "\<And>more. decode (pre' @ more) = (case decode more of (gs, r, bad) \<Rightarrow> (data # gs, r, bad))"
    using decode_pushed [OF assms(2-6)] by blast
  have "decode ((pre @ pre') @ more) = prefix_frames (fs @ [data]) (decode more)" for more
    using pre(2) [of "pre' @ more"] pre'(2) [of more] by (simp add: prefix_frames_def split: prod.splits)
  then show ?thesis using pre(1) pre'(1) unfolding consumed_def by (metis append_assoc)
qed

section \<open>The encoder\<close>

lemma SendMsg_ok:
  assumes "unat sz \<le> length data"
  shows "SendMsg data sz = Inr [CallSend (encode (take (unat sz) data))]"
proof -
  obtain b0 where b0: "Buffer_new kInitialSize = Inr b0" "buffer_ok b0" "content b0 = []"
    "readerIndex b0 = kCheapPrepend"
    using Buffer_new_default by blast
  let ?d = "take (unat sz) data"
  have len: "length ?d = unat sz" using assms by simp
  have "unat sz < 2 ^ LENGTH(32)" by (rule unsigned_less)
  moreover have "writerIndex b0 = kCheapPrepend"
    using b0 length_content [OF b0(2)] buffer_okD(1) [OF b0(2)] by (simp add: buffer_sizes [OF b0(2)])
  ultimately have "writerIndex b0 + length ?d \<le> vec_max"
    by (simp add: len kCheapPrepend_def vec_max_def)
  then obtain b1 where b1: "Buffer_append b0 ?d = Inr b1" "buffer_ok b1" "content b1 = ?d"
    using Buffer_append_ok [OF b0(2)] b0(3) by fastforce
  have "length (store_le 4 (hostToNetwork32 sz)) \<le> readerIndex b1"
    using Buffer_append_reader [OF b1(1)] b0(4) by (simp add: kCheapPrepend_def)
  then obtain b2 where "prepend b1 (store_le 4 (hostToNetwork32 sz)) = Inr b2"
    "content b2 = store_le 4 (hostToNetwork32 sz) @ ?d"
    using prepend_ok [OF b1(2)] b1(3) by fastforce
  then show ?thesis
    using b0 b1 assms len by (simp add: SendMsg_def get_field_def encode_def)
qed

text \<open>The receiving side gets the message back, and refuses one that is too long.\<close>

lemma header_len_send:
  "header_len (take 4 (encode (take (unat sz) data))) = sint sz" if "unat sz \<le> length data" for sz :: DWORD
  using that by (simp add: header_len_def encode_def)

end
