(* ===== verification/Pets_Server.thy ===== *)
theory Pets_Server
  imports Pets Packet_Codec
begin

unbundle bit_operations_syntax

text \<open>
  \<^verbatim>\<open>PetsServer.hpp\<close>/\<^verbatim>\<open>.cpp\<close> and \<^verbatim>\<open>main.cpp\<close>: the table of connections, the connection ids,
  start-up and the frame loop of the logic thread. The state behind the dispatcher is the
  object manager. Readings of the clocks, of \<^verbatim>\<open>time()\<close> and \<^verbatim>\<open>rand()\<close> are arguments; a
  \<^verbatim>\<open>TcpConnectionPtr\<close> is the number of its connection.
\<close>

section \<open>Data\<close>

record Connection =
  sc_conn :: nat
  sc_ttl :: int

definition Connection_default :: Connection where
  "Connection_default = \<lparr>sc_conn = 0, sc_ttl = 3\<rparr>"

definition Connection_of :: "nat \<Rightarrow> Connection" where
  "Connection_of c = \<lparr>sc_conn = c, sc_ttl = 3\<rparr>"

text \<open>The callbacks the server installs.\<close>

datatype srv_cb = CbOnConnection | CbOnMessage | CbCheckAlive

record PetsServer =
  connections :: "(DNID, Connection) std_map"
  codec :: "CObjectManager Codec option"
  server :: "srv_cb TcpServer"
  m_servertimer :: CELLTimestamp
  m_mainThread :: bool
  m_petsManager :: CObjectManager
  m_mysqlThread :: bool
  m_sqlIns :: bool
  m_exitFlag :: bool
  srv_heap :: obj_heap

text \<open>\<open>srv\<close> is the constructed \<^verbatim>\<open>TcpServer\<close>; the manager starts empty.\<close>

definition PetsServer_new :: "int \<Rightarrow> srv_cb TcpServer \<Rightarrow> int \<Rightarrow> PetsServer" where
  "PetsServer_new now srv maxsize =
     \<lparr>connections = [], codec = Some (Codec_new now), server = srv, m_servertimer = CELLTimestamp_new now,
      m_mainThread = False, m_petsManager = \<lparr>m_lMaxSize = maxsize, m_ObjectMap = [], m_RemoveList = []\<rparr>,
      m_mysqlThread = False, m_sqlIns = False, m_exitFlag = False, srv_heap = []\<rparr>"

text \<open>
  The destructor joins the threads it started, then deletes the codec. \<open>main_done\<close> and \<open>sql_done\<close>
  say whether the functions of the two threads have returned: \<^verbatim>\<open>join\<close> waits for them.
\<close>

definition PetsServer_dtor :: "bool \<Rightarrow> bool \<Rightarrow> PetsServer \<Rightarrow> PetsServer result" where
  "PetsServer_dtor main_done sql_done s =
     bnd (if m_mainThread s then (if main_done then Inr (s\<lparr>m_mainThread := False\<rparr>) else Inl Blocked) else Inr s) (\<lambda>s1.
     bnd (if m_mysqlThread s1 then (if sql_done then Inr (s1\<lparr>m_mysqlThread := False\<rparr>) else Inl Blocked) else Inr s1) (\<lambda>s2.
       Inr (if codec s2 \<noteq> None then s2\<lparr>codec := None\<rparr> else s2)))"

section \<open>Connection ids\<close>

text \<open>\<^verbatim>\<open>(time(NULL) << 16) | (rand() % 0XFFFF)\<close>, computed in 64 bits and stored in 32.\<close>

definition dnid_of :: "int \<Rightarrow> nat \<Rightarrow> DNID" where
  "dnid_of now r = ucast (push_bit 16 (word_of_int now :: 64 word) OR word_of_nat (r mod 0xFFFF))"

partial_function (option) greate_loop :: "(DNID, Connection) std_map \<Rightarrow> (nat \<Rightarrow> int) \<Rightarrow> (nat \<Rightarrow> nat) \<Rightarrow> nat \<Rightarrow> DNID option" where
  "greate_loop conns tm rnd i =
     (let dnid = dnid_of (tm i) (rnd i)
      in if map_find conns dnid = None then Some dnid else greate_loop conns tm rnd (Suc i))"

definition GreateDnid :: "(nat \<Rightarrow> int) \<Rightarrow> (nat \<Rightarrow> nat) \<Rightarrow> PetsServer \<Rightarrow> DNID option" where
  "GreateDnid tm rnd s = greate_loop (connections s) tm rnd 0"

section \<open>Connections\<close>

text \<open>\<open>c\<close> is the number of the connection \<open>conn\<close>; the new context is part of the result.\<close>

definition onConnection :: "(nat \<Rightarrow> int) \<Rightarrow> (nat \<Rightarrow> nat) \<Rightarrow> nat \<Rightarrow> (conn_any, 'f) TcpConnection \<Rightarrow> PetsServer \<Rightarrow>
    ((conn_any, 'f) TcpConnection \<times> PetsServer) result" where
  "onConnection tm rnd c conn s =
     (if connected conn then
        (case GreateDnid tm rnd s of None \<Rightarrow> Inl Diverges
         | Some dnid \<Rightarrow>
             (let scon = Connection_default; conn1 = setContext (AnyDnid dnid) conn;
                  scon1 = scon\<lparr>sc_conn := c, sc_ttl := 3\<rparr>
              in Inr (conn1, s\<lparr>connections := map_put (connections s) dnid scon1\<rparr>)))
      else
        (case any_cast_pet (getContext conn) of
           Some pet \<Rightarrow>
             bnd (RealseObject (srv_heap s) (m_petsManager s) (GetDnid pet)) (\<lambda>(_, h, m).
               Inr (conn, s\<lparr>srv_heap := h, m_petsManager := m,
                          connections := map_erase (connections s) (GetDnid pet)\<rparr>))
         | None \<Rightarrow>
             bnd (any_cast_dnid (getContext conn)) (\<lambda>dnid.
               Inr (conn, s\<lparr>connections := map_erase (connections s) dnid\<rparr>))))"

definition checkAlive :: "PetsServer \<Rightarrow> PetsServer" where
  "checkAlive s = s"

section \<open>Start-up\<close>

text \<open>
  \<open>set_threads\<close> and \<open>start_srv\<close> are \<^verbatim>\<open>TcpServer::setThreadNum\<close> and \<^verbatim>\<open>start\<close>, whose bodies are
  in the library. The singleton of the query module always exists.
\<close>

definition bind_handlers :: "CObjectManager Dispatcher \<Rightarrow> CObjectManager Dispatcher" where
  "bind_handlers d =
     BindCB (ucast KKDD_LOGIN_MESSAGE_BASE) (Some (as_callback OnDispatchLoginMsg))
       (BindCB (ucast KKDD_MOVE_MESSAGE_BASE) (Some (as_callback OnDispatchMoveMsg))
         (BindCB (ucast KKDD_CHAT_MESSAGE_BASE) (Some (as_callback OnDispatchChatMsg)) d))"

definition InitServer :: "'db mysql_lib \<Rightarrow> (int \<Rightarrow> srv_cb TcpServer \<Rightarrow> srv_cb TcpServer) \<Rightarrow> PetsServer \<Rightarrow>
    ('db, 'v) sql_sys \<Rightarrow> (bool \<times> PetsServer \<times> ('db, 'v) sql_sys) result" where
  "InitServer L set_threads s S =
     (let s1 = s\<lparr>server := set_threads 20 (setMessageCallback (Some CbOnMessage)
                  (setConnectionCallback (Some CbOnConnection) (server s)))\<rparr>
      in case codec s1 of None \<Rightarrow> Inl NullDeref
         | Some c \<Rightarrow>
           (case GetDispatcher c of None \<Rightarrow> Inl NullDeref
            | Some d \<Rightarrow>
              (let s2 = s1\<lparr>codec := Some (c\<lparr>m_dispc := Some (bind_handlers d)\<rparr>), m_sqlIns := True\<rparr>
               in bnd (Init L DB_USERNAME DB_PASSWORD DB_IPADDRESS DB_DBNAME DB_IPPORT (ss_query S) (ss_db S))
                    (\<lambda>(ok, q, db). Inr (ok, s2, S\<lparr>ss_query := q, ss_db := db\<rparr>)))))"

text \<open>The callback of the login statement as the SQL thread calls it.\<close>

definition login_callback :: "'db mysql_lib \<Rightarrow> mem_addr \<Rightarrow> MYSQL_BIND \<Rightarrow> nat \<Rightarrow> bool \<Rightarrow> ('db, 'v) SqlCallBack" where
  "login_callback L a jb jl jn qr db mm v =
     (case OnMysqlLoginMsg L a jb jl jn qr db mm of
        None \<Rightarrow> Inl Diverges
      | Some r \<Rightarrow> bnd r (\<lambda>(_, db1, mm1). Inr (qr, db1, mm1, v)))"

text \<open>
  \<^verbatim>\<open>start\<close>, with the two tasks it queues at the end. \<open>lit\<close> gives the addresses of the two
  string literals that are bound, \<open>jb\<close>, \<open>jl\<close>, \<open>jn\<close> the uninitialised contents of a bind. The
  address 0 of the event loop is the null pointer; \<open>run_every\<close> is \<^verbatim>\<open>EventLoop::runEvery\<close>, whose
  body is in the library, on the state \<open>'l\<close> of that loop.
\<close>

definition start :: "'db mysql_lib \<Rightarrow> (int \<Rightarrow> srv_cb TcpServer \<Rightarrow> srv_cb TcpServer) \<Rightarrow>
    (srv_cb TcpServer \<Rightarrow> srv_cb TcpServer) \<Rightarrow> (int \<Rightarrow> srv_cb \<Rightarrow> 'l \<Rightarrow> TimerId \<times> 'l) \<Rightarrow> (int list \<Rightarrow> int) \<Rightarrow> int \<Rightarrow>
    mem_addr \<times> mem_addr \<Rightarrow> MYSQL_BIND \<Rightarrow> nat \<Rightarrow> bool \<Rightarrow> ('db, 'v) SqlCallBack \<Rightarrow>
    PetsServer \<Rightarrow> ('db, 'v) sql_sys \<Rightarrow> 'l \<Rightarrow> (bool \<times> PetsServer \<times> ('db, 'v) sql_sys \<times> 'l) result" where
  "start L set_threads start_srv run_every pick t lit jb jl jn login_cb s S lp =
     bnd (InitServer L set_threads s S) (\<lambda>(ok, s1, S1).
       if \<not> ok then Inr (False, s1, S1, lp)
       else
         (let s2 = s1\<lparr>m_mainThread := True, m_mysqlThread := True, server := start_srv (server s1)\<rparr>
          in if ts_getLoop (server s2) = 0 then Inr (False, s2, S1, lp)
             else
               (let lp1 = snd (run_every 2 CbCheckAlive lp)
                in bnd (BindString (fst lit) 4 (QueryBind_new jb jl jn 2) 0) (\<lambda>b1.
                   bnd (BindString (snd lit) 9 b1 1) (\<lambda>b2.
                   bnd (PrepareSQL pick t SQL_STMT_TYPE (Some SELECT_PETSLOGIN_STMT) (UBind (Some b2)) 2
                          (Some login_cb) S1) (\<lambda>S2.
                   bnd (PrepareSQL pick t SQL_PROCEDURE_TYPE (Some ''p_test'')
                          (UAny (Some [SAStr (Some ''TEST''), SAEmpty])) 2 (Some TESTFUNC) S2) (\<lambda>S3.
                     Inr (True, s2, S3, lp1))))))))"

text \<open>\<^verbatim>\<open>main\<close>: the exit code, given whether the server started; otherwise the event loop runs.\<close>

definition main_exit :: "bool \<Rightarrow> int" where
  "main_exit started = (if \<not> started then -1 else 0)"

section \<open>The frame loop\<close>

definition FRAME_MS :: int where
  "FRAME_MS = 1000 div SERVER_FPS"

text \<open>What one frame reads from outside: three clock readings, the dispatcher's clock, arrivals.\<close>

record frame_env =
  fe_begin :: int
  fe_use :: int
  fe_update :: int
  fe_clock :: "nat \<Rightarrow> int"
  fe_arr :: "SPacket list list"

text \<open>The result of a frame: the milliseconds it sleeps (\<open>None\<close> when it is late) and the new state.\<close>

definition server_frame :: "(real \<Rightarrow> real) \<Rightarrow> int \<Rightarrow> frame_env \<Rightarrow> PetsServer \<Rightarrow> (int option \<times> PetsServer) result" where
  "server_frame rnd t e s =
     bnd (if getElapsedTimeMilliSec rnd (fe_begin e) (m_servertimer s) \<le> of_int FRAME_MS then
            (case codec s of None \<Rightarrow> Inl NullDeref
             | Some c \<Rightarrow>
               (case GetDispatcher c of None \<Rightarrow> Inl NullDeref
                | Some d \<Rightarrow>
                    bnd (DispatchMsg t (fe_clock e) (fe_arr e) d (m_petsManager s)) (\<lambda>r.
                      Inr (s\<lparr>codec := Some (c\<lparr>m_dispc := Some (dr_disp r)\<rparr>),
                             m_petsManager := snd (PetsManager_Run (dr_world r))\<rparr>))))
          else Inr s) (\<lambda>s1.
       let iUseTime = trunc (getElapsedTimeMilliSec rnd (fe_use e) (m_servertimer s1));
           sleep = (if iUseTime > FRAME_MS then None else Some (FRAME_MS - iUseTime))
       in Inr (sleep, s1\<lparr>m_servertimer := ct_update (fe_update e) (m_servertimer s1)\<rparr>))"

text \<open>The loop over a list of frames; leaving it reaches the end of a function that returns bool.\<close>

fun ServerLoop :: "(real \<Rightarrow> real) \<Rightarrow> int \<Rightarrow> frame_env list \<Rightarrow> PetsServer \<Rightarrow> PetsServer result" where
  "ServerLoop rnd t [] s = Inr s"
| "ServerLoop rnd t (e # es) s =
     (if m_exitFlag s then Inl MissingReturn
      else bnd (server_frame rnd t e s) (\<lambda>(_, s1). ServerLoop rnd t es s1))"

section \<open>Facts about connection ids\<close>

lemma dnid_of_bits:
  "take_bit 16 (dnid_of now r) = word_of_nat (r mod 0xFFFF)"
  "drop_bit 16 (dnid_of now r) = take_bit 16 (word_of_int now)"
proof -
  have r: "r mod 0xFFFF < 2 ^ 16" using mod_less_divisor [of "0xFFFF" r] by simp
  have "take_bit 16 (r mod 0xFFFF) = r mod 0xFFFF" using r by (simp add: take_bit_nat_eq_self_iff)
  then have low: "bit (r mod 0xFFFF) n \<Longrightarrow> n < 16" for n by (metis bit_take_bit_iff)
  show "take_bit 16 (dnid_of now r) = word_of_nat (r mod 0xFFFF)"
    using low by (auto simp: dnid_of_def bit_eq_iff bit_simps)
  show "drop_bit 16 (dnid_of now r) = take_bit 16 (word_of_int now)"
    using low by (auto simp: dnid_of_def bit_eq_iff bit_simps)
qed

text \<open>The low half is never \<open>0xFFFF\<close>, so the id of a pet that was never given one cannot occur.\<close>

lemma dnid_of_not_default: "dnid_of now r \<noteq> 0xFFFFFFFF"
proof
  assume "dnid_of now r = 0xFFFFFFFF"
  then have "(word_of_nat (r mod 0xFFFF) :: DNID) = 0xFFFF"
    using dnid_of_bits(1) [of now r] by (simp add: take_bit_eq_mask mask_numeral)
  then have "unat (word_of_nat (r mod 0xFFFF) :: DNID) = 0xFFFF" by simp
  moreover have "unat (word_of_nat (r mod 0xFFFF) :: DNID) = r mod 0xFFFF"
    using mod_less_divisor [of "0xFFFF" r] by (simp add: unat_of_nat)
  ultimately show False using mod_less_divisor [of "0xFFFF" r] by simp
qed

lemma greate_loop_finds:
  "map_find conns (dnid_of (tm (i + k)) (rnd (i + k))) = None \<Longrightarrow>
    \<exists>j \<le> k. greate_loop conns tm rnd i = Some (dnid_of (tm (i + j)) (rnd (i + j)))"
proof (induction k arbitrary: i)
  case 0
  then show ?case by (subst greate_loop.simps) simp
next
  case (Suc k)
  show ?case
  proof (cases "map_find conns (dnid_of (tm i) (rnd i)) = None")
    case True
    then show ?thesis by (intro exI [of _ 0], subst greate_loop.simps) simp
  next
    case False
    then have "greate_loop conns tm rnd i = greate_loop conns tm rnd (Suc i)"
      by (subst greate_loop.simps) (auto simp: Let_def)
    then show ?thesis using Suc.IH [of "Suc i"] Suc.prems by fastforce
  qed
qed

lemma greate_loop_result:
  "greate_loop conns tm rnd i = Some d \<Longrightarrow>
    map_find conns d = None \<and> (\<exists>j. d = dnid_of (tm j) (rnd j))"
proof (induction rule: greate_loop.raw_induct [rotated 1, consumes 1])
  case (1 greate_loop' conns tm rnd i d)
  then show ?case by (auto simp: Let_def split: if_splits)
qed

section \<open>Facts about connections\<close>

lemma onConnection_up:
  assumes "map_ok (connections s)" "connected conn" "onConnection tm rnd c conn s = Inr (conn', s')"
  shows "\<exists>d. getContext conn' = AnyDnid d \<and> map_find (connections s) d = None \<and> d \<noteq> 0xFFFFFFFF \<and>
    s' = s\<lparr>connections := map_put (connections s) d (Connection_of c)\<rparr>"
  using assms greate_loop_result [of "connections s" tm rnd 0] dnid_of_not_default
  by (auto simp: onConnection_def GreateDnid_def getContext_def setContext_def Connection_default_def
      Connection_of_def split: option.splits)

lemma onConnection_down_dnid:
  assumes "\<not> connected conn" "getContext conn = AnyDnid d"
  shows "onConnection tm rnd c conn s = Inr (conn, s\<lparr>connections := map_erase (connections s) d\<rparr>)"
  using assms by (simp add: onConnection_def any_cast_pet_def any_cast_dnid_def)

text \<open>No code stores an id in a pet, so a pet's id is the default one and is never in the table.\<close>

lemma onConnection_down_pet:
  assumes "\<not> connected conn" "getContext conn = AnyPet p" "GetDnid p = 0xFFFFFFFF"
    "map_find (connections s) 0xFFFFFFFF = None" "map_find (m_ObjectMap (m_petsManager s)) 0xFFFFFFFF = None"
  shows "onConnection tm rnd c conn s = Inr (conn, s)"
  using assms
  by (simp add: onConnection_def any_cast_pet_def RealseObject_absent map_erase_absent)

section \<open>Start-up binds the handlers\<close>

lemma bind_handlers_find:
  "map_find (m_callBackMap (bind_handlers d)) (ucast k) =
    (if k = KKDD_LOGIN_MESSAGE_BASE then Some (Some (as_callback OnDispatchLoginMsg))
     else if k = KKDD_MOVE_MESSAGE_BASE then Some (Some (as_callback OnDispatchMoveMsg))
     else if k = KKDD_CHAT_MESSAGE_BASE then Some (Some (as_callback OnDispatchChatMsg))
     else map_find (m_callBackMap d) (ucast k))" for k :: BYTE
proof -
  have inj: "(ucast a :: MESSAGETYPE) = ucast b \<longleftrightarrow> a = b" for a b :: BYTE
  proof -
    have "ucast (ucast x :: MESSAGETYPE) = x" for x :: BYTE
      by (rule bit_word_eqI) (simp add: bit_simps)
    then show ?thesis by metis
  qed
  show ?thesis by (simp add: bind_handlers_def BindCB_def inj)
qed

text \<open>The effect of the bound handlers on a packet.\<close>

lemma handle_bound:
  assumes "hd msg \<in> {KKDD_LOGIN_MESSAGE_BASE, KKDD_MOVE_MESSAGE_BASE, KKDD_CHAT_MESSAGE_BASE}" "msg \<noteq> []"
    "pack_buffer p = Some msg" "hd msg = KKDD_LOGIN_MESSAGE_BASE \<longrightarrow> msg ! 1 \<noteq> KKDD_LOGINMSG_LOGIN"
  shows "handle_pack (m_callBackMap (bind_handlers d)) p w = (if length msg \<le> 1 then Inl OutOfBounds else Inr w)"
proof -
  have kinds: "KKDD_LOGIN_MESSAGE_BASE \<noteq> KKDD_MOVE_MESSAGE_BASE" "KKDD_LOGIN_MESSAGE_BASE \<noteq> KKDD_CHAT_MESSAGE_BASE"
    "KKDD_MOVE_MESSAGE_BASE \<noteq> KKDD_CHAT_MESSAGE_BASE"
    by (simp_all add: KKDD_CHAT_MESSAGE_BASE_def KKDD_LOGIN_MESSAGE_BASE_def KKDD_MOVE_MESSAGE_BASE_def)
  have "handle_pack (m_callBackMap (bind_handlers d)) p w =
      (case map_find (m_callBackMap (bind_handlers d)) (ucast (hd msg)) of
         Some (Some f) \<Rightarrow> f (pack_dnid p) msg (pack_context p) w | _ \<Rightarrow> Inl BadFunctionCall)"
    using assms(2,3) by (simp add: handle_pack_def read_byte_def hd_conv_nth)
  then show ?thesis
    using assms kinds
    by (cases "length msg \<le> 1")
      (auto simp: bind_handlers_find as_callback_def handler_short OnDispatchChatMsg_ok OnDispatchMoveMsg_ok
        OnDispatchLoginMsg_other)
qed

lemma handle_unbound:
  assumes "pack_buffer p = Some msg"
    "msg = [] \<or> hd msg \<notin> {KKDD_LOGIN_MESSAGE_BASE, KKDD_MOVE_MESSAGE_BASE, KKDD_CHAT_MESSAGE_BASE}"
  shows "handle_pack (m_callBackMap (bind_handlers (Dispatcher_new now))) p w =
    Inl (if msg = [] then OutOfBounds else BadFunctionCall)"
proof -
  have "map_find (m_callBackMap (bind_handlers (Dispatcher_new now))) (ucast k) = None"
    if "k \<notin> {KKDD_LOGIN_MESSAGE_BASE, KKDD_MOVE_MESSAGE_BASE, KKDD_CHAT_MESSAGE_BASE}" for k :: BYTE
    using that bind_handlers_find [of "Dispatcher_new now" k] by (simp add: Dispatcher_new_def)
  then show ?thesis using assms by (auto simp: handle_pack_def read_byte_def hd_conv_nth)
qed

section \<open>Facts about the frame loop\<close>

lemma ServerLoop_exit: "m_exitFlag s \<Longrightarrow> es \<noteq> [] \<Longrightarrow> ServerLoop rnd t es s = Inl MissingReturn"
  by (cases es) auto

lemma server_frame_timer:
  "server_frame rnd t e s = Inr (sl, s') \<Longrightarrow> ct_begin (m_servertimer s') = fe_update e \<and>
    connections s' = connections s \<and> m_exitFlag s' = m_exitFlag s \<and> srv_heap s' = srv_heap s"
  by (auto simp: server_frame_def Let_def bnd_eq_Inr ct_update_def split: if_splits option.splits)

lemma server_frame_sleep:
  assumes "server_frame rnd t e s = Inr (Some ms, s')" "0 \<le> getElapsedTimeMilliSec rnd (fe_use e) (m_servertimer s)"
  shows "0 \<le> ms \<and> ms \<le> FRAME_MS"
  using assms
  by (auto simp: server_frame_def Let_def bnd_eq_Inr trunc_def split: if_splits option.splits)

section \<open>The table of connections as a state machine\<close>

text \<open>
  Connections come up, go down, and frames of the logic loop run in between. \<open>cs_live\<close> is the
  context id of every connection that is up.
\<close>

record conn_sys =
  cs_srv :: PetsServer
  cs_live :: "nat \<rightharpoonup> DNID"

definition conn_init :: "conn_sys \<Rightarrow> bool" where
  "conn_init s \<longleftrightarrow> connections (cs_srv s) = [] \<and> cs_live s = Map.empty"

inductive conn_step :: "conn_sys \<Rightarrow> conn_sys \<Rightarrow> bool" where
  conn_up: "cs_live s c = None \<Longrightarrow> connected (conn :: (conn_any, srv_cb) TcpConnection) \<Longrightarrow>
    onConnection tm rnd c conn (cs_srv s) = Inr (conn', srv') \<Longrightarrow> getContext conn' = AnyDnid d \<Longrightarrow>
    conn_step s \<lparr>cs_srv = srv', cs_live = (cs_live s)(c \<mapsto> d)\<rparr>"
| conn_down: "cs_live s c = Some d \<Longrightarrow> \<not> connected (conn :: (conn_any, srv_cb) TcpConnection) \<Longrightarrow>
    getContext conn = AnyDnid d \<Longrightarrow> onConnection tm rnd c conn (cs_srv s) = Inr (conn', srv') \<Longrightarrow>
    conn_step s \<lparr>cs_srv = srv', cs_live = (cs_live s)(c := None)\<rparr>"
| conn_frame: "server_frame fl t e (cs_srv s) = Inr (sl, srv') \<Longrightarrow> conn_step s (s\<lparr>cs_srv := srv'\<rparr>)"

text \<open>The table holds an entry for a connection exactly while it is up, under its own id.\<close>

definition conn_inv :: "conn_sys \<Rightarrow> bool" where
  "conn_inv s \<longleftrightarrow> map_ok (connections (cs_srv s)) \<and>
     (\<forall>d con. map_find (connections (cs_srv s)) d = Some con \<longleftrightarrow>
        (\<exists>c. con = Connection_of c \<and> cs_live s c = Some d))"

lemma conn_inv_init: "conn_init s \<Longrightarrow> conn_inv s"
  by (simp add: conn_init_def conn_inv_def)

lemma conn_inv_step:
  assumes inv: "conn_inv s" and step: "conn_step s s'"
  shows "conn_inv s'"
  using step
proof cases
  case (conn_up c conn tm rnd conn' srv' d)
  have ok: "map_ok (connections (cs_srv s))" using inv by (simp add: conn_inv_def)
  have find: "map_find (connections (cs_srv s)) e = Some con \<longleftrightarrow> (\<exists>c. con = Connection_of c \<and> cs_live s c = Some e)"
    for e con using inv by (simp add: conn_inv_def)
  have d: "map_find (connections (cs_srv s)) d = None"
    "srv' = (cs_srv s)\<lparr>connections := map_put (connections (cs_srv s)) d (Connection_of c)\<rparr>"
    using onConnection_up [OF ok conn_up(3,4)] conn_up(5) by auto
  have free: "cs_live s k \<noteq> Some d" for k using d(1) find [of d "Connection_of k"] by auto
  have inj: "Connection_of a = Connection_of b \<longleftrightarrow> a = b" for a b by (simp add: Connection_of_def)
  show ?thesis
    using ok conn_up(2) free by (auto simp: conn_up(1) conn_inv_def d(2) find inj) (metis option.distinct(1))
next
  case (conn_down c d conn tm rnd conn' srv')
  have ok: "map_ok (connections (cs_srv s))" using inv by (simp add: conn_inv_def)
  have find: "map_find (connections (cs_srv s)) e = Some con \<longleftrightarrow> (\<exists>c. con = Connection_of c \<and> cs_live s c = Some e)"
    for e con using inv by (simp add: conn_inv_def)
  have srv: "srv' = (cs_srv s)\<lparr>connections := map_erase (connections (cs_srv s)) d\<rparr>"
    using onConnection_down_dnid [OF conn_down(3,4)] conn_down(5) by simp
  have only: "cs_live s k = Some d \<Longrightarrow> k = c" for k
    using find [of d "Connection_of k"] find [of d "Connection_of c"] conn_down(2)
    by (auto simp: Connection_of_def)
  have table: "map_find (connections srv') e = Some con \<longleftrightarrow>
      (\<exists>k. con = Connection_of k \<and> ((cs_live s)(c := None)) k = Some e)" for e con
  proof (cases "e = d")
    case True
    then show ?thesis using ok only by (auto simp: srv)
  next
    case False
    have "((cs_live s)(c := None)) k = Some e \<longleftrightarrow> cs_live s k = Some e" for k
      using False conn_down(2) by simp
    then show ?thesis using ok False find [of e con] by (simp add: srv)
  qed
  show ?thesis
    using ok table by (simp add: conn_down(1) conn_inv_def srv)
next
  case (conn_frame fl t e sl srv')
  then show ?thesis
    using inv server_frame_timer [OF conn_frame(2)] by (simp add: conn_inv_def)
qed

interpretation conntab: invariant_system conn_init conn_step conn_inv
  by unfold_locales (auto intro: conn_inv_init conn_inv_step)

end
