(* ===== verification/Server_System.thy ===== *)
theory Server_System
  imports Pets_Server
begin

text \<open>
  The running server: the I/O threads that open and close connections, receive bytes and cut
  them into packets, and the logic thread that hands the packets to the handlers, as one step
  relation over the state of \<open>Pets_Server\<close>. A step is one callback of the network library, one
  turn of the loop of \<^verbatim>\<open>Codec::onMessage\<close>, one turn of the loop of \<^verbatim>\<open>DispatchMsg\<close>, or one of the
  other statements of \<^verbatim>\<open>ServerLoop\<close>; the finer steps inside \<^verbatim>\<open>PushPack\<close> and \<^verbatim>\<open>GetPack\<close> are
  those of \<open>Packet_Queue\<close>. The histories \<open>sv_recv\<close> (bytes received), \<open>sv_pushed\<close> (packets with
  their connection) and \<open>sv_acts\<close> (what the logic thread did to the modules) only record.
  A fault ends the process. A read from a socket appends to the input buffer of its connection
  bytes that fit in the address space (\<open>vec_max\<close>).
\<close>

section \<open>State\<close>

text \<open>A connection object is made for one connection and not used again.\<close>

datatype conn_place = NotYet | Up "(conn_any, srv_cb) TcpConnection" | Closed

datatype logic_place = LTop | LDispatch QWORD | LModules | LPause | LGone

datatype lact = AHandle SPacket | ARun

record server_sys =
  sv_srv :: PetsServer
  sv_place :: "nat \<Rightarrow> conn_place"
  sv_id :: "nat \<Rightarrow> DNID"
  sv_recv :: "nat \<Rightarrow> BYTE list"
  sv_calls :: "nat \<Rightarrow> tcp_call list"
  sv_pushed :: "(nat \<times> SPacket) list"
  sv_acts :: "lact list"
  sv_logic :: logic_place
  sv_fault :: "fault option"

text \<open>The map \<^verbatim>\<open>InitServer\<close> fills.\<close>

definition handlers :: "(MESSAGETYPE, CObjectManager DispatcherCallBack option) std_map" where
  "handlers = m_callBackMap (bind_handlers (Dispatcher_new 0))"

text \<open>What \<^verbatim>\<open>start\<close> leaves when it succeeds; \<open>m0\<close> is the object manager.\<close>

definition server_booted :: "CObjectManager \<Rightarrow> PetsServer \<Rightarrow> bool" where
  "server_booted m0 s \<longleftrightarrow> connections s = [] \<and> \<not> m_exitFlag s \<and> m_mainThread s \<and> m_mysqlThread s \<and>
     m_petsManager s = m0 \<and> (\<exists>now. codec s = Some \<lparr>m_dispc = Some (bind_handlers (Dispatcher_new now))\<rparr>)"

definition sv_init :: "CObjectManager \<Rightarrow> server_sys \<Rightarrow> bool" where
  "sv_init m0 s \<longleftrightarrow> (\<exists>srv. server_booted m0 srv \<and>
     s = \<lparr>sv_srv = srv, sv_place = (\<lambda>_. NotYet), sv_id = (\<lambda>_. 0), sv_recv = (\<lambda>_. []), sv_calls = (\<lambda>_. []),
          sv_pushed = [], sv_acts = [], sv_logic = LTop, sv_fault = None\<rparr>)"

section \<open>Steps\<close>

definition set_conn :: "nat \<Rightarrow> conn_place \<Rightarrow> server_sys \<Rightarrow> server_sys" where
  "set_conn c p s = s\<lparr>sv_place := (sv_place s)(c := p)\<rparr>"

definition set_disp :: "CObjectManager Dispatcher \<Rightarrow> PetsServer \<Rightarrow> PetsServer" where
  "set_disp d srv = srv\<lparr>codec := map_option (\<lambda>cd. cd\<lparr>m_dispc := Some d\<rparr>) (codec srv)\<rparr>"

definition server_disp :: "PetsServer \<Rightarrow> CObjectManager Dispatcher option" where
  "server_disp srv = Option.bind (codec srv) GetDispatcher"

inductive sv_step :: "(real \<Rightarrow> real) \<Rightarrow> server_sys \<Rightarrow> server_sys \<Rightarrow> bool" for fl where
  sv_up: "sv_fault s = None \<Longrightarrow> sv_place s c = NotYet \<Longrightarrow> connected conn \<Longrightarrow>
    Buffer_new kInitialSize = Inr (tc_inputBuffer conn) \<Longrightarrow>
    onConnection tm rnd c conn (sv_srv s) = Inr (conn', srv') \<Longrightarrow> getContext conn' = AnyDnid d \<Longrightarrow>
    sv_step fl s (set_conn c (Up conn') (s\<lparr>sv_srv := srv', sv_id := (sv_id s)(c := d)\<rparr>))"
| sv_down: "sv_fault s = None \<Longrightarrow> sv_place s c = Up conn \<Longrightarrow>
    onConnection tm rnd c (setState kDisconnected conn) (sv_srv s) = Inr (conn', srv') \<Longrightarrow>
    sv_step fl s (set_conn c Closed (s\<lparr>sv_srv := srv'\<rparr>))"
| sv_bytes: "sv_fault s = None \<Longrightarrow> sv_place s c = Up conn \<Longrightarrow> writerIndex (tc_inputBuffer conn) + length bs \<le> vec_max \<Longrightarrow>
    Buffer_append (tc_inputBuffer conn) bs = Inr b \<Longrightarrow>
    sv_step fl s (set_conn c (Up (conn\<lparr>tc_inputBuffer := b\<rparr>)) (s\<lparr>sv_recv := (sv_recv s)(c := sv_recv s c @ bs)\<rparr>))"
| sv_push: "sv_fault s = None \<Longrightarrow> sv_place s c = Up conn \<Longrightarrow> codec (sv_srv s) = Some cd \<Longrightarrow>
    onMessage_turn t (getContext conn) (tc_inputBuffer conn) cd = Inr (OmPushed p b cd') \<Longrightarrow>
    sv_step fl s (set_conn c (Up (conn\<lparr>tc_inputBuffer := b\<rparr>))
      (s\<lparr>sv_srv := (sv_srv s)\<lparr>codec := Some cd'\<rparr>, sv_pushed := sv_pushed s @ [(c, p)]\<rparr>))"
| sv_wait: "sv_fault s = None \<Longrightarrow> sv_place s c = Up conn \<Longrightarrow> codec (sv_srv s) = Some cd \<Longrightarrow>
    onMessage_turn t (getContext conn) (tc_inputBuffer conn) cd = Inr (OmStop calls) \<Longrightarrow>
    sv_step fl s (s\<lparr>sv_calls := (sv_calls s)(c := sv_calls s c @ calls)\<rparr>)"
| sv_io_fault: "sv_fault s = None \<Longrightarrow> sv_place s c = Up conn \<Longrightarrow> codec (sv_srv s) = Some cd \<Longrightarrow>
    onMessage_turn t (getContext conn) (tc_inputBuffer conn) cd = Inl e \<Longrightarrow> sv_step fl s (s\<lparr>sv_fault := Some e\<rparr>)"
| sv_frame: "sv_fault s = None \<Longrightarrow> sv_logic s = LTop \<Longrightarrow> \<not> m_exitFlag (sv_srv s) \<Longrightarrow>
    getElapsedTimeMilliSec fl now (m_servertimer (sv_srv s)) \<le> of_int FRAME_MS \<Longrightarrow>
    sv_step fl s (s\<lparr>sv_logic := LDispatch (word_of_int (getCurrentTimeStampMiliSec t0))\<rparr>)"
| sv_late: "sv_fault s = None \<Longrightarrow> sv_logic s = LTop \<Longrightarrow> \<not> m_exitFlag (sv_srv s) \<Longrightarrow>
    \<not> getElapsedTimeMilliSec fl now (m_servertimer (sv_srv s)) \<le> of_int FRAME_MS \<Longrightarrow>
    sv_step fl s (s\<lparr>sv_logic := LPause\<rparr>)"
| sv_exit: "sv_fault s = None \<Longrightarrow> sv_logic s = LTop \<Longrightarrow> m_exitFlag (sv_srv s) \<Longrightarrow>
    sv_step fl s (s\<lparr>sv_logic := LGone, sv_fault := Some MissingReturn\<rparr>)"
| sv_turn_stop: "sv_fault s = None \<Longrightarrow> sv_logic s = LDispatch ts \<Longrightarrow> server_disp (sv_srv s) = Some d \<Longrightarrow>
    dispatch_turn t ts now d (m_petsManager (sv_srv s)) = Inr (DtStop d') \<Longrightarrow>
    sv_step fl s (s\<lparr>sv_srv := set_disp d' (sv_srv s), sv_logic := LModules\<rparr>)"
| sv_turn_skip: "sv_fault s = None \<Longrightarrow> sv_logic s = LDispatch ts \<Longrightarrow> server_disp (sv_srv s) = Some d \<Longrightarrow>
    dispatch_turn t ts now d (m_petsManager (sv_srv s)) = Inr (DtSkip p d') \<Longrightarrow>
    sv_step fl s (s\<lparr>sv_srv := set_disp d' (sv_srv s), sv_acts := sv_acts s @ [AHandle p]\<rparr>)"
| sv_turn_handled: "sv_fault s = None \<Longrightarrow> sv_logic s = LDispatch ts \<Longrightarrow> server_disp (sv_srv s) = Some d \<Longrightarrow>
    dispatch_turn t ts now d (m_petsManager (sv_srv s)) = Inr (DtHandled p d' m) \<Longrightarrow>
    sv_step fl s (s\<lparr>sv_srv := (set_disp d' (sv_srv s))\<lparr>m_petsManager := m\<rparr>, sv_acts := sv_acts s @ [AHandle p]\<rparr>)"
| sv_turn_fault: "sv_fault s = None \<Longrightarrow> sv_logic s = LDispatch ts \<Longrightarrow> server_disp (sv_srv s) = Some d \<Longrightarrow>
    dispatch_turn t ts now d (m_petsManager (sv_srv s)) = Inl e \<Longrightarrow> sv_step fl s (s\<lparr>sv_fault := Some e\<rparr>)"
| sv_run: "sv_fault s = None \<Longrightarrow> sv_logic s = LModules \<Longrightarrow>
    sv_step fl s (s\<lparr>sv_srv := (sv_srv s)\<lparr>m_petsManager := snd (PetsManager_Run (m_petsManager (sv_srv s)))\<rparr>,
      sv_acts := sv_acts s @ [ARun], sv_logic := LPause\<rparr>)"
| sv_pause: "sv_fault s = None \<Longrightarrow> sv_logic s = LPause \<Longrightarrow>
    sv_step fl s (s\<lparr>sv_srv := (sv_srv s)\<lparr>m_servertimer := ct_update now (m_servertimer (sv_srv s))\<rparr>, sv_logic := LTop\<rparr>)"

section \<open>The invariant\<close>

fun run_acts :: "lact list \<Rightarrow> CObjectManager \<Rightarrow> CObjectManager result" where
  "run_acts [] m = Inr m"
| "run_acts (AHandle p # as) m = bnd (handle_pack handlers p m) (run_acts as)"
| "run_acts (ARun # as) m = run_acts as (snd (PetsManager_Run m))"

fun handled_of :: "lact list \<Rightarrow> SPacket list" where
  "handled_of [] = []"
| "handled_of (AHandle p # as) = p # handled_of as"
| "handled_of (ARun # as) = handled_of as"

lemma run_acts_append [simp]: "run_acts (as @ bs) m = bnd (run_acts as m) (run_acts bs)"
  by (induction as arbitrary: m rule: handled_of.induct) (auto simp: bnd_def split: sum.split)

lemma handled_of_append [simp]: "handled_of (as @ bs) = handled_of as @ handled_of bs"
  by (induction as rule: handled_of.induct) auto

definition packs_of :: "nat \<Rightarrow> server_sys \<Rightarrow> SPacket list" where
  "packs_of c s = map snd (filter (\<lambda>x. fst x = c) (sv_pushed s))"

text \<open>What has become of the bytes of a connection.\<close>

fun stream_at :: "conn_place \<Rightarrow> DNID \<Rightarrow> SPacket list \<Rightarrow> BYTE list \<Rightarrow> bool" where
  "stream_at NotYet d packs recv = (recv = [] \<and> packs = [])"
| "stream_at (Up conn) d packs recv = (getContext conn = AnyDnid d \<and> buffer_ok (tc_inputBuffer conn) \<and>
     (\<exists>fs. packs = map (ctx_pack (AnyDnid d)) fs \<and> consumed fs recv (content (tc_inputBuffer conn))))"
| "stream_at Closed d packs recv = (\<exists>fs rest. packs = map (ctx_pack (AnyDnid d)) fs \<and> consumed fs recv rest)"

definition stream_ok :: "server_sys \<Rightarrow> nat \<Rightarrow> bool" where
  "stream_ok s c = stream_at (sv_place s c) (sv_id s c) (packs_of c s) (sv_recv s c)"

fun live_at :: "conn_place \<Rightarrow> DNID \<Rightarrow> DNID option" where
  "live_at (Up conn) d = Some d"
| "live_at _ d = None"

text \<open>The table of connections as the machine of \<open>Pets_Server\<close> sees it.\<close>

definition conn_view :: "server_sys \<Rightarrow> conn_sys" where
  "conn_view s = \<lparr>cs_srv = sv_srv s, cs_live = (\<lambda>c. live_at (sv_place s c) (sv_id s c))\<rparr>"

definition server_wf :: "PetsServer \<Rightarrow> bool" where
  "server_wf srv \<longleftrightarrow> (case server_disp srv of None \<Rightarrow> False | Some d \<Rightarrow> lock_free d \<and> m_callBackMap d = handlers) \<and>
     map_ok (connections srv) \<and> \<not> m_exitFlag srv \<and> m_mainThread srv \<and> m_mysqlThread srv"

definition server_queue :: "PetsServer \<Rightarrow> SPacket list" where
  "server_queue srv = (case server_disp srv of None \<Rightarrow> [] | Some d \<Rightarrow> m_MsgQueue d)"

definition sv_inv :: "CObjectManager \<Rightarrow> server_sys \<Rightarrow> bool" where
  "sv_inv m0 s \<longleftrightarrow> server_wf (sv_srv s) \<and> conn_inv (conn_view s) \<and> (\<forall>c. stream_ok s c) \<and>
     map snd (sv_pushed s) = handled_of (sv_acts s) @ server_queue (sv_srv s) \<and>
     run_acts (sv_acts s) m0 = Inr (m_petsManager (sv_srv s)) \<and> sv_logic s \<noteq> LGone"

section \<open>Parts of the invariant\<close>

lemma server_disp_set [simp]:
  "server_disp srv \<noteq> None \<Longrightarrow> server_disp (set_disp d srv) = Some d"
  "connections (set_disp d srv) = connections srv" "m_exitFlag (set_disp d srv) = m_exitFlag srv"
  "m_mainThread (set_disp d srv) = m_mainThread srv" "m_mysqlThread (set_disp d srv) = m_mysqlThread srv"
  "m_petsManager (set_disp d srv) = m_petsManager srv"
  by (auto simp: server_disp_def set_disp_def GetDispatcher_def bind_eq_None_conv split: option.splits)

lemma server_disp_upd [simp]:
  "server_disp (srv\<lparr>m_petsManager := m\<rparr>) = server_disp srv" "server_disp (srv\<lparr>m_servertimer := tm\<rparr>) = server_disp srv"
  "server_disp (srv\<lparr>connections := cs\<rparr>) = server_disp srv"
  by (simp_all add: server_disp_def)

lemma server_wf_codec:
  assumes "server_wf srv" "codec srv = Some cd"
  shows "codec_ok cd" "codec_queue cd = server_queue srv"
  using assms
  by (auto simp: server_wf_def server_disp_def GetDispatcher_def codec_ok_def codec_queue_def server_queue_def
      split: option.splits)

lemma server_push:
  assumes "server_wf srv" "codec srv = Some cd"
  shows "server_wf (srv\<lparr>codec := Some (with_queue q cd)\<rparr>)" "server_queue (srv\<lparr>codec := Some (with_queue q cd)\<rparr>) = q"
  using assms
  by (auto simp: server_wf_def server_disp_def GetDispatcher_def with_queue_def server_queue_def split: option.splits)

lemma stream_ok_cong:
  "sv_place s' c = sv_place s c \<Longrightarrow> sv_id s' c = sv_id s c \<Longrightarrow> sv_recv s' c = sv_recv s c \<Longrightarrow> packs_of c s' = packs_of c s \<Longrightarrow>
    stream_ok s' c = stream_ok s c"
  by (simp add: stream_ok_def)

lemma conn_inv_cong:
  "connections (cs_srv v') = connections (cs_srv v) \<Longrightarrow> cs_live v' = cs_live v \<Longrightarrow> conn_inv v' = conn_inv v"
  by (simp add: conn_inv_def)

lemma sv_inv_stream: "sv_inv m0 s \<Longrightarrow> stream_at (sv_place s c) (sv_id s c) (packs_of c s) (sv_recv s c)"
  by (simp add: sv_inv_def stream_ok_def)

text \<open>Steps that touch neither the connections nor their histories.\<close>

lemma sv_inv_logic:
  assumes "sv_inv m0 s" "server_wf (sv_srv s')" "connections (sv_srv s') = connections (sv_srv s)"
    "sv_place s' = sv_place s" "sv_id s' = sv_id s" "sv_recv s' = sv_recv s" "sv_pushed s' = sv_pushed s"
    "handled_of (sv_acts s) @ server_queue (sv_srv s) = handled_of (sv_acts s') @ server_queue (sv_srv s')"
    "run_acts (sv_acts s') m0 = Inr (m_petsManager (sv_srv s'))" "sv_logic s' \<noteq> LGone"
  shows "sv_inv m0 s'"
proof -
  have "conn_inv (conn_view s') = conn_inv (conn_view s)"
    by (rule conn_inv_cong) (simp_all add: conn_view_def assms)
  moreover have "stream_ok s' c = stream_ok s c" for c
    by (rule stream_ok_cong) (simp_all add: packs_of_def assms)
  ultimately show ?thesis using assms by (simp add: sv_inv_def)
qed

text \<open>Steps of the connection \<open>c\<close>.\<close>

lemma sv_inv_conn:
  assumes "sv_inv m0 s" "server_wf (sv_srv s')" "conn_inv (conn_view s')" "stream_ok s' c"
    "\<And>c'. c' \<noteq> c \<Longrightarrow> sv_place s' c' = sv_place s c' \<and> sv_id s' c' = sv_id s c' \<and> sv_recv s' c' = sv_recv s c' \<and>
      packs_of c' s' = packs_of c' s"
    "map snd (sv_pushed s') = handled_of (sv_acts s') @ server_queue (sv_srv s')"
    "sv_acts s' = sv_acts s" "m_petsManager (sv_srv s') = m_petsManager (sv_srv s)" "sv_logic s' = sv_logic s"
  shows "sv_inv m0 s'"
proof -
  have "stream_ok s' c'" for c'
  proof (cases "c' = c")
    case False
    then have "stream_ok s' c' = stream_ok s c'" using assms(5) [OF False] by (intro stream_ok_cong) auto
    then show ?thesis using assms(1) by (simp add: sv_inv_def)
  qed (use assms(4) in simp)
  then show ?thesis using assms by (simp add: sv_inv_def)
qed

lemma conn_view_up:
  "sv_place s c = NotYet \<Longrightarrow> conn_view (set_conn c (Up conn') (s\<lparr>sv_srv := srv', sv_id := (sv_id s)(c := d)\<rparr>)) =
    \<lparr>cs_srv = srv', cs_live = (cs_live (conn_view s))(c \<mapsto> d)\<rparr>"
  by (auto simp: conn_view_def set_conn_def fun_eq_iff)

lemma conn_view_down:
  "conn_view (set_conn c Closed (s\<lparr>sv_srv := srv'\<rparr>)) = \<lparr>cs_srv = srv', cs_live = (cs_live (conn_view s))(c := None)\<rparr>"
  by (auto simp: conn_view_def set_conn_def fun_eq_iff)

lemma conn_view_same:
  "sv_place s c = Up conn \<Longrightarrow> connections (sv_srv s') = connections (sv_srv s) \<Longrightarrow> sv_id s' = sv_id s \<Longrightarrow>
   sv_place s' = (sv_place s)(c := Up conn') \<Longrightarrow> conn_inv (conn_view s') = conn_inv (conn_view s)"
  by (rule conn_inv_cong) (auto simp: conn_view_def fun_eq_iff)

section \<open>Every step keeps it\<close>

lemma sv_inv_init: "sv_init m0 s \<Longrightarrow> sv_inv m0 s"
proof -
  assume "sv_init m0 s"
  then obtain srv where srv: "server_booted m0 srv" and s: "s = \<lparr>sv_srv = srv, sv_place = (\<lambda>_. NotYet), sv_id = (\<lambda>_. 0),
      sv_recv = (\<lambda>_. []), sv_calls = (\<lambda>_. []), sv_pushed = [], sv_acts = [], sv_logic = LTop, sv_fault = None\<rparr>"
    by (auto simp: sv_init_def)
  have "conn_inv (conn_view s)"
    using srv by (intro conn_inv_init) (auto simp: conn_init_def conn_view_def s server_booted_def)
  moreover have "m_callBackMap (bind_handlers (Dispatcher_new now)) = handlers" for now
    by (simp add: handlers_def bind_handlers_def BindCB_def Dispatcher_new_def)
  ultimately show ?thesis
    using srv by (auto simp: sv_inv_def s stream_ok_def packs_of_def server_booted_def server_wf_def server_disp_def
        GetDispatcher_def server_queue_def lock_free_def bind_handlers_def BindCB_def Dispatcher_new_def MutexLock_new_def
        mutex_ok_def)
qed

lemma sv_inv_up:
  assumes inv: "sv_inv m0 s" and place: "sv_place s c = NotYet" and up: "connected conn"
    and new: "Buffer_new kInitialSize = Inr (tc_inputBuffer conn)"
    and run: "onConnection tm rnd c conn (sv_srv s) = Inr (conn', srv')" and ctx: "getContext conn' = AnyDnid d"
  shows "sv_inv m0 (set_conn c (Up conn') (s\<lparr>sv_srv := srv', sv_id := (sv_id s)(c := d)\<rparr>))"
proof -
  have ok: "map_ok (connections (sv_srv s))" using inv by (simp add: sv_inv_def server_wf_def)
  have srv': "srv' = (sv_srv s)\<lparr>connections := map_put (connections (sv_srv s)) d (Connection_of c)\<rparr>"
    using onConnection_up [OF ok up run] ctx by auto
  have buf: "tc_inputBuffer conn' = tc_inputBuffer conn"
    using run up by (auto simp: onConnection_def setContext_def Let_def split: option.splits)
  have fresh: "buffer_ok (tc_inputBuffer conn)" "content (tc_inputBuffer conn) = []"
    using Buffer_new_default new by auto
  have "conn_step (conn_view s) \<lparr>cs_srv = srv', cs_live = (cs_live (conn_view s))(c \<mapsto> d)\<rparr>"
    using place run ctx up by (intro conn_up [where conn = conn and tm = tm and rnd = rnd and conn' = conn'])
      (simp_all add: conn_view_def)
  then have "conn_inv \<lparr>cs_srv = srv', cs_live = (cs_live (conn_view s))(c \<mapsto> d)\<rparr>"
    using inv conn_inv_step by (auto simp: sv_inv_def)
  moreover have "sv_recv s c = []" "packs_of c s = []"
    using inv place sv_inv_stream [OF inv, of c] by auto
  ultimately show ?thesis
    using inv ok ctx buf fresh conn_view_up [OF place, where conn' = conn' and srv' = srv' and d = d] consumed_none [of "[]"]
    by (intro sv_inv_conn [OF inv, where c = c])
      (auto simp: sv_inv_def srv' server_wf_def server_queue_def set_conn_def packs_of_def stream_ok_def)
qed

lemma sv_inv_down:
  assumes inv: "sv_inv m0 s" and place: "sv_place s c = Up conn"
    and run: "onConnection tm rnd c (setState kDisconnected conn) (sv_srv s) = Inr (conn', srv')"
  shows "sv_inv m0 (set_conn c Closed (s\<lparr>sv_srv := srv'\<rparr>))"
proof -
  let ?conn = "setState kDisconnected conn"
  have down: "\<not> connected ?conn" "getContext ?conn = getContext conn"
    by (simp_all add: connected_def setState_def getContext_def)
  obtain fs where st: "getContext conn = AnyDnid (sv_id s c)" "packs_of c s = map (ctx_pack (AnyDnid (sv_id s c))) fs"
    "consumed fs (sv_recv s c) (content (tc_inputBuffer conn))"
    using place sv_inv_stream [OF inv, of c] by auto
  have srv': "srv' = (sv_srv s)\<lparr>connections := map_erase (connections (sv_srv s)) (sv_id s c)\<rparr>"
    using onConnection_down_dnid [OF down(1)] run st(1) down(2) by auto
  have "conn_step (conn_view s) \<lparr>cs_srv = srv', cs_live = (cs_live (conn_view s))(c := None)\<rparr>"
    using run place st(1) down
    by (intro conn_down [where conn = ?conn and d = "sv_id s c" and tm = tm and rnd = rnd and conn' = conn'])
      (simp_all add: conn_view_def)
  then have "conn_inv \<lparr>cs_srv = srv', cs_live = (cs_live (conn_view s))(c := None)\<rparr>"
    using inv conn_inv_step by (auto simp: sv_inv_def)
  moreover have "map_ok (connections (sv_srv s))" using inv by (simp add: sv_inv_def server_wf_def)
  ultimately show ?thesis
    using inv st conn_view_down [where c = c and s = s and srv' = srv']
    by (intro sv_inv_conn [OF inv, where c = c])
      (auto simp: sv_inv_def srv' server_wf_def server_queue_def set_conn_def packs_of_def stream_ok_def)
qed

lemma sv_inv_bytes:
  assumes inv: "sv_inv m0 s" and place: "sv_place s c = Up conn"
    and fit: "writerIndex (tc_inputBuffer conn) + length bs \<le> vec_max"
    and app: "Buffer_append (tc_inputBuffer conn) bs = Inr b"
  shows "sv_inv m0 (set_conn c (Up (conn\<lparr>tc_inputBuffer := b\<rparr>)) (s\<lparr>sv_recv := (sv_recv s)(c := sv_recv s c @ bs)\<rparr>))"
proof -
  obtain fs where st: "getContext conn = AnyDnid (sv_id s c)" "buffer_ok (tc_inputBuffer conn)"
    "packs_of c s = map (ctx_pack (AnyDnid (sv_id s c))) fs" "consumed fs (sv_recv s c) (content (tc_inputBuffer conn))"
    using place sv_inv_stream [OF inv, of c] by auto
  have b: "buffer_ok b" "content b = content (tc_inputBuffer conn) @ bs"
    using Buffer_append_ok [OF st(2) fit] app by auto
  let ?s = "set_conn c (Up (conn\<lparr>tc_inputBuffer := b\<rparr>)) (s\<lparr>sv_recv := (sv_recv s)(c := sv_recv s c @ bs)\<rparr>)"
  have "conn_inv (conn_view ?s) = conn_inv (conn_view s)"
    by (rule conn_view_same [OF place]) (simp_all add: set_conn_def)
  moreover have "stream_ok ?s c"
    using st b consumed_more [OF st(4), of bs] by (auto simp: stream_ok_def set_conn_def packs_of_def getContext_def)
  ultimately show ?thesis
    using inv by (intro sv_inv_conn [OF inv, where c = c]) (auto simp: sv_inv_def set_conn_def packs_of_def)
qed

lemma sv_inv_push:
  assumes inv: "sv_inv m0 s" and place: "sv_place s c = Up conn" and cd: "codec (sv_srv s) = Some cd"
    and turn: "onMessage_turn t (getContext conn) (tc_inputBuffer conn) cd = Inr (OmPushed p b cd')"
  shows "sv_inv m0 (set_conn c (Up (conn\<lparr>tc_inputBuffer := b\<rparr>))
    (s\<lparr>sv_srv := (sv_srv s)\<lparr>codec := Some cd'\<rparr>, sv_pushed := sv_pushed s @ [(c, p)]\<rparr>))" (is "sv_inv m0 ?s")
proof -
  have wf: "server_wf (sv_srv s)" using inv by (simp add: sv_inv_def)
  obtain fs where st: "getContext conn = AnyDnid (sv_id s c)" "buffer_ok (tc_inputBuffer conn)"
    "packs_of c s = map (ctx_pack (AnyDnid (sv_id s c))) fs" "consumed fs (sv_recv s c) (content (tc_inputBuffer conn))"
    using place sv_inv_stream [OF inv, of c] by auto
  obtain data where new: "buffer_ok b" "cd' = with_queue (codec_queue cd @ [p]) cd" "p = ctx_pack (getContext conn) data"
    and cons: "consumed (fs @ [data]) (sv_recv s c) (content b)"
    using onMessage_turn_pushed [OF st(2) server_wf_codec(1) [OF wf cd] turn] consumed_frame [OF st(4)] by blast
  have packs: "packs_of c ?s = packs_of c s @ [p]" "c' \<noteq> c \<Longrightarrow> packs_of c' ?s = packs_of c' s" for c'
    by (simp_all add: packs_of_def set_conn_def)
  have "stream_ok ?s c"
    using st new cons packs(1)
    by (auto simp: stream_ok_def set_conn_def getContext_def intro!: exI [of _ "fs @ [data]"])
  moreover have "conn_inv (conn_view ?s) = conn_inv (conn_view s)"
    by (rule conn_view_same [OF place]) (simp_all add: set_conn_def)
  moreover have "sv_srv ?s = (sv_srv s)\<lparr>codec := Some (with_queue (codec_queue cd @ [p]) cd)\<rparr>"
    by (simp add: set_conn_def new(2))
  ultimately show ?thesis
    using inv packs server_push [OF wf cd, of "codec_queue cd @ [p]"] server_wf_codec(2) [OF wf cd]
    by (intro sv_inv_conn [OF inv, where c = c]) (auto simp: sv_inv_def set_conn_def)
qed

text \<open>The turns of the dispatcher.\<close>

lemma sv_inv_turn:
  assumes inv: "sv_inv m0 s" and d: "server_disp (sv_srv s) = Some d"
    and turn: "dispatch_turn t ts now d (m_petsManager (sv_srv s)) = Inr r"
  shows "r = DtStop d' \<Longrightarrow> sv_inv m0 (s\<lparr>sv_srv := set_disp d' (sv_srv s), sv_logic := LModules\<rparr>)"
    and "r = DtSkip p d' \<Longrightarrow> sv_inv m0 (s\<lparr>sv_srv := set_disp d' (sv_srv s), sv_acts := sv_acts s @ [AHandle p]\<rparr>)"
    and "r = DtHandled p d' m \<Longrightarrow>
      sv_inv m0 (s\<lparr>sv_srv := (set_disp d' (sv_srv s))\<lparr>m_petsManager := m\<rparr>, sv_acts := sv_acts s @ [AHandle p]\<rparr>)"
proof -
  have wf: "lock_free d" "m_callBackMap d = handlers" "server_queue (sv_srv s) = m_MsgQueue d" "server_disp (sv_srv s) \<noteq> None"
    using inv d by (auto simp: sv_inv_def server_wf_def server_queue_def)
  have rest: "server_wf (sv_srv s)" "run_acts (sv_acts s) m0 = Inr (m_petsManager (sv_srv s))" "sv_logic s \<noteq> LGone"
    using inv by (auto simp: sv_inv_def)
  note ok = dispatch_turn_ok [OF wf(1) turn]
  show "sv_inv m0 (s\<lparr>sv_srv := set_disp d' (sv_srv s), sv_logic := LModules\<rparr>)" if "r = DtStop d'"
    using that ok rest wf
    by (intro sv_inv_logic [OF inv]) (auto simp: server_wf_def server_queue_def d)
  show "sv_inv m0 (s\<lparr>sv_srv := set_disp d' (sv_srv s), sv_acts := sv_acts s @ [AHandle p]\<rparr>)" if "r = DtSkip p d'"
    using that ok rest wf
    by (intro sv_inv_logic [OF inv]) (auto simp: server_wf_def server_queue_def d)
  show "sv_inv m0 (s\<lparr>sv_srv := (set_disp d' (sv_srv s))\<lparr>m_petsManager := m\<rparr>, sv_acts := sv_acts s @ [AHandle p]\<rparr>)"
    if "r = DtHandled p d' m"
    using that ok rest wf
    by (intro sv_inv_logic [OF inv])
      (auto simp: server_wf_def server_queue_def d)
qed

lemma sv_inv_record:
  assumes "sv_inv m0 s"
  shows "sv_inv m0 (s\<lparr>sv_fault := f\<rparr>)" "l \<noteq> LGone \<Longrightarrow> sv_inv m0 (s\<lparr>sv_logic := l\<rparr>)" "sv_inv m0 (s\<lparr>sv_calls := cs\<rparr>)"
  using assms by (simp_all add: sv_inv_def conn_view_def stream_ok_def packs_of_def)

lemma sv_inv_step:
  assumes inv: "sv_inv m0 s" and step: "sv_step fl s s'"
  shows "sv_inv m0 s'"
  using step
proof cases
  case sv_run
  then show ?thesis
    using inv by (intro sv_inv_logic [OF inv]) (auto simp: sv_inv_def server_wf_def server_queue_def)
next
  case sv_pause
  then show ?thesis
    using inv by (intro sv_inv_logic [OF inv]) (auto simp: sv_inv_def server_wf_def server_queue_def)
next
  case sv_exit
  then show ?thesis using inv by (simp add: sv_inv_def server_wf_def)
qed (use inv in \<open>auto simp: sv_inv_record intro: sv_inv_up sv_inv_down sv_inv_bytes sv_inv_push sv_inv_turn\<close>)

interpretation serversys: invariant_system "sv_init m0" "sv_step fl" "sv_inv m0" for m0 fl
  by unfold_locales (auto intro: sv_inv_init sv_inv_step)

lemma sv_inv_run: "(sv_step fl)\<^sup>*\<^sup>* s s' \<Longrightarrow> sv_inv m0 s \<Longrightarrow> sv_inv m0 s'"
  by (induction rule: rtranclp_induct) (auto intro: sv_inv_step)

section \<open>Start-up reaches an initial state\<close>

lemma start_boots:
  assumes "start L st ss re pick t lit jb jl jn cb (PetsServer_new now srv mx) S lp = Inr (True, s', S', lp')"
  shows "server_booted \<lparr>m_lMaxSize = mx, m_ObjectMap = [], m_RemoveList = []\<rparr> s'"
  using assms
  by (auto simp: start_def InitServer_def PetsServer_new_def Codec_new_def InitCodecMem_def GetDispatcher_def server_booted_def
      Let_def bnd_eq_Inr split: if_splits)

section \<open>Progress\<close>

definition same_io :: "server_sys \<Rightarrow> server_sys \<Rightarrow> bool" where
  "same_io s s' \<longleftrightarrow> sv_place s' = sv_place s \<and> sv_id s' = sv_id s \<and> sv_recv s' = sv_recv s \<and>
     sv_pushed s' = sv_pushed s \<and> sv_fault s' = sv_fault s"

text \<open>The turns of \<^verbatim>\<open>onMessage\<close> on one connection: every complete frame is pushed, none faults.\<close>

lemma sv_push_all:
  assumes "sv_inv m0 s" "sv_fault s = None" "sv_place s c = Up conn" "decode (content (tc_inputBuffer conn)) = (fs, rest, bad)"
  shows "\<exists>s' conn'. (sv_step fl)\<^sup>*\<^sup>* s s' \<and> sv_fault s' = None \<and> sv_place s' c = Up conn' \<and> content (tc_inputBuffer conn') = rest \<and>
    sv_recv s' = sv_recv s \<and> sv_id s' = sv_id s \<and> sv_acts s' = sv_acts s \<and>
    sv_pushed s' = sv_pushed s @ map (\<lambda>f. (c, ctx_pack (AnyDnid (sv_id s c)) f)) fs"
  using assms
proof (induction fs arbitrary: s conn)
  case Nil
  then show ?case using decode_nothing [of "content (tc_inputBuffer conn)"] by auto
next
  case (Cons f fs)
  obtain cd where cd: "codec (sv_srv s) = Some cd" "codec_ok cd"
    using Cons.prems(1) server_wf_codec(1) [of "sv_srv s"]
    by (auto simp: sv_inv_def server_wf_def server_disp_def bind_eq_Some_conv split: option.splits)
  have st: "getContext conn = AnyDnid (sv_id s c)" "buffer_ok (tc_inputBuffer conn)"
    using Cons.prems(3) sv_inv_stream [OF Cons.prems(1), of c] by auto
  let ?p = "ctx_pack (AnyDnid (sv_id s c)) f"
  obtain b where turn: "onMessage_turn 0 (getContext conn) (tc_inputBuffer conn) cd =
      Inr (OmPushed ?p b (with_queue (codec_queue cd @ [?p]) cd))" and b: "decode (content b) = (fs, rest, bad)"
    using onMessage_turn_frame [OF st(2) cd(2) _ Cons.prems(4), of "getContext conn" 0] st(1) by auto
  define s1 where "s1 = set_conn c (Up (conn\<lparr>tc_inputBuffer := b\<rparr>)) (s\<lparr>sv_srv := (sv_srv s)\<lparr>codec :=
    Some (with_queue (codec_queue cd @ [?p]) cd)\<rparr>, sv_pushed := sv_pushed s @ [(c, ?p)]\<rparr>)"
  have step: "sv_step fl s s1"
    unfolding s1_def by (rule sv_push [OF Cons.prems(2,3) cd(1) turn])
  have s1: "sv_fault s1 = None" "sv_place s1 c = Up (conn\<lparr>tc_inputBuffer := b\<rparr>)" "sv_id s1 = sv_id s" "sv_recv s1 = sv_recv s"
    "sv_pushed s1 = sv_pushed s @ [(c, ?p)]" "sv_acts s1 = sv_acts s"
    using Cons.prems(2) by (simp_all add: s1_def set_conn_def)
  obtain s' conn' where "(sv_step fl)\<^sup>*\<^sup>* s1 s'" "sv_fault s' = None" "sv_place s' c = Up conn'" "content (tc_inputBuffer conn') = rest"
    "sv_recv s' = sv_recv s1" "sv_id s' = sv_id s1" "sv_acts s' = sv_acts s1"
    "sv_pushed s' = sv_pushed s1 @ map (\<lambda>f. (c, ctx_pack (AnyDnid (sv_id s1 c)) f)) fs"
    using Cons.IH [OF sv_inv_step [OF Cons.prems(1) step] s1(1,2)] b by auto
  then show ?case using converse_rtranclp_into_rtranclp [of "sv_step fl", OF step] s1(3-6) by auto
qed

text \<open>A packet the bound handlers take: a chat or move message, or a login message of another sub-type.\<close>

definition pack_fine :: "SPacket \<Rightarrow> bool" where
  "pack_fine p = (case pack_buffer p of None \<Rightarrow> True
     | Some msg \<Rightarrow> 2 \<le> length msg \<and> hd msg \<in> {KKDD_LOGIN_MESSAGE_BASE, KKDD_MOVE_MESSAGE_BASE, KKDD_CHAT_MESSAGE_BASE} \<and>
         (hd msg = KKDD_LOGIN_MESSAGE_BASE \<longrightarrow> msg ! 1 \<noteq> KKDD_LOGINMSG_LOGIN))"

lemma pack_fine_handled: "pack_fine p \<Longrightarrow> handle_pack handlers p m = Inr m"
proof (cases "pack_buffer p")
  case None
  then show ?thesis by (simp add: handle_pack_def)
next
  case (Some msg)
  assume "pack_fine p"
  then have fine: "hd msg \<in> {KKDD_LOGIN_MESSAGE_BASE, KKDD_MOVE_MESSAGE_BASE, KKDD_CHAT_MESSAGE_BASE}" "2 \<le> length msg"
    "hd msg = KKDD_LOGIN_MESSAGE_BASE \<longrightarrow> msg ! 1 \<noteq> KKDD_LOGINMSG_LOGIN"
    using Some by (auto simp: pack_fine_def)
  then have "msg \<noteq> []" by auto
  then show ?thesis
    using handle_bound [OF fine(1) _ Some fine(3), of "Dispatcher_new 0" m] fine(2) by (simp add: handlers_def)
qed

lemma elapsed_now: "elapsed_ms ts (uint ts * 1000000) = 0"
proof -
  have "(x * 1000000) sdiv 1000000 = x" if "0 \<le> x" for x :: int
    using that by (cases "x = 0") (simp_all add: signed_divide_int_def)
  then show ?thesis by (simp add: elapsed_ms_def getCurrentTimeStampMiliSec_def)
qed

text \<open>One turn on a non-empty queue.\<close>

lemma dispatch_turn_head:
  assumes "lock_free d" "m_callBackMap d = handlers" "m_MsgQueue d = p # ps"
  shows "dispatch_turn t ts (uint ts * 1000000) d m = (case handle_pack handlers p m of
      Inl e \<Rightarrow> Inl e
    | Inr m' \<Rightarrow> Inr (if has_buffer p then DtHandled p (d\<lparr>m_MsgQueue := ps\<rparr>) m' else DtSkip p (d\<lparr>m_MsgQueue := ps\<rparr>)))"
proof (cases "pack_buffer p")
  case None
  then show ?thesis using assms by (simp add: dispatch_turn_def elapsed_now GetPack_ok handle_pack_def)
next
  case (Some msg)
  then show ?thesis
    using assms handle_pack_step [OF Some, where d = "d\<lparr>m_MsgQueue := ps\<rparr>" and w = m and L = "\<lambda>d w. Inr (DtHandled p d w)"]
    by (simp add: dispatch_turn_def elapsed_now GetPack_ok bnd_def split: sum.split)
qed

lemma sv_dispatch_all:
  assumes "sv_inv m0 s" "sv_fault s = None" "sv_logic s = LDispatch ts" "server_queue (sv_srv s) = ps @ qs" "list_all pack_fine ps"
  shows "\<exists>s'. (sv_step fl)\<^sup>*\<^sup>* s s' \<and> same_io s s' \<and> sv_logic s' = LDispatch ts \<and> server_queue (sv_srv s') = qs \<and>
    handled_of (sv_acts s') = handled_of (sv_acts s) @ ps"
  using assms
proof (induction ps arbitrary: s)
  case Nil
  then show ?case by (auto simp: same_io_def)
next
  case (Cons p ps)
  obtain d where d: "server_disp (sv_srv s) = Some d" "lock_free d" "m_callBackMap d = handlers" "m_MsgQueue d = p # ps @ qs"
    using Cons.prems(1,4) by (auto simp: sv_inv_def server_wf_def server_queue_def split: option.splits)
  let ?m = "m_petsManager (sv_srv s)" and ?d = "d\<lparr>m_MsgQueue := ps @ qs\<rparr>"
  define s1 where "s1 = s\<lparr>sv_srv := (if has_buffer p then (set_disp ?d (sv_srv s))\<lparr>m_petsManager := ?m\<rparr> else set_disp ?d (sv_srv s)),
    sv_acts := sv_acts s @ [AHandle p]\<rparr>"
  have turn: "dispatch_turn 0 ts (uint ts * 1000000) d ?m = Inr (if has_buffer p then DtHandled p ?d ?m else DtSkip p ?d)"
    using dispatch_turn_head [OF d(2-4), of 0 ts ?m] pack_fine_handled [of p ?m] Cons.prems(5) by simp
  have step: "sv_step fl s s1"
    using sv_turn_handled [OF Cons.prems(2,3) d(1), of 0 "uint ts * 1000000" p ?d ?m fl]
      sv_turn_skip [OF Cons.prems(2,3) d(1), of 0 "uint ts * 1000000" p ?d fl] turn
    by (auto simp: s1_def)
  have s1: "same_io s s1" "sv_fault s1 = None" "sv_logic s1 = LDispatch ts" "server_queue (sv_srv s1) = ps @ qs"
    "handled_of (sv_acts s1) = handled_of (sv_acts s) @ [p]"
    using Cons.prems(2,3) d by (auto simp: s1_def same_io_def server_queue_def)
  obtain s' where "(sv_step fl)\<^sup>*\<^sup>* s1 s'" "same_io s1 s'" "sv_logic s' = LDispatch ts" "server_queue (sv_srv s') = qs"
    "handled_of (sv_acts s') = handled_of (sv_acts s1) @ ps"
    using Cons.IH [OF sv_inv_step [OF Cons.prems(1) step] s1(2-4)] Cons.prems(5) by auto
  then show ?case using converse_rtranclp_into_rtranclp [of "sv_step fl", OF step] s1 by (auto simp: same_io_def)
qed

text \<open>The logic thread can always come to a dispatch; \<open>fl 0 = 0\<close> says that rounding keeps 0.\<close>

definition same_work :: "server_sys \<Rightarrow> server_sys \<Rightarrow> bool" where
  "same_work s s' \<longleftrightarrow> same_io s s' \<and> server_queue (sv_srv s') = server_queue (sv_srv s) \<and>
     handled_of (sv_acts s') = handled_of (sv_acts s)"

lemma same_work_refl: "same_work s s"
  by (simp add: same_work_def same_io_def)

lemma same_work_trans: "same_work s s' \<Longrightarrow> same_work s' s'' \<Longrightarrow> same_work s s''"
  by (simp add: same_work_def same_io_def)

lemma same_work_fault: "same_work s s' \<Longrightarrow> sv_fault s' = sv_fault s"
  by (simp add: same_work_def same_io_def)

lemma sv_pause_step:
  assumes "sv_fault s = None" "sv_logic s = LPause"
  shows "\<exists>s'. (sv_step fl)\<^sup>*\<^sup>* s s' \<and> same_work s s' \<and> sv_logic s' = LTop"
  by (rule exI, rule conjI, rule r_into_rtranclp, rule sv_pause [OF assms])
    (simp add: same_work_def same_io_def server_queue_def)

lemma sv_run_step:
  assumes "sv_fault s = None" "sv_logic s = LModules"
  shows "\<exists>s'. (sv_step fl)\<^sup>*\<^sup>* s s' \<and> same_work s s' \<and> sv_logic s' = LTop"
proof -
  obtain s1 where s1: "(sv_step fl)\<^sup>*\<^sup>* s s1" "same_work s s1" "sv_logic s1 = LPause"
    using r_into_rtranclp [of "sv_step fl", OF sv_run [OF assms]]
    by (force simp: same_work_def same_io_def server_queue_def)
  then show ?thesis
    using sv_pause_step [of s1 fl] same_work_fault [OF s1(2)] assms(1) same_work_trans [OF s1(2)]
    by (metis rtranclp_trans)
qed

lemma sv_frame_step:
  assumes inv: "sv_inv m0 s" and at: "sv_fault s = None" "sv_logic s = LTop" and fl: "fl 0 = 0"
  shows "\<exists>s' ts. (sv_step fl)\<^sup>*\<^sup>* s s' \<and> same_work s s' \<and> sv_logic s' = LDispatch ts"
proof -
  let ?t = "m_servertimer (sv_srv s)"
  have "getElapsedTimeMilliSec fl (ct_begin ?t) ?t \<le> of_int FRAME_MS" "\<not> m_exitFlag (sv_srv s)"
    using fl inv by (simp_all add: getElapsedTimeMilliSec_def getElapsedTimeInMicroSec_def FRAME_MS_def SERVER_FPS_def
        sv_inv_def server_wf_def)
  then have "sv_step fl s (s\<lparr>sv_logic := LDispatch (word_of_int (getCurrentTimeStampMiliSec 0))\<rparr>)"
    using at by (intro sv_frame)
  then have "(sv_step fl)\<^sup>*\<^sup>* s (s\<lparr>sv_logic := LDispatch (word_of_int (getCurrentTimeStampMiliSec 0))\<rparr>)" by blast
  then show ?thesis by (force simp: same_work_def same_io_def)
qed

lemma sv_to_dispatch:
  assumes inv: "sv_inv m0 s" and ok: "sv_fault s = None" and fl: "fl 0 = 0"
  shows "\<exists>s' ts. (sv_step fl)\<^sup>*\<^sup>* s s' \<and> same_work s s' \<and> sv_logic s' = LDispatch ts"
proof (cases "\<exists>ts. sv_logic s = LDispatch ts")
  case True
  then show ?thesis using same_work_refl by blast
next
  case False
  have "sv_logic s \<noteq> LGone" using inv by (simp add: sv_inv_def)
  then obtain s1 where s1: "(sv_step fl)\<^sup>*\<^sup>* s s1" "same_work s s1" "sv_logic s1 = LTop"
    using False sv_run_step [OF ok, of fl] sv_pause_step [OF ok, of fl] same_work_refl [of s]
    by (cases "sv_logic s") auto
  have "sv_fault s1 = None" using same_work_fault [OF s1(2)] ok by simp
  then show ?thesis
    using sv_frame_step [OF sv_inv_run [OF s1(1) inv] _ s1(3), where fl = fl] fl
      same_work_trans [OF s1(2)] rtranclp_trans [OF s1(1)] by blast
qed

section \<open>Consequences\<close>

lemma stream_frames:
  "stream_at p d packs recv \<Longrightarrow> \<exists>fs. packs = map (ctx_pack (AnyDnid d)) fs \<and> prefix fs (fst (decode recv))"
proof (cases p)
  case NotYet
  assume "stream_at p d packs recv"
  then show ?thesis using NotYet by (auto simp: decode_short)
qed (force simp: prefix_frames_def dest: consumed_decode split: prod.splits)+

text \<open>The I/O threads never fault.\<close>

lemma io_never_faults:
  assumes "sv_inv m0 s" "sv_place s c = Up conn" "codec (sv_srv s) = Some cd"
  shows "\<exists>r. onMessage_turn t (getContext conn) (tc_inputBuffer conn) cd = Inr r"
  using assms sv_inv_stream [OF assms(1), of c] server_wf_codec(1) [of "sv_srv s" cd]
  by (intro onMessage_turn_total) (auto simp: sv_inv_def)

text \<open>All that has been received is handled: first the frames are pushed, then the queue is worked off.\<close>

lemma sv_deliver:
  assumes inv: "sv_inv m0 s" and ok: "sv_fault s = None" and fl: "fl 0 = 0" and up: "sv_place s c = Up conn"
    and dec: "decode (content (tc_inputBuffer conn)) = (fs, rest, bad)"
    and fine: "list_all pack_fine ps" "server_queue (sv_srv s) @ map (ctx_pack (AnyDnid (sv_id s c))) fs = ps @ qs"
  shows "\<exists>s' ts. (sv_step fl)\<^sup>*\<^sup>* s s' \<and> sv_fault s' = None \<and> sv_logic s' = LDispatch ts \<and> server_queue (sv_srv s') = qs \<and>
    sv_recv s' = sv_recv s \<and> sv_id s' = sv_id s \<and> packs_of c s' = packs_of c s @ map (ctx_pack (AnyDnid (sv_id s c))) fs \<and>
    handled_of (sv_acts s') @ qs = map snd (sv_pushed s')"
proof -
  obtain s1 conn1 where s1: "(sv_step fl)\<^sup>*\<^sup>* s s1" "sv_fault s1 = None" "sv_recv s1 = sv_recv s" "sv_id s1 = sv_id s"
    "sv_pushed s1 = sv_pushed s @ map (\<lambda>f. (c, ctx_pack (AnyDnid (sv_id s c)) f)) fs"
    and acts1: "sv_acts s1 = sv_acts s"
    using sv_push_all [OF inv ok up dec, of fl] by blast
  note inv1 = sv_inv_run [OF s1(1) inv]
  have "handled_of (sv_acts s) @ server_queue (sv_srv s1) = map snd (sv_pushed s1)"
    using inv1 acts1 by (simp add: sv_inv_def)
  also have "\<dots> = handled_of (sv_acts s) @ server_queue (sv_srv s) @ map (ctx_pack (AnyDnid (sv_id s c))) fs"
    using inv by (simp add: s1(5) sv_inv_def)
  finally have queue1: "server_queue (sv_srv s1) = ps @ qs" using fine(2) by simp
  obtain s2 ts where s2: "(sv_step fl)\<^sup>*\<^sup>* s1 s2" "same_work s1 s2" "sv_logic s2 = LDispatch ts"
    using sv_to_dispatch [OF inv1 s1(2), where fl = fl] fl by blast
  have "sv_fault s2 = None" "server_queue (sv_srv s2) = ps @ qs"
    using s2(2) s1(2) queue1 by (simp_all add: same_work_def same_io_def)
  then obtain s3 where s3: "(sv_step fl)\<^sup>*\<^sup>* s2 s3" "same_io s2 s3" "sv_logic s3 = LDispatch ts" "server_queue (sv_srv s3) = qs"
    using sv_dispatch_all [OF sv_inv_run [OF s2(1) inv1] _ s2(3) _ fine(1), of qs fl] by blast
  have run: "(sv_step fl)\<^sup>*\<^sup>* s s3" using s1(1) s2(1) s3(1) by (meson rtranclp_trans)
  have same: "sv_pushed s3 = sv_pushed s1" "sv_recv s3 = sv_recv s" "sv_id s3 = sv_id s" "sv_fault s3 = None"
    using s2(2) s3(2) s1 by (simp_all add: same_work_def same_io_def)
  have "filter (\<lambda>x. fst x = c) (map (\<lambda>f. (c, ctx_pack (AnyDnid (sv_id s c)) f)) fs) =
      map (\<lambda>f. (c, ctx_pack (AnyDnid (sv_id s c)) f)) fs"
    by (simp add: filter_id_conv)
  then have "packs_of c s3 = packs_of c s @ map (ctx_pack (AnyDnid (sv_id s c))) fs"
    by (simp add: packs_of_def same(1) s1(5) o_def)
  moreover have "handled_of (sv_acts s3) @ qs = map snd (sv_pushed s3)"
    using sv_inv_run [OF run inv] s3(4) by (simp add: sv_inv_def)
  ultimately show ?thesis using run same s3(3,4) by blast
qed

lemma live_at_Some: "live_at p d = Some e \<longleftrightarrow> (\<exists>conn. p = Up conn) \<and> d = e"
  by (cases p) auto

text \<open>A frame of the fight type, for which no handler is bound.\<close>

lemma fight_unhandled: "handle_pack handlers (ctx_pack (AnyDnid d) [KKDD_FIGHT_MESSAGE_BASE]) m = Inl BadFunctionCall"
  using handle_unbound [of "ctx_pack (AnyDnid d) [KKDD_FIGHT_MESSAGE_BASE]" "[KKDD_FIGHT_MESSAGE_BASE]" 0 m]
  by (simp add: handlers_def ctx_pack_def KKDD_FIGHT_MESSAGE_BASE_def KKDD_CHAT_MESSAGE_BASE_def KKDD_LOGIN_MESSAGE_BASE_def
      KKDD_MOVE_MESSAGE_BASE_def)

lemma sv_one_frame:
  assumes inv: "sv_inv m0 s" and ok: "sv_fault s = None" and fl: "fl 0 = 0" and up: "sv_place s c = Up conn"
    and room: "content (tc_inputBuffer conn) = []" "writerIndex (tc_inputBuffer conn) + 5 \<le> vec_max"
    and fine: "list_all pack_fine (server_queue (sv_srv s))"
  shows "\<exists>s'. (sv_step fl)\<^sup>*\<^sup>* s s' \<and> sv_fault s' = Some BadFunctionCall \<and>
    sv_recv s' c = sv_recv s c @ encode [KKDD_FIGHT_MESSAGE_BASE]"
proof -
  let ?bs = "encode [KKDD_FIGHT_MESSAGE_BASE]" and ?p = "ctx_pack (AnyDnid (sv_id s c)) [KKDD_FIGHT_MESSAGE_BASE]"
  have "buffer_ok (tc_inputBuffer conn)" using sv_inv_stream [OF inv, of c] up by auto
  moreover have fit: "writerIndex (tc_inputBuffer conn) + length ?bs \<le> vec_max" using room(2) by (simp add: encode_def)
  ultimately obtain b where b: "Buffer_append (tc_inputBuffer conn) ?bs = Inr b" "content b = ?bs"
    using Buffer_append_ok [of "tc_inputBuffer conn" ?bs] room(1) by auto
  define s1 where "s1 = set_conn c (Up (conn\<lparr>tc_inputBuffer := b\<rparr>)) (s\<lparr>sv_recv := (sv_recv s)(c := sv_recv s c @ ?bs)\<rparr>)"
  have step: "sv_step fl s s1" unfolding s1_def by (rule sv_bytes [OF ok up fit b(1)])
  note inv1 = sv_inv_step [OF inv step]
  have s1: "sv_fault s1 = None" "sv_place s1 c = Up (conn\<lparr>tc_inputBuffer := b\<rparr>)" "sv_id s1 = sv_id s" "sv_srv s1 = sv_srv s"
    "sv_recv s1 c = sv_recv s c @ ?bs"
    using ok by (simp_all add: s1_def set_conn_def)
  have "decode (content (tc_inputBuffer (conn\<lparr>tc_inputBuffer := b\<rparr>))) = ([[KKDD_FIGHT_MESSAGE_BASE]], [], False)"
    using b(2) decode_encode [of "[KKDD_FIGHT_MESSAGE_BASE]" "[]"] by (simp add: decode_short)
  then obtain s2 ts where s2: "(sv_step fl)\<^sup>*\<^sup>* s1 s2" "sv_fault s2 = None" "sv_logic s2 = LDispatch ts"
    "server_queue (sv_srv s2) = [?p]" "sv_recv s2 = sv_recv s1"
    using sv_deliver [where fl = fl and qs = "[?p]", OF inv1 s1(1) fl s1(2)] fine s1(3,4) by fastforce
  obtain d where d: "server_disp (sv_srv s2) = Some d" "lock_free d" "m_callBackMap d = handlers" "m_MsgQueue d = [?p]"
    using sv_inv_run [OF s2(1) inv1] s2(4) by (auto simp: sv_inv_def server_wf_def server_queue_def split: option.splits)
  have "dispatch_turn 0 ts (uint ts * 1000000) d (m_petsManager (sv_srv s2)) = Inl BadFunctionCall"
    by (simp add: dispatch_turn_head [OF d(2-4)] fight_unhandled)
  then have "sv_step fl s2 (s2\<lparr>sv_fault := Some BadFunctionCall\<rparr>)" by (rule sv_turn_fault [OF s2(2,3) d(1)])
  then have "(sv_step fl)\<^sup>*\<^sup>* s (s2\<lparr>sv_fault := Some BadFunctionCall\<rparr>)"
    using converse_rtranclp_into_rtranclp [of "sv_step fl", OF step] s2(1) by (meson rtranclp.rtrancl_into_rtrancl rtranclp_trans)
  then show ?thesis by (intro exI [of _ "s2\<lparr>sv_fault := Some BadFunctionCall\<rparr>"]) (simp add: s2(5) s1(5))
qed

end
