(* ===== verification/Lock_Discipline.thy ===== *)
theory Lock_Discipline
  imports Sync Transition
begin

text \<open>
  The two disciplines the threads of the interleavings below follow, stated once over any type
  \<open>'a\<close> of places a thread can be at inside a call. Locale \<open>lock_places\<close>: exactly the threads at
  a place that \<open>holds\<close> the lock own it. Locale \<open>wait_class\<close> extends it with the discipline of a
  condition variable, from which follows that no wake-up is lost. They are interpreted on the
  places of \<^verbatim>\<open>BlockingQueue\<close>, \<^verbatim>\<open>BoundedBlockingQueue\<close>, the packet queue of the dispatcher and
  the task queue of the SQL thread.
\<close>

section \<open>Facts about the primitives\<close>

lemma cond_wait_begin_ok:
  "cond_wait_begin t m c = Inr (m', c') \<Longrightarrow>
    (mutex_ok m' \<and> mx_owner m' = None \<and> mx_owner m = Some t) \<and> cond_waiters c' = cond_waiters c @ [t]"
  by (auto simp: cond_wait_begin_def UnassignGuard_new_def unassignHolder_def mutex_ok_def Let_def split: if_splits)

lemma cond_wait_end_ok:
  "cond_wait_end t m c = Some m' \<Longrightarrow>
    (mutex_ok m' \<and> mx_owner m' = Some t \<and> mx_owner m = None) \<and> t \<notin> set (cond_waiters c)"
  by (auto simp: cond_wait_end_def UnassignGuard_dtor_def assignHolder_def mutex_ok_def split: if_splits)

lemma cond_wait_begin_owner: "mx_owner m = Some t \<Longrightarrow> \<exists>m' c'. cond_wait_begin t m c = Inr (m', c')"
  by (simp add: cond_wait_begin_def UnassignGuard_new_def unassignHolder_def)

lemma mutex_unlock_owner: "mx_owner m = Some t \<Longrightarrow> \<exists>m'. MutexLockGuard_dtor t m = Inr m'"
  by (simp add: MutexLockGuard_dtor_def mutex_unlock_def unassignHolder_def Let_def)

text \<open>What threads at certain places, all behind the lock, may rely on.\<close>

definition when_at :: "('a \<Rightarrow> bool) \<Rightarrow> (int \<Rightarrow> 'a) \<Rightarrow> bool \<Rightarrow> bool" where
  "when_at pl pc b \<longleftrightarrow> (\<forall>t. pl (pc t) \<longrightarrow> b)"

lemma when_at_True [simp]: "when_at pl pc True"
  by (simp add: when_at_def)

lemma when_at_upd: "when_at pl pc b \<Longrightarrow> (pl p \<Longrightarrow> b) \<Longrightarrow> when_at pl (pc(t := p)) b"
  by (auto simp: when_at_def)

section \<open>A lock\<close>

locale lock_places =
  fixes holds :: "'a \<Rightarrow> bool"
    and idle :: 'a
  assumes idle_free: "\<not> holds idle"
begin

definition lock_inv :: "(int \<Rightarrow> 'a) \<Rightarrow> MutexLock \<Rightarrow> bool" where
  "lock_inv pc m \<longleftrightarrow> mutex_ok m \<and> (\<forall>t. holds (pc t) \<longleftrightarrow> mx_owner m = Some t) \<and> finite {t. pc t \<noteq> idle}"

lemma lock_inv_only: "lock_inv pc m \<Longrightarrow> holds (pc t) \<Longrightarrow> holds (pc u) \<Longrightarrow> u = t"
  by (simp add: lock_inv_def)

lemma lock_inv_upd:
  assumes "lock_inv pc m" "mutex_ok m'" "\<And>u. holds ((pc(t := p)) u) \<longleftrightarrow> mx_owner m' = Some u"
  shows "lock_inv (pc(t := p)) m'"
proof -
  have "{u. (pc(t := p)) u \<noteq> idle} \<subseteq> insert t {u. pc u \<noteq> idle}" by auto
  moreover have "finite (insert t {u. pc u \<noteq> idle})" using assms(1) by (simp add: lock_inv_def)
  ultimately have "finite {u. (pc(t := p)) u \<noteq> idle}" by (rule finite_subset)
  then show ?thesis using assms(2,3) by (simp add: lock_inv_def)
qed

text \<open>The three ways the place of a thread and the lock change together.\<close>

lemma lock_inv_stay: "lock_inv pc m \<Longrightarrow> holds (pc t) = holds p \<Longrightarrow> lock_inv (pc(t := p)) m"
  by (rule lock_inv_upd [where m = m]) (simp_all add: lock_inv_def)

lemma lock_inv_acquire:
  assumes "lock_inv pc m" "mutex_ok m' \<and> mx_owner m' = Some t \<and> mx_owner m = None" "holds p"
  shows "lock_inv (pc(t := p)) m'"
proof (rule lock_inv_upd [OF assms(1)])
  fix u
  have "\<not> holds (pc u)" using assms by (simp add: lock_inv_def)
  then show "holds ((pc(t := p)) u) \<longleftrightarrow> mx_owner m' = Some u" using assms(2,3) by simp
qed (use assms in simp)

lemma lock_inv_release:
  assumes "lock_inv pc m" "mutex_ok m' \<and> mx_owner m' = None \<and> mx_owner m = Some t" "\<not> holds p"
  shows "lock_inv (pc(t := p)) m'"
proof (rule lock_inv_upd [OF assms(1)])
  fix u
  have "holds (pc u) \<longleftrightarrow> u = t" using assms by (auto simp: lock_inv_def)
  then show "holds ((pc(t := p)) u) \<longleftrightarrow> mx_owner m' = Some u" using assms(2,3) by simp
qed (use assms in simp)

lemma when_at_alone:
  "lock_inv pc m \<Longrightarrow> holds (pc t) \<Longrightarrow> (\<And>q. pl q \<Longrightarrow> holds q) \<Longrightarrow> \<not> pl p \<Longrightarrow> when_at pl (pc(t := p)) b"
  using lock_inv_only by (fastforce simp: when_at_def)

text \<open>In a state with every thread outside the lock is free.\<close>

lemma lock_inv_init: "mutex_ok m \<Longrightarrow> mx_owner m = None \<Longrightarrow> lock_inv (\<lambda>_. idle) m"
  by (simp add: lock_inv_def idle_free)

lemma lock_inv_owner: "lock_inv pc m \<Longrightarrow> holds (pc t) \<Longrightarrow> mx_owner m = Some t"
  by (simp add: lock_inv_def)

end

section \<open>A condition variable\<close>

text \<open>
  The discipline of a condition variable. \<open>busy\<close> are the places of threads that are on their
  way to what the condition announces or still owe a notification; \<open>slp\<close> the places inside
  \<^verbatim>\<open>wait\<close>. While some thread sleeps, each of the \<open>n\<close> available units has such a thread.
\<close>

locale wait_class = lock_places +
  fixes busy :: "'a \<Rightarrow> bool"
    and slp :: "'a \<Rightarrow> bool"
  assumes idle: "\<not> busy idle" "\<not> slp idle"
    and apart: "busy p \<Longrightarrow> \<not> slp p"
    and unlocked: "slp p \<Longrightarrow> \<not> holds p"
begin

definition wakers :: "(int \<Rightarrow> 'a) \<Rightarrow> Condition \<Rightarrow> int set" where
  "wakers pc c = {t. busy (pc t) \<or> slp (pc t) \<and> t \<notin> set (cond_waiters c)}"

definition wake_inv :: "(int \<Rightarrow> 'a) \<Rightarrow> Condition \<Rightarrow> nat \<Rightarrow> bool" where
  "wake_inv pc c n \<longleftrightarrow> finite (wakers pc c) \<and> distinct (cond_waiters c) \<and> (\<forall>t \<in> set (cond_waiters c). slp (pc t)) \<and>
     (cond_waiters c \<noteq> [] \<longrightarrow> n \<le> card (wakers pc c))"

lemma wake_inv_awake: "wake_inv pc c n \<Longrightarrow> \<not> slp (pc t) \<Longrightarrow> t \<notin> set (cond_waiters c)"
  by (auto simp: wake_inv_def)

lemma wakers_upd:
  "wakers (pc(t := p)) c = (if busy p \<or> slp p \<and> t \<notin> set (cond_waiters c) then insert t (wakers pc c) else wakers pc c - {t})"
  by (auto simp: wakers_def)

text \<open>A move of a thread that is awake and stays a waker if it is one.\<close>

lemma wake_inv_move:
  assumes "wake_inv pc c n" "t \<notin> set (cond_waiters c)" "t \<in> wakers pc c \<longrightarrow> busy p \<or> slp p"
  shows "wake_inv (pc(t := p)) c n"
  using assms by (auto simp: wake_inv_def wakers_upd card_insert_if)

text \<open>A move that adds a unit and makes the thread a waker; one that takes a unit.\<close>

lemma wake_inv_gain:
  assumes "wake_inv pc c n" "t \<notin> set (cond_waiters c)" "t \<notin> wakers pc c" "busy p"
  shows "wake_inv (pc(t := p)) c (Suc n)"
  using assms by (auto simp: wake_inv_def wakers_upd)

lemma wake_inv_lose:
  assumes "wake_inv pc c n" "t \<notin> set (cond_waiters c)" "n' < n" "t \<notin> wakers pc c \<longrightarrow> \<not> slp p"
  shows "wake_inv (pc(t := p)) c n'"
proof -
  have "card (wakers pc c) \<le> Suc (card (wakers pc c - {t}))"
    using card_Diff1_le [of "wakers pc c" t] assms(1)
    by (cases "t \<in> wakers pc c") (simp_all add: wake_inv_def card_Suc_Diff1)
  then show ?thesis using assms by (auto simp: wake_inv_def wakers_upd card_insert_if)
qed

lemma wake_inv_none:
  assumes "wake_inv pc c n" "\<forall>u \<in> set (cond_waiters c'). slp ((pc(t := p)) u)" "distinct (cond_waiters c')"
    "set (cond_waiters c) \<subseteq> set (cond_waiters c')"
  shows "wake_inv (pc(t := p)) c' 0"
proof -
  have "wakers (pc(t := p)) c' \<subseteq> insert t (wakers pc c)" using assms(4) by (auto simp: wakers_def)
  then have "finite (wakers (pc(t := p)) c')" using assms(1) by (meson finite_insert finite_subset wake_inv_def)
  then show ?thesis using assms by (simp add: wake_inv_def)
qed

text \<open>Waking one thread makes up for the notifier.\<close>

lemma wake_inv_remove:
  assumes "wake_inv pc c n" "w \<in> set (cond_waiters c)"
  shows "wake_inv pc (c\<lparr>cond_waiters := remove1 w (cond_waiters c)\<rparr>) n"
    "wakers pc (c\<lparr>cond_waiters := remove1 w (cond_waiters c)\<rparr>) = insert w (wakers pc c)"
proof -
  show eq: "wakers pc (c\<lparr>cond_waiters := remove1 w (cond_waiters c)\<rparr>) = insert w (wakers pc c)"
    using assms by (auto simp: wakers_def wake_inv_def)
  have "n \<le> card (insert w (wakers pc c))"
    using assms by (auto simp: wake_inv_def card_insert_if)
  then show "wake_inv pc (c\<lparr>cond_waiters := remove1 w (cond_waiters c)\<rparr>) n"
    using assms by (auto simp: wake_inv_def eq)
qed

lemma wake_inv_notify:
  assumes inv: "wake_inv pc c n" and awake: "t \<notin> set (cond_waiters c)" and p: "\<not> slp p"
  shows "wake_inv (pc(t := p)) (cond_notify pick c) n"
proof (cases "cond_waiters c = []")
  case True
  then show ?thesis using inv by (simp add: cond_notify_def wake_inv_def wakers_upd)
next
  case False
  define w where "w = (if pick (cond_waiters c) \<in> set (cond_waiters c) then pick (cond_waiters c) else hd (cond_waiters c))"
  then have w: "w \<in> set (cond_waiters c)" "cond_notify pick c = c\<lparr>cond_waiters := remove1 w (cond_waiters c)\<rparr>"
    using False by (auto simp: cond_notify_def Let_def)
  have "w \<notin> wakers pc c" using inv w(1) apart by (auto simp: wake_inv_def wakers_def)
  then have "Suc n \<le> card (wakers pc (cond_notify pick c))"
    using inv False by (simp add: w(2) wake_inv_remove(2) [OF inv w(1)] wake_inv_def)
  then have "wake_inv pc (cond_notify pick c) (Suc n)"
    using wake_inv_remove(1) [OF inv w(1)] by (simp add: w(2) wake_inv_def)
  moreover have "t \<notin> set (cond_waiters (cond_notify pick c))"
    using awake w(2) notin_set_remove1 by (simp add: w(2))
  ultimately show ?thesis using p by (intro wake_inv_lose [where n = "Suc n"]) simp_all
qed

text \<open>No lost wake-up: with units left and a sleeper, some thread is awake and will look.\<close>

lemma wake_inv_progress: "wake_inv pc c n \<Longrightarrow> cond_waiters c \<noteq> [] \<Longrightarrow> 0 < n \<Longrightarrow> wakers pc c \<noteq> {}"
  by (auto simp: wake_inv_def)

end

end
