(* ===== verification/Server_Threads.thy ===== *)
theory Server_Threads
  imports Server_System Lock_Discipline
begin

text \<open>
  The running server once more, with the lock: \<^verbatim>\<open>PushPack\<close> and \<^verbatim>\<open>GetPack\<close> are taken apart into their
  statements, so that every I/O thread can be anywhere inside a turn of \<^verbatim>\<open>onMessage\<close> and the logic
  thread anywhere inside a turn of \<^verbatim>\<open>DispatchMsg\<close> while others run. A connection is served by one
  I/O thread; \<open>int c\<close> stands for the work of its thread on connection \<open>c\<close>, \<open>-1\<close> for the logic
  thread. The steps refine those of \<open>Server_System\<close>: a turn of \<^verbatim>\<open>onMessage\<close> takes effect when its
  packet enters the queue, a turn of \<^verbatim>\<open>DispatchMsg\<close> when the handler runs.
\<close>

section \<open>The turns, cut at the calls of PushPack and GetPack\<close>

datatype om_begin = BeginStop "tcp_call list" | BeginFrame SPacket nat Buffer

text \<open>\<^verbatim>\<open>onMessage\<close> up to the call of \<^verbatim>\<open>PushPack\<close>; after it the \<open>nat\<close> bytes of the body are retrieved.\<close>

definition onMessage_begin :: "conn_any \<Rightarrow> Buffer \<Rightarrow> om_begin result" where
  "onMessage_begin ctx buf =
     (if readableBytes buf \<ge> HEADMSGLEN then
        (let len = header_len (buf_range buf (peek buf) (peek buf + 4))
         in if len > 65536 \<or> len < 0 then Inr (BeginStop [CallShutdown])
            else if readableBytes buf \<ge> nat len + HEADMSGLEN then
              bnd (retrieve buf HEADMSGLEN) (\<lambda>buf1.
              bnd (make_pack ctx (buf_range buf1 (peek buf1) (peek buf1 + nat len))) (\<lambda>pack.
                Inr (BeginFrame pack (nat len) buf1)))
            else Inr (BeginStop []))
      else Inr (BeginStop []))"

lemma onMessage_turn_begin:
  "onMessage_turn t ctx buf c = bnd (onMessage_begin ctx buf) (\<lambda>r. case r of
     BeginStop calls \<Rightarrow> Inr (OmStop calls)
   | BeginFrame p n buf1 \<Rightarrow> bnd (push_to t p c) (\<lambda>c1. bnd (retrieve buf1 n) (\<lambda>buf2. Inr (OmPushed p buf2 c1))))"
  by (simp add: onMessage_turn_def onMessage_begin_def Let_def bnd_assoc)

text \<open>\<^verbatim>\<open>DispatchMsg\<close> from the return of \<^verbatim>\<open>GetPack\<close> with a packet.\<close>

definition dispatch_pack :: "SPacket \<Rightarrow> 'w Dispatcher \<Rightarrow> 'w \<Rightarrow> 'w disp_turn result" where
  "dispatch_pack pack d w =
     (case pack_buffer pack of
        None \<Rightarrow> Inr (DtSkip pack d)
      | Some pmsg \<Rightarrow>
          bnd (read_byte pmsg 0) (\<lambda>proto.
            case callback_at (ucast proto) d of (cb, d1) \<Rightarrow>
              (case cb of
                 None \<Rightarrow> Inl BadFunctionCall
               | Some f \<Rightarrow>
                   bnd (f (pack_dnid pack) pmsg (pack_context pack) w) (\<lambda>w'. Inr (DtHandled pack d1 w')))))"

lemma dispatch_turn_pack:
  "dispatch_turn t beginTS now d w =
     (if elapsed_ms beginTS now \<le> 1000 then
        bnd (GetPack t d) (\<lambda>(got, d2). case got of None \<Rightarrow> Inr (DtStop d2) | Some pack \<Rightarrow> dispatch_pack pack d2 w)
      else Inr (DtStop d))"
  unfolding dispatch_turn_def dispatch_pack_def by (rule refl)

lemma dispatch_pack_handles:
  "dispatch_pack p d w = (case handle_pack (m_callBackMap d) p w of Inl e \<Rightarrow> Inl e
     | Inr w' \<Rightarrow> Inr (if has_buffer p then DtHandled p d w' else DtSkip p d))"
proof (cases "pack_buffer p")
  case (Some pmsg)
  then show ?thesis
    using handle_pack_step [OF Some, where d = d and w = w and L = "\<lambda>d w. Inr (DtHandled p d w)"]
    by (simp add: dispatch_pack_def bnd_def split: sum.split)
qed (simp add: dispatch_pack_def handle_pack_def)

section \<open>State\<close>

text \<open>
  Where a thread is. \<open>IoWant b p n\<close>: the header is retrieved and packet \<open>p\<close> built, \<open>b\<close> is what
  the buffer was; then the lock is taken, the packet pushed, the lock released, and last the \<open>n\<close>
  bytes of the body retrieved. \<open>LgSeen now\<close>: the clock read \<open>now\<close>, and the queue looked not empty.
\<close>

datatype ft_place = FIdle | IoWant Buffer SPacket nat | IoHeld Buffer SPacket nat | IoPut nat | IoBody nat
  | LgSeen int | LgHeld int | LgGot int SPacket | LgRun int SPacket

record ft_sys =
  ft_sv :: server_sys
  ft_pc :: "int \<Rightarrow> ft_place"

definition ft_init :: "CObjectManager \<Rightarrow> ft_sys \<Rightarrow> bool" where
  "ft_init m0 s \<longleftrightarrow> sv_init m0 (ft_sv s) \<and> ft_pc s = (\<lambda>_. FIdle)"

definition ft_goto :: "int \<Rightarrow> ft_place \<Rightarrow> server_sys \<Rightarrow> ft_sys \<Rightarrow> ft_sys" where
  "ft_goto t p sv s = \<lparr>ft_sv = sv, ft_pc = (ft_pc s)(t := p)\<rparr>"

text \<open>The state with another dispatcher.\<close>

definition sv_disp :: "CObjectManager Dispatcher \<Rightarrow> server_sys \<Rightarrow> server_sys" where
  "sv_disp d sv = sv\<lparr>sv_srv := set_disp d (sv_srv sv)\<rparr>"

section \<open>Steps\<close>

inductive ft_step :: "(real \<Rightarrow> real) \<Rightarrow> ft_sys \<Rightarrow> ft_sys \<Rightarrow> bool" for fl where
  ft_up: "ft_sv s = sv \<Longrightarrow> sv_fault sv = None \<Longrightarrow> sv_place sv c = NotYet \<Longrightarrow> connected conn \<Longrightarrow>
    Buffer_new kInitialSize = Inr (tc_inputBuffer conn) \<Longrightarrow>
    onConnection tm rnd c conn (sv_srv sv) = Inr (conn', srv') \<Longrightarrow> getContext conn' = AnyDnid d \<Longrightarrow>
    ft_step fl s (s\<lparr>ft_sv := set_conn c (Up conn') (sv\<lparr>sv_srv := srv', sv_id := (sv_id sv)(c := d)\<rparr>)\<rparr>)"
| ft_down: "ft_sv s = sv \<Longrightarrow> sv_fault sv = None \<Longrightarrow> sv_place sv c = Up conn \<Longrightarrow> ft_pc s (int c) = FIdle \<Longrightarrow>
    onConnection tm rnd c (setState kDisconnected conn) (sv_srv sv) = Inr (conn', srv') \<Longrightarrow>
    ft_step fl s (s\<lparr>ft_sv := set_conn c Closed (sv\<lparr>sv_srv := srv'\<rparr>)\<rparr>)"
| ft_bytes: "ft_sv s = sv \<Longrightarrow> sv_fault sv = None \<Longrightarrow> sv_place sv c = Up conn \<Longrightarrow> ft_pc s (int c) = FIdle \<Longrightarrow>
    writerIndex (tc_inputBuffer conn) + length bs \<le> vec_max \<Longrightarrow> Buffer_append (tc_inputBuffer conn) bs = Inr b \<Longrightarrow>
    ft_step fl s (s\<lparr>ft_sv := set_conn c (Up (conn\<lparr>tc_inputBuffer := b\<rparr>)) (sv\<lparr>sv_recv := (sv_recv sv)(c := sv_recv sv c @ bs)\<rparr>)\<rparr>)"
| ft_begin: "ft_sv s = sv \<Longrightarrow> sv_fault sv = None \<Longrightarrow> sv_place sv c = Up conn \<Longrightarrow> ft_pc s (int c) = FIdle \<Longrightarrow>
    onMessage_begin (getContext conn) (tc_inputBuffer conn) = Inr (BeginFrame p n b1) \<Longrightarrow>
    ft_step fl s (ft_goto (int c) (IoWant (tc_inputBuffer conn) p n) (set_conn c (Up (conn\<lparr>tc_inputBuffer := b1\<rparr>)) sv) s)"
| ft_wait: "ft_sv s = sv \<Longrightarrow> sv_fault sv = None \<Longrightarrow> sv_place sv c = Up conn \<Longrightarrow> ft_pc s (int c) = FIdle \<Longrightarrow>
    onMessage_begin (getContext conn) (tc_inputBuffer conn) = Inr (BeginStop calls) \<Longrightarrow>
    ft_step fl s (s\<lparr>ft_sv := sv\<lparr>sv_calls := (sv_calls sv)(c := sv_calls sv c @ calls)\<rparr>\<rparr>)"
| ft_begin_fault: "ft_sv s = sv \<Longrightarrow> sv_fault sv = None \<Longrightarrow> sv_place sv c = Up conn \<Longrightarrow> ft_pc s (int c) = FIdle \<Longrightarrow>
    onMessage_begin (getContext conn) (tc_inputBuffer conn) = Inl e \<Longrightarrow> ft_step fl s (s\<lparr>ft_sv := sv\<lparr>sv_fault := Some e\<rparr>\<rparr>)"
| ft_lock: "ft_sv s = sv \<Longrightarrow> sv_fault sv = None \<Longrightarrow> ft_pc s (int c) = IoWant b p n \<Longrightarrow> server_disp (sv_srv sv) = Some d \<Longrightarrow>
    mutex_lock (int c) (m_msgQueueMtx d) = Some m \<Longrightarrow>
    ft_step fl s (ft_goto (int c) (IoHeld b p n) (sv_disp (d\<lparr>m_msgQueueMtx := m\<rparr>) sv) s)"
| ft_push: "ft_sv s = sv \<Longrightarrow> sv_fault sv = None \<Longrightarrow> ft_pc s (int c) = IoHeld b p n \<Longrightarrow> server_disp (sv_srv sv) = Some d \<Longrightarrow>
    ft_step fl s (ft_goto (int c) (IoPut n)
      (sv_disp (d\<lparr>m_MsgQueue := m_MsgQueue d @ [p]\<rparr>) (sv\<lparr>sv_pushed := sv_pushed sv @ [(c, p)]\<rparr>)) s)"
| ft_unlock: "ft_sv s = sv \<Longrightarrow> sv_fault sv = None \<Longrightarrow> ft_pc s (int c) = IoPut n \<Longrightarrow> server_disp (sv_srv sv) = Some d \<Longrightarrow>
    mutex_unlock (int c) (m_msgQueueMtx d) = Inr m \<Longrightarrow>
    ft_step fl s (ft_goto (int c) (IoBody n) (sv_disp (d\<lparr>m_msgQueueMtx := m\<rparr>) sv) s)"
| ft_body: "ft_sv s = sv \<Longrightarrow> sv_fault sv = None \<Longrightarrow> ft_pc s (int c) = IoBody n \<Longrightarrow> sv_place sv c = Up conn \<Longrightarrow>
    retrieve (tc_inputBuffer conn) n = Inr b \<Longrightarrow>
    ft_step fl s (ft_goto (int c) FIdle (set_conn c (Up (conn\<lparr>tc_inputBuffer := b\<rparr>)) sv) s)"
| ft_body_fault: "ft_sv s = sv \<Longrightarrow> sv_fault sv = None \<Longrightarrow> ft_pc s (int c) = IoBody n \<Longrightarrow> sv_place sv c = Up conn \<Longrightarrow>
    retrieve (tc_inputBuffer conn) n = Inl e \<Longrightarrow> ft_step fl s (s\<lparr>ft_sv := sv\<lparr>sv_fault := Some e\<rparr>\<rparr>)"
| ft_frame: "ft_sv s = sv \<Longrightarrow> sv_fault sv = None \<Longrightarrow> sv_logic sv = LTop \<Longrightarrow> \<not> m_exitFlag (sv_srv sv) \<Longrightarrow>
    getElapsedTimeMilliSec fl now (m_servertimer (sv_srv sv)) \<le> of_int FRAME_MS \<Longrightarrow>
    ft_step fl s (s\<lparr>ft_sv := sv\<lparr>sv_logic := LDispatch (word_of_int (getCurrentTimeStampMiliSec t0))\<rparr>\<rparr>)"
| ft_late: "ft_sv s = sv \<Longrightarrow> sv_fault sv = None \<Longrightarrow> sv_logic sv = LTop \<Longrightarrow> \<not> m_exitFlag (sv_srv sv) \<Longrightarrow>
    \<not> getElapsedTimeMilliSec fl now (m_servertimer (sv_srv sv)) \<le> of_int FRAME_MS \<Longrightarrow>
    ft_step fl s (s\<lparr>ft_sv := sv\<lparr>sv_logic := LPause\<rparr>\<rparr>)"
| ft_exit: "ft_sv s = sv \<Longrightarrow> sv_fault sv = None \<Longrightarrow> sv_logic sv = LTop \<Longrightarrow> m_exitFlag (sv_srv sv) \<Longrightarrow>
    ft_step fl s (s\<lparr>ft_sv := sv\<lparr>sv_logic := LGone, sv_fault := Some MissingReturn\<rparr>\<rparr>)"
| ft_over: "ft_sv s = sv \<Longrightarrow> sv_fault sv = None \<Longrightarrow> sv_logic sv = LDispatch ts \<Longrightarrow> ft_pc s (-1) = FIdle \<Longrightarrow>
    \<not> elapsed_ms ts now \<le> 1000 \<Longrightarrow> ft_step fl s (s\<lparr>ft_sv := sv\<lparr>sv_logic := LModules\<rparr>\<rparr>)"
| ft_empty: "ft_sv s = sv \<Longrightarrow> sv_fault sv = None \<Longrightarrow> sv_logic sv = LDispatch ts \<Longrightarrow> ft_pc s (-1) = FIdle \<Longrightarrow>
    elapsed_ms ts now \<le> 1000 \<Longrightarrow> server_disp (sv_srv sv) = Some d \<Longrightarrow> m_MsgQueue d = [] \<Longrightarrow>
    ft_step fl s (s\<lparr>ft_sv := sv\<lparr>sv_logic := LModules\<rparr>\<rparr>)"
| ft_seen: "ft_sv s = sv \<Longrightarrow> sv_fault sv = None \<Longrightarrow> sv_logic sv = LDispatch ts \<Longrightarrow> ft_pc s (-1) = FIdle \<Longrightarrow>
    elapsed_ms ts now \<le> 1000 \<Longrightarrow> server_disp (sv_srv sv) = Some d \<Longrightarrow> m_MsgQueue d \<noteq> [] \<Longrightarrow>
    ft_step fl s (ft_goto (-1) (LgSeen now) sv s)"
| ft_get_lock: "ft_sv s = sv \<Longrightarrow> sv_fault sv = None \<Longrightarrow> ft_pc s (-1) = LgSeen now \<Longrightarrow> server_disp (sv_srv sv) = Some d \<Longrightarrow>
    mutex_lock (-1) (m_msgQueueMtx d) = Some m \<Longrightarrow>
    ft_step fl s (ft_goto (-1) (LgHeld now) (sv_disp (d\<lparr>m_msgQueueMtx := m\<rparr>) sv) s)"
| ft_pop: "ft_sv s = sv \<Longrightarrow> sv_fault sv = None \<Longrightarrow> ft_pc s (-1) = LgHeld now \<Longrightarrow> server_disp (sv_srv sv) = Some d \<Longrightarrow>
    m_MsgQueue d = p # rest \<Longrightarrow>
    ft_step fl s (ft_goto (-1) (LgGot now p) (sv_disp (d\<lparr>m_MsgQueue := rest\<rparr>) sv) s)"
| ft_pop_empty: "ft_sv s = sv \<Longrightarrow> sv_fault sv = None \<Longrightarrow> ft_pc s (-1) = LgHeld now \<Longrightarrow> server_disp (sv_srv sv) = Some d \<Longrightarrow>
    m_MsgQueue d = [] \<Longrightarrow> ft_step fl s (s\<lparr>ft_sv := sv\<lparr>sv_fault := Some Undefined\<rparr>\<rparr>)"
| ft_get_unlock: "ft_sv s = sv \<Longrightarrow> sv_fault sv = None \<Longrightarrow> ft_pc s (-1) = LgGot now p \<Longrightarrow> server_disp (sv_srv sv) = Some d \<Longrightarrow>
    mutex_unlock (-1) (m_msgQueueMtx d) = Inr m \<Longrightarrow>
    ft_step fl s (ft_goto (-1) (LgRun now p) (sv_disp (d\<lparr>m_msgQueueMtx := m\<rparr>) sv) s)"
| ft_skip: "ft_sv s = sv \<Longrightarrow> sv_fault sv = None \<Longrightarrow> ft_pc s (-1) = LgRun now p \<Longrightarrow> server_disp (sv_srv sv) = Some d \<Longrightarrow>
    dispatch_pack p d (m_petsManager (sv_srv sv)) = Inr (DtSkip p d') \<Longrightarrow>
    ft_step fl s (ft_goto (-1) FIdle (sv_disp d' (sv\<lparr>sv_acts := sv_acts sv @ [AHandle p]\<rparr>)) s)"
| ft_handled: "ft_sv s = sv \<Longrightarrow> sv_fault sv = None \<Longrightarrow> ft_pc s (-1) = LgRun now p \<Longrightarrow> server_disp (sv_srv sv) = Some d \<Longrightarrow>
    dispatch_pack p d (m_petsManager (sv_srv sv)) = Inr (DtHandled p d' m) \<Longrightarrow>
    ft_step fl s (ft_goto (-1) FIdle (sv\<lparr>sv_srv := (set_disp d' (sv_srv sv))\<lparr>m_petsManager := m\<rparr>,
      sv_acts := sv_acts sv @ [AHandle p]\<rparr>) s)"
| ft_handle_fault: "ft_sv s = sv \<Longrightarrow> sv_fault sv = None \<Longrightarrow> ft_pc s (-1) = LgRun now p \<Longrightarrow> server_disp (sv_srv sv) = Some d \<Longrightarrow>
    dispatch_pack p d (m_petsManager (sv_srv sv)) = Inl e \<Longrightarrow> ft_step fl s (s\<lparr>ft_sv := sv\<lparr>sv_fault := Some e\<rparr>\<rparr>)"
| ft_run: "ft_sv s = sv \<Longrightarrow> sv_fault sv = None \<Longrightarrow> sv_logic sv = LModules \<Longrightarrow>
    ft_step fl s (s\<lparr>ft_sv := sv\<lparr>sv_srv := (sv_srv sv)\<lparr>m_petsManager := snd (PetsManager_Run (m_petsManager (sv_srv sv)))\<rparr>,
      sv_acts := sv_acts sv @ [ARun], sv_logic := LPause\<rparr>\<rparr>)"
| ft_pause: "ft_sv s = sv \<Longrightarrow> sv_fault sv = None \<Longrightarrow> sv_logic sv = LPause \<Longrightarrow>
    ft_step fl s (s\<lparr>ft_sv := sv\<lparr>sv_srv := (sv_srv sv)\<lparr>m_servertimer := ct_update now (m_servertimer (sv_srv sv))\<rparr>,
      sv_logic := LTop\<rparr>\<rparr>)"

section \<open>The state of Server_System it stands for\<close>

text \<open>The packet the logic thread has taken but not yet handled.\<close>

fun taken :: "ft_place \<Rightarrow> SPacket list" where
  "taken (LgGot now p) = [p]"
| "taken (LgRun now p) = [p]"
| "taken _ = []"

definition abs_srv :: "ft_place \<Rightarrow> PetsServer \<Rightarrow> PetsServer" where
  "abs_srv p srv = srv\<lparr>codec := map_option (\<lambda>cd. cd\<lparr>m_dispc := map_option (\<lambda>d.
     d\<lparr>m_MsgQueue := taken p @ m_MsgQueue d, m_msgQueueMtx := MutexLock_new\<rparr>) (m_dispc cd)\<rparr>) (codec srv)\<rparr>"

definition retrieved :: "Buffer \<Rightarrow> nat \<Rightarrow> Buffer" where
  "retrieved b n = (case retrieve b n of Inl _ \<Rightarrow> b | Inr b' \<Rightarrow> b')"

text \<open>The input buffer: before the packet is pushed as at the begin of the turn, after it as at its end.\<close>

fun io_view :: "ft_place \<Rightarrow> Buffer \<Rightarrow> Buffer" where
  "io_view (IoWant b p n) b1 = b"
| "io_view (IoHeld b p n) b1 = b"
| "io_view (IoPut n) b1 = retrieved b1 n"
| "io_view (IoBody n) b1 = retrieved b1 n"
| "io_view _ b1 = b1"

fun abs_place :: "ft_place \<Rightarrow> conn_place \<Rightarrow> conn_place" where
  "abs_place p (Up conn) = Up (conn\<lparr>tc_inputBuffer := io_view p (tc_inputBuffer conn)\<rparr>)"
| "abs_place p x = x"

definition ft_abs :: "ft_sys \<Rightarrow> server_sys" where
  "ft_abs s = (ft_sv s)\<lparr>sv_srv := abs_srv (ft_pc s (-1)) (sv_srv (ft_sv s)),
     sv_place := (\<lambda>c. abs_place (ft_pc s (int c)) (sv_place (ft_sv s) c))\<rparr>"

lemma conn_buffer_same: "conn\<lparr>tc_inputBuffer := tc_inputBuffer conn\<rparr> = (conn :: (conn_any, srv_cb) TcpConnection)"
  by (cases conn) simp

lemma abs_place_idle [simp]: "abs_place FIdle x = x"
  by (cases x) (simp_all add: conn_buffer_same)

lemma abs_srv_simps [simp]:
  "connections (abs_srv p srv) = connections srv" "m_exitFlag (abs_srv p srv) = m_exitFlag srv"
  "m_servertimer (abs_srv p srv) = m_servertimer srv" "m_petsManager (abs_srv p srv) = m_petsManager srv"
  "srv_heap (abs_srv p srv) = srv_heap srv"
  "server_disp (abs_srv p srv) =
     map_option (\<lambda>d. d\<lparr>m_MsgQueue := taken p @ m_MsgQueue d, m_msgQueueMtx := MutexLock_new\<rparr>) (server_disp srv)"
  by (cases "codec srv"; simp add: abs_srv_def server_disp_def GetDispatcher_def)+

lemma abs_srv_upd:
  "abs_srv p (srv\<lparr>m_petsManager := m\<rparr>) = (abs_srv p srv)\<lparr>m_petsManager := m\<rparr>"
  "abs_srv p (srv\<lparr>m_servertimer := tm\<rparr>) = (abs_srv p srv)\<lparr>m_servertimer := tm\<rparr>"
  by (simp_all add: abs_srv_def)

lemma server_disp_codec: "server_disp srv = Some d \<longleftrightarrow> (\<exists>cd. codec srv = Some cd \<and> m_dispc cd = Some d)"
  by (simp add: server_disp_def GetDispatcher_def bind_eq_Some_conv)

lemma abs_srv_set_disp:
  assumes "server_disp srv = Some d" "taken p' @ m_MsgQueue d' = taken p @ m_MsgQueue d"
    "m_callBackMap d' = m_callBackMap d" "m_dispcTimmer d' = m_dispcTimmer d"
  shows "abs_srv p' (set_disp d' srv) = abs_srv p srv"
  using assms by (auto simp: abs_srv_def set_disp_def server_disp_codec)

lemma set_disp_same: "server_disp srv = Some d \<Longrightarrow> set_disp d srv = srv"
  by (auto simp: set_disp_def server_disp_codec)

text \<open>\<^verbatim>\<open>onConnection\<close> does not look at the codec.\<close>

lemma onConnection_abs:
  "onConnection tm rnd c conn (abs_srv p srv) = bnd (onConnection tm rnd c conn srv) (\<lambda>(conn', srv'). Inr (conn', abs_srv p srv'))"
proof -
  have "GreateDnid tm rnd (abs_srv p srv) = GreateDnid tm rnd srv" by (simp add: GreateDnid_def)
  then show ?thesis
    by (cases srv) (auto simp: onConnection_def Let_def bnd_assoc abs_srv_def case_prod_unfold split: option.split)
qed

text \<open>How a step of one thread changes the view.\<close>

lemma ft_abs_io:
  "ft_abs (ft_goto (int c) p sv s) = sv\<lparr>sv_srv := abs_srv (ft_pc s (-1)) (sv_srv sv),
     sv_place := (\<lambda>k. abs_place (ft_pc s (int k)) (sv_place sv k))(c := abs_place p (sv_place sv c))\<rparr>"
proof -
  have "(\<lambda>k. abs_place (((ft_pc s)(int c := p)) (int k)) (sv_place sv k)) =
      (\<lambda>k. abs_place (ft_pc s (int k)) (sv_place sv k))(c := abs_place p (sv_place sv c))"
    by (auto simp: fun_eq_iff)
  then show ?thesis by (simp add: ft_abs_def ft_goto_def)
qed

lemma ft_abs_lg:
  "ft_abs (ft_goto (-1) p sv s) = sv\<lparr>sv_srv := abs_srv p (sv_srv sv),
     sv_place := (\<lambda>k. abs_place (ft_pc s (int k)) (sv_place sv k))\<rparr>"
  by (simp add: ft_abs_def ft_goto_def)

lemma ft_abs_same:
  "ft_abs (s\<lparr>ft_sv := sv\<rparr>) = sv\<lparr>sv_srv := abs_srv (ft_pc s (-1)) (sv_srv sv),
     sv_place := (\<lambda>k. abs_place (ft_pc s (int k)) (sv_place sv k))\<rparr>"
  by (simp add: ft_abs_def)

section \<open>The invariant\<close>

fun ft_holds :: "ft_place \<Rightarrow> bool" where
  "ft_holds (IoHeld b p n) = True"
| "ft_holds (IoPut n) = True"
| "ft_holds (LgHeld now) = True"
| "ft_holds (LgGot now p) = True"
| "ft_holds _ = False"

fun ft_got :: "ft_place \<Rightarrow> bool" where
  "ft_got (LgSeen now) = True"
| "ft_got (LgHeld now) = True"
| "ft_got _ = False"

interpretation ftp: lock_places ft_holds FIdle
  by unfold_locales simp

fun io_ok :: "(conn_any, srv_cb) TcpConnection \<Rightarrow> ft_place \<Rightarrow> bool" where
  "io_ok conn (IoWant b p n) = (onMessage_begin (getContext conn) b = Inr (BeginFrame p n (tc_inputBuffer conn)))"
| "io_ok conn (IoHeld b p n) = (onMessage_begin (getContext conn) b = Inr (BeginFrame p n (tc_inputBuffer conn)))"
| "io_ok conn (IoPut n) = (retrieve (tc_inputBuffer conn) n = Inr (retrieved (tc_inputBuffer conn) n))"
| "io_ok conn (IoBody n) = (retrieve (tc_inputBuffer conn) n = Inr (retrieved (tc_inputBuffer conn) n))"
| "io_ok conn _ = False"

fun lg_ok :: "QWORD \<Rightarrow> ft_place \<Rightarrow> bool" where
  "lg_ok ts (LgSeen now) = (elapsed_ms ts now \<le> 1000)"
| "lg_ok ts (LgHeld now) = (elapsed_ms ts now \<le> 1000)"
| "lg_ok ts (LgGot now p) = (elapsed_ms ts now \<le> 1000)"
| "lg_ok ts (LgRun now p) = (elapsed_ms ts now \<le> 1000)"
| "lg_ok ts _ = False"

text \<open>A thread inside a turn: an I/O thread on a connection that is up, or the logic thread in \<^verbatim>\<open>DispatchMsg\<close>.\<close>

definition at_ok :: "server_sys \<Rightarrow> int \<Rightarrow> ft_place \<Rightarrow> bool" where
  "at_ok sv t p \<longleftrightarrow> p = FIdle \<or> (\<exists>c conn. t = int c \<and> sv_place sv c = Up conn \<and> io_ok conn p) \<or>
     t = -1 \<and> (\<exists>ts. sv_logic sv = LDispatch ts \<and> lg_ok ts p)"

definition ft_mtx :: "server_sys \<Rightarrow> MutexLock" where
  "ft_mtx sv = (case server_disp (sv_srv sv) of None \<Rightarrow> MutexLock_new | Some d \<Rightarrow> m_msgQueueMtx d)"

text \<open>The lock, the places of the threads, and the queue the logic thread has seen.\<close>

definition ft_low :: "ft_sys \<Rightarrow> bool" where
  "ft_low s \<longleftrightarrow> ftp.lock_inv (ft_pc s) (ft_mtx (ft_sv s)) \<and> (\<forall>t. at_ok (ft_sv s) t (ft_pc s t)) \<and>
     when_at ft_got (ft_pc s) (server_queue (sv_srv (ft_sv s)) \<noteq> [])"

definition ft_inv :: "CObjectManager \<Rightarrow> ft_sys \<Rightarrow> bool" where
  "ft_inv m0 s \<longleftrightarrow> sv_inv m0 (ft_abs s) \<and> ft_low s"

section \<open>Every step is a step of Server_System or none\<close>

lemma ft_abs_sel [simp]:
  "sv_fault (ft_abs s) = sv_fault (ft_sv s)" "sv_id (ft_abs s) = sv_id (ft_sv s)" "sv_recv (ft_abs s) = sv_recv (ft_sv s)"
  "sv_calls (ft_abs s) = sv_calls (ft_sv s)" "sv_pushed (ft_abs s) = sv_pushed (ft_sv s)" "sv_acts (ft_abs s) = sv_acts (ft_sv s)"
  "sv_logic (ft_abs s) = sv_logic (ft_sv s)" "sv_srv (ft_abs s) = abs_srv (ft_pc s (-1)) (sv_srv (ft_sv s))"
  "sv_place (ft_abs s) c = abs_place (ft_pc s (int c)) (sv_place (ft_sv s) c)"
  by (simp_all add: ft_abs_def)

lemma ft_inv_parts:
  assumes "ft_inv m0 s"
  shows "sv_inv m0 (ft_abs s)" "ftp.lock_inv (ft_pc s) (ft_mtx (ft_sv s))" "at_ok (ft_sv s) t (ft_pc s t)"
    "when_at ft_got (ft_pc s) (server_queue (sv_srv (ft_sv s)) \<noteq> [])"
  using assms by (auto simp: ft_inv_def ft_low_def)

lemma ft_inv_disp:
  assumes "ft_inv m0 s"
  obtains d where "server_disp (sv_srv (ft_sv s)) = Some d" "m_callBackMap d = handlers" "ft_mtx (ft_sv s) = m_msgQueueMtx d"
    "server_queue (sv_srv (ft_sv s)) = m_MsgQueue d"
  using ft_inv_parts(1) [OF assms] that
  by (auto simp: sv_inv_def server_wf_def ft_mtx_def server_queue_def split: option.splits)

lemma ft_io_at:
  assumes "ft_inv m0 s" "ft_pc s (int c) \<noteq> FIdle"
  obtains conn where "sv_place (ft_sv s) c = Up conn" "io_ok conn (ft_pc s (int c))"
  using ft_inv_parts(3) [OF assms(1), of "int c"] assms(2) that by (auto simp: at_ok_def)

lemma ft_lg_at:
  assumes "ft_inv m0 s" "ft_pc s (-1) \<noteq> FIdle"
  obtains ts where "sv_logic (ft_sv s) = LDispatch ts" "lg_ok ts (ft_pc s (-1))"
  using ft_inv_parts(3) [OF assms(1), of "-1"] assms(2) that by (auto simp: at_ok_def)

lemma ft_turn_total:
  assumes "ft_inv m0 s" "sv_place (ft_abs s) c = Up conn" "codec (sv_srv (ft_abs s)) = Some cd"
  shows "\<exists>r. onMessage_turn t (getContext conn) (tc_inputBuffer conn) cd = Inr r" "codec_ok cd"
  using io_never_faults [OF ft_inv_parts(1) [OF assms(1)] assms(2,3)] server_wf_codec(1) [OF _ assms(3)]
    ft_inv_parts(1) [OF assms(1)] by (simp_all add: sv_inv_def)

lemma ft_codec:
  assumes "ft_inv m0 s"
  obtains cd where "codec (sv_srv (ft_abs s)) = Some cd"
  using ft_inv_disp [OF assms] that by (auto simp: server_disp_codec abs_srv_def)

text \<open>Steps under the lock that are not seen.\<close>

lemma ft_abs_quiet_io:
  assumes "server_disp (sv_srv (ft_sv s)) = Some d" "io_view p = io_view (ft_pc s (int c))"
  shows "ft_abs (ft_goto (int c) p (sv_disp (d\<lparr>m_msgQueueMtx := m\<rparr>) (ft_sv s)) s) = ft_abs s"
proof -
  have "abs_place p x = abs_place (ft_pc s (int c)) x" for x using assms(2) by (cases x) simp_all
  then show ?thesis
    using assms(1) abs_srv_set_disp [OF assms(1), of "ft_pc s (-1)" "d\<lparr>m_msgQueueMtx := m\<rparr>" "ft_pc s (-1)"]
    by (simp add: ft_abs_io sv_disp_def) (simp add: ft_abs_def fun_upd_idem)
qed

lemma ft_abs_quiet_lg:
  assumes "server_disp (sv_srv (ft_sv s)) = Some d" "taken p @ m_MsgQueue d' = taken (ft_pc s (-1)) @ m_MsgQueue d"
    "m_callBackMap d' = m_callBackMap d" "m_dispcTimmer d' = m_dispcTimmer d"
  shows "ft_abs (ft_goto (-1) p (sv_disp d' (ft_sv s)) s) = ft_abs s"
  using abs_srv_set_disp [OF assms] by (simp add: ft_abs_lg sv_disp_def) (simp add: ft_abs_def)

text \<open>The effect of \<^verbatim>\<open>onMessage\<close>: the packet enters the queue.\<close>

lemma abs_srv_push:
  assumes "server_disp srv = Some d" "codec (abs_srv p srv) = Some cd"
  shows "abs_srv p (set_disp (d\<lparr>m_MsgQueue := m_MsgQueue d @ [x]\<rparr>) srv) =
    (abs_srv p srv)\<lparr>codec := Some (with_queue (codec_queue cd @ [x]) cd)\<rparr>"
  using assms by (auto simp: abs_srv_def set_disp_def server_disp_codec with_queue_def codec_queue_def)

lemma ft_push_step:
  assumes inv: "ft_inv m0 s" and ok: "sv_fault (ft_sv s) = None" and pc: "ft_pc s (int c) = IoHeld b p n"
    and d: "server_disp (sv_srv (ft_sv s)) = Some d"
  shows "sv_step fl (ft_abs s) (ft_abs (ft_goto (int c) (IoPut n)
      (sv_disp (d\<lparr>m_MsgQueue := m_MsgQueue d @ [p]\<rparr>) ((ft_sv s)\<lparr>sv_pushed := sv_pushed (ft_sv s) @ [(c, p)]\<rparr>)) s))"
    and "sv_place (ft_sv s) c = Up conn \<Longrightarrow> retrieve (tc_inputBuffer conn) n = Inr (retrieved (tc_inputBuffer conn) n)"
proof -
  obtain conn where conn: "sv_place (ft_sv s) c = Up conn"
    "onMessage_begin (getContext conn) b = Inr (BeginFrame p n (tc_inputBuffer conn))"
    using ft_io_at [OF inv, of c] pc by auto
  obtain cd where cd: "codec (sv_srv (ft_abs s)) = Some cd" by (rule ft_codec [OF inv])
  let ?conn = "conn\<lparr>tc_inputBuffer := b\<rparr>" and ?b = "retrieved (tc_inputBuffer conn) n"
  have up: "sv_place (ft_abs s) c = Up ?conn" and ctx: "getContext ?conn = getContext conn"
    using conn(1) pc by (simp_all add: getContext_def)
  note total = ft_turn_total(1) [OF inv up cd, of "int c"] ft_turn_total(2) [OF inv up cd]
  have turn: "onMessage_turn (int c) (getContext conn) b cd =
      bnd (retrieve (tc_inputBuffer conn) n) (\<lambda>b2. Inr (OmPushed p b2 (with_queue (codec_queue cd @ [p]) cd)))"
    by (simp add: onMessage_turn_begin conn(2) push_to_ok [OF total(2)])
  then have b: "retrieve (tc_inputBuffer conn) n = Inr ?b"
    using total(1) ctx by (auto simp: retrieved_def bnd_eq_Inr)
  have "sv_step fl (ft_abs s) (set_conn c (Up (?conn\<lparr>tc_inputBuffer := ?b\<rparr>)) ((ft_abs s)\<lparr>sv_srv := (sv_srv (ft_abs s))\<lparr>codec :=
      Some (with_queue (codec_queue cd @ [p]) cd)\<rparr>, sv_pushed := sv_pushed (ft_abs s) @ [(c, p)]\<rparr>))"
    using turn ctx b ok by (intro sv_push [OF _ up cd, of "int c"]) simp_all
  moreover have "ft_abs (ft_goto (int c) (IoPut n)
      (sv_disp (d\<lparr>m_MsgQueue := m_MsgQueue d @ [p]\<rparr>) ((ft_sv s)\<lparr>sv_pushed := sv_pushed (ft_sv s) @ [(c, p)]\<rparr>)) s) =
    set_conn c (Up (?conn\<lparr>tc_inputBuffer := ?b\<rparr>)) ((ft_abs s)\<lparr>sv_srv := (sv_srv (ft_abs s))\<lparr>codec :=
      Some (with_queue (codec_queue cd @ [p]) cd)\<rparr>, sv_pushed := sv_pushed (ft_abs s) @ [(c, p)]\<rparr>)"
    using abs_srv_push [OF d, of "ft_pc s (-1)" cd p] cd conn(1)
    by (simp add: ft_abs_io sv_disp_def set_conn_def) (simp add: ft_abs_def)
  ultimately show "sv_step fl (ft_abs s) (ft_abs (ft_goto (int c) (IoPut n)
      (sv_disp (d\<lparr>m_MsgQueue := m_MsgQueue d @ [p]\<rparr>) ((ft_sv s)\<lparr>sv_pushed := sv_pushed (ft_sv s) @ [(c, p)]\<rparr>)) s))"
    by simp
  show "retrieve (tc_inputBuffer conn') n = Inr (retrieved (tc_inputBuffer conn') n)" if "sv_place (ft_sv s) c = Up conn'" for conn'
    using that conn(1) b by simp
qed

text \<open>The effect of \<^verbatim>\<open>DispatchMsg\<close>: the handler runs on the packet taken.\<close>

lemma ft_run_turn:
  assumes inv: "ft_inv m0 s" and pc: "ft_pc s (-1) = LgRun now p" and d: "server_disp (sv_srv (ft_sv s)) = Some d"
  obtains ts where "sv_logic (ft_sv s) = LDispatch ts"
    "server_disp (sv_srv (ft_abs s)) = Some (d\<lparr>m_MsgQueue := p # m_MsgQueue d, m_msgQueueMtx := MutexLock_new\<rparr>)"
    "\<forall>w. dispatch_turn (-1) ts now (d\<lparr>m_MsgQueue := p # m_MsgQueue d, m_msgQueueMtx := MutexLock_new\<rparr>) w =
      dispatch_pack p (d\<lparr>m_msgQueueMtx := MutexLock_new\<rparr>) w"
proof -
  obtain ts where ts: "sv_logic (ft_sv s) = LDispatch ts" "elapsed_ms ts now \<le> 1000"
    using ft_lg_at [OF inv] pc by force
  have "lock_free (d\<lparr>m_MsgQueue := p # m_MsgQueue d, m_msgQueueMtx := MutexLock_new\<rparr>)"
    by (simp add: lock_free_def) (simp add: MutexLock_new_def)
  note get = GetPack_ok [OF this, of "-1"]
  have "server_disp (sv_srv (ft_abs s)) = Some (d\<lparr>m_MsgQueue := p # m_MsgQueue d, m_msgQueueMtx := MutexLock_new\<rparr>)"
    by (simp add: d pc)
  then show ?thesis using that [OF ts(1)] ts(2) by (simp add: dispatch_turn_pack get)
qed

lemma ft_run_abs:
  assumes "server_disp srv = Some d"
  shows "abs_srv FIdle (set_disp d srv) = set_disp (d\<lparr>m_msgQueueMtx := MutexLock_new\<rparr>) (abs_srv q srv)"
  using assms by (auto simp: abs_srv_def set_disp_def server_disp_codec)

lemma ft_handle_steps:
  assumes inv: "ft_inv m0 s" and ok: "sv_fault (ft_sv s) = None" and pc: "ft_pc s (-1) = LgRun now p"
    and d: "server_disp (sv_srv (ft_sv s)) = Some d"
    and run: "dispatch_pack p d (m_petsManager (sv_srv (ft_sv s))) = r"
  shows "r = Inr (DtSkip p d') \<Longrightarrow> sv_step fl (ft_abs s)
      (ft_abs (ft_goto (-1) FIdle (sv_disp d' ((ft_sv s)\<lparr>sv_acts := sv_acts (ft_sv s) @ [AHandle p]\<rparr>)) s))"
    and "r = Inr (DtHandled p d' m) \<Longrightarrow> sv_step fl (ft_abs s)
      (ft_abs (ft_goto (-1) FIdle ((ft_sv s)\<lparr>sv_srv := (set_disp d' (sv_srv (ft_sv s)))\<lparr>m_petsManager := m\<rparr>,
        sv_acts := sv_acts (ft_sv s) @ [AHandle p]\<rparr>) s))"
    and "r = Inl e \<Longrightarrow> sv_step fl (ft_abs s) (ft_abs (s\<lparr>ft_sv := (ft_sv s)\<lparr>sv_fault := Some e\<rparr>\<rparr>))"
proof -
  let ?d = "d\<lparr>m_MsgQueue := p # m_MsgQueue d, m_msgQueueMtx := MutexLock_new\<rparr>" and ?w = "m_petsManager (sv_srv (ft_sv s))"
  let ?d1 = "d\<lparr>m_msgQueueMtx := MutexLock_new\<rparr>"
  obtain ts where at: "sv_logic (ft_sv s) = LDispatch ts" "server_disp (sv_srv (ft_abs s)) = Some ?d"
    "\<forall>w. dispatch_turn (-1) ts now ?d w = dispatch_pack p ?d1 w"
    by (rule ft_run_turn [OF inv pc d])
  have same: "dispatch_pack p ?d1 ?w = (case handle_pack (m_callBackMap d) p ?w of Inl e \<Rightarrow> Inl e
      | Inr w' \<Rightarrow> Inr (if has_buffer p then DtHandled p ?d1 w' else DtSkip p ?d1))"
    "r = (case handle_pack (m_callBackMap d) p ?w of Inl e \<Rightarrow> Inl e
      | Inr w' \<Rightarrow> Inr (if has_buffer p then DtHandled p d w' else DtSkip p d))"
    using run by (simp_all add: dispatch_pack_handles)
  show "sv_step fl (ft_abs s) (ft_abs (ft_goto (-1) FIdle (sv_disp d' ((ft_sv s)\<lparr>sv_acts := sv_acts (ft_sv s) @ [AHandle p]\<rparr>)) s))"
    if r: "r = Inr (DtSkip p d')"
  proof -
    have "d' = d" "dispatch_pack p ?d1 ?w = Inr (DtSkip p ?d1)"
      using r same by (auto split: sum.splits if_splits)
    moreover have "ft_abs (ft_goto (-1) FIdle (sv_disp d ((ft_sv s)\<lparr>sv_acts := sv_acts (ft_sv s) @ [AHandle p]\<rparr>)) s) =
        (ft_abs s)\<lparr>sv_srv := set_disp ?d1 (sv_srv (ft_abs s)), sv_acts := sv_acts (ft_abs s) @ [AHandle p]\<rparr>"
      using d by (cases "ft_sv s") (simp add: ft_run_abs [where q = "ft_pc s (-1)"] ft_abs_def ft_goto_def sv_disp_def)
    ultimately show ?thesis
      using sv_turn_skip [OF _ _ at(2), of ts "-1" now p ?d1 fl] ok at(1,3) by simp
  qed
  show "sv_step fl (ft_abs s) (ft_abs (ft_goto (-1) FIdle ((ft_sv s)\<lparr>sv_srv := (set_disp d' (sv_srv (ft_sv s)))\<lparr>m_petsManager := m\<rparr>,
      sv_acts := sv_acts (ft_sv s) @ [AHandle p]\<rparr>) s))" if r: "r = Inr (DtHandled p d' m)"
  proof -
    have "d' = d" "dispatch_pack p ?d1 ?w = Inr (DtHandled p ?d1 m)"
      using r same by (auto split: sum.splits if_splits)
    moreover have "ft_abs (ft_goto (-1) FIdle ((ft_sv s)\<lparr>sv_srv := (set_disp d (sv_srv (ft_sv s)))\<lparr>m_petsManager := m\<rparr>,
        sv_acts := sv_acts (ft_sv s) @ [AHandle p]\<rparr>) s) =
        (ft_abs s)\<lparr>sv_srv := (set_disp ?d1 (sv_srv (ft_abs s)))\<lparr>m_petsManager := m\<rparr>, sv_acts := sv_acts (ft_abs s) @ [AHandle p]\<rparr>"
      using d by (cases "ft_sv s") (simp add: abs_srv_upd ft_run_abs [where q = "ft_pc s (-1)"] ft_abs_def ft_goto_def)
    ultimately show ?thesis
      using sv_turn_handled [OF _ _ at(2), of ts "-1" now p ?d1 m fl] ok at(1,3) by simp
  qed
  show "sv_step fl (ft_abs s) (ft_abs (s\<lparr>ft_sv := (ft_sv s)\<lparr>sv_fault := Some e\<rparr>\<rparr>))" if r: "r = Inl e"
  proof -
    have "dispatch_pack p ?d1 ?w = Inl e" using r same by (auto split: sum.splits)
    moreover have "ft_abs (s\<lparr>ft_sv := (ft_sv s)\<lparr>sv_fault := Some e\<rparr>\<rparr>) = (ft_abs s)\<lparr>sv_fault := Some e\<rparr>"
      by (cases "ft_sv s") (simp add: ft_abs_def)
    ultimately show ?thesis using sv_turn_fault [OF _ _ at(2), of ts "-1" now e fl] ok at(1,3) by simp
  qed
qed

text \<open>The logic thread leaves \<^verbatim>\<open>DispatchMsg\<close>.\<close>

lemma ft_stop_step:
  assumes inv: "ft_inv m0 s" and ok: "sv_fault (ft_sv s) = None" "sv_logic (ft_sv s) = LDispatch ts" "ft_pc s (-1) = FIdle"
    and stop: "\<not> elapsed_ms ts now \<le> 1000 \<or> server_queue (sv_srv (ft_sv s)) = []"
  shows "sv_step fl (ft_abs s) (ft_abs (s\<lparr>ft_sv := (ft_sv s)\<lparr>sv_logic := LModules\<rparr>\<rparr>))"
proof -
  obtain d where d: "server_disp (sv_srv (ft_sv s)) = Some d" "server_queue (sv_srv (ft_sv s)) = m_MsgQueue d"
    by (rule ft_inv_disp [OF inv])
  let ?d = "d\<lparr>m_msgQueueMtx := MutexLock_new\<rparr>"
  have disp: "server_disp (sv_srv (ft_abs s)) = Some ?d" by (simp add: d(1) ok(3))
  have "lock_free ?d" by (simp add: lock_free_def) (simp add: MutexLock_new_def)
  then have "dispatch_turn (-1) ts now ?d (m_petsManager (sv_srv (ft_abs s))) = Inr (DtStop ?d)"
    using stop by (auto simp: dispatch_turn_pack GetPack_ok d(2))
  then have "sv_step fl (ft_abs s) ((ft_abs s)\<lparr>sv_srv := set_disp ?d (sv_srv (ft_abs s)), sv_logic := LModules\<rparr>)"
    using ok(1,2) disp by (intro sv_turn_stop [of _ ts _ "-1" now]) simp_all
  moreover have "ft_abs (s\<lparr>ft_sv := (ft_sv s)\<lparr>sv_logic := LModules\<rparr>\<rparr>) = (ft_abs s)\<lparr>sv_srv := sv_srv (ft_abs s), sv_logic := LModules\<rparr>"
    by (cases "ft_sv s") (simp add: ft_abs_def)
  ultimately show ?thesis unfolding set_disp_same [OF disp] by simp
qed

text \<open>The other steps.\<close>

lemma ft_abs_conn:
  "ft_pc s (int c) = FIdle \<Longrightarrow> ft_abs (s\<lparr>ft_sv := set_conn c p sv\<rparr>) = set_conn c p (ft_abs (s\<lparr>ft_sv := sv\<rparr>))"
  by (cases sv) (auto simp: ft_abs_def set_conn_def fun_eq_iff)

lemma ft_abs_upd:
  "ft_abs (s\<lparr>ft_sv := (ft_sv s)\<lparr>sv_recv := r\<rparr>\<rparr>) = (ft_abs s)\<lparr>sv_recv := r\<rparr>"
  "ft_abs (s\<lparr>ft_sv := (ft_sv s)\<lparr>sv_calls := cs\<rparr>\<rparr>) = (ft_abs s)\<lparr>sv_calls := cs\<rparr>"
  "ft_abs (s\<lparr>ft_sv := (ft_sv s)\<lparr>sv_logic := l\<rparr>\<rparr>) = (ft_abs s)\<lparr>sv_logic := l\<rparr>"
  "ft_abs (s\<lparr>ft_sv := (ft_sv s)\<lparr>sv_fault := f\<rparr>\<rparr>) = (ft_abs s)\<lparr>sv_fault := f\<rparr>"
  "ft_abs (s\<lparr>ft_sv := (ft_sv s)\<lparr>sv_logic := l, sv_fault := f\<rparr>\<rparr>) = (ft_abs s)\<lparr>sv_logic := l, sv_fault := f\<rparr>"
  "ft_abs (s\<lparr>ft_sv := (ft_sv s)\<lparr>sv_srv := srv\<rparr>\<rparr>) = (ft_abs s)\<lparr>sv_srv := abs_srv (ft_pc s (-1)) srv\<rparr>"
  "ft_abs (s\<lparr>ft_sv := (ft_sv s)\<lparr>sv_srv := srv, sv_id := i\<rparr>\<rparr>) = (ft_abs s)\<lparr>sv_srv := abs_srv (ft_pc s (-1)) srv, sv_id := i\<rparr>"
  "ft_abs (s\<lparr>ft_sv := (ft_sv s)\<lparr>sv_srv := srv, sv_logic := l\<rparr>\<rparr>) = (ft_abs s)\<lparr>sv_srv := abs_srv (ft_pc s (-1)) srv, sv_logic := l\<rparr>"
  "ft_abs (s\<lparr>ft_sv := (ft_sv s)\<lparr>sv_srv := srv, sv_acts := as, sv_logic := l\<rparr>\<rparr>) =
     (ft_abs s)\<lparr>sv_srv := abs_srv (ft_pc s (-1)) srv, sv_acts := as, sv_logic := l\<rparr>"
  by (cases "ft_sv s"; simp add: ft_abs_def)+

lemma ft_conn_steps:
  assumes inv: "ft_inv m0 s" and ok: "sv_fault (ft_sv s) = None"
  shows "sv_place (ft_sv s) c = NotYet \<Longrightarrow> connected conn \<Longrightarrow> Buffer_new kInitialSize = Inr (tc_inputBuffer conn) \<Longrightarrow>
      onConnection tm rnd c conn (sv_srv (ft_sv s)) = Inr (conn', srv') \<Longrightarrow> getContext conn' = AnyDnid d \<Longrightarrow>
      sv_step fl (ft_abs s) (ft_abs (s\<lparr>ft_sv := set_conn c (Up conn') ((ft_sv s)\<lparr>sv_srv := srv', sv_id := (sv_id (ft_sv s))(c := d)\<rparr>)\<rparr>))"
    and "sv_place (ft_sv s) c = Up conn \<Longrightarrow> ft_pc s (int c) = FIdle \<Longrightarrow>
      onConnection tm rnd c (setState kDisconnected conn) (sv_srv (ft_sv s)) = Inr (conn', srv') \<Longrightarrow>
      sv_step fl (ft_abs s) (ft_abs (s\<lparr>ft_sv := set_conn c Closed ((ft_sv s)\<lparr>sv_srv := srv'\<rparr>)\<rparr>))"
    and "sv_place (ft_sv s) c = Up conn \<Longrightarrow> ft_pc s (int c) = FIdle \<Longrightarrow>
      writerIndex (tc_inputBuffer conn) + length bs \<le> vec_max \<Longrightarrow> Buffer_append (tc_inputBuffer conn) bs = Inr b \<Longrightarrow>
      sv_step fl (ft_abs s) (ft_abs (s\<lparr>ft_sv := set_conn c (Up (conn\<lparr>tc_inputBuffer := b\<rparr>))
        ((ft_sv s)\<lparr>sv_recv := (sv_recv (ft_sv s))(c := sv_recv (ft_sv s) c @ bs)\<rparr>)\<rparr>))"
    and "sv_place (ft_sv s) c = Up conn \<Longrightarrow> ft_pc s (int c) = FIdle \<Longrightarrow>
      onMessage_begin (getContext conn) (tc_inputBuffer conn) = Inr (BeginStop calls) \<Longrightarrow>
      sv_step fl (ft_abs s) (ft_abs (s\<lparr>ft_sv := (ft_sv s)\<lparr>sv_calls := (sv_calls (ft_sv s))(c := sv_calls (ft_sv s) c @ calls)\<rparr>\<rparr>))"
    and "sv_place (ft_sv s) c = Up conn \<Longrightarrow> ft_pc s (int c) = FIdle \<Longrightarrow>
      onMessage_begin (getContext conn) (tc_inputBuffer conn) = Inl e \<Longrightarrow>
      sv_step fl (ft_abs s) (ft_abs (s\<lparr>ft_sv := (ft_sv s)\<lparr>sv_fault := Some e\<rparr>\<rparr>))"
proof -
  obtain cd where cd: "codec (sv_srv (ft_abs s)) = Some cd" by (rule ft_codec [OF inv])
  have ok': "sv_fault (ft_abs s) = None" using ok by simp
  show "sv_step fl (ft_abs s) (ft_abs (s\<lparr>ft_sv := set_conn c (Up conn') ((ft_sv s)\<lparr>sv_srv := srv', sv_id := (sv_id (ft_sv s))(c := d)\<rparr>)\<rparr>))"
    if place: "sv_place (ft_sv s) c = NotYet" and new: "connected conn" "Buffer_new kInitialSize = Inr (tc_inputBuffer conn)"
      and run: "onConnection tm rnd c conn (sv_srv (ft_sv s)) = Inr (conn', srv')" "getContext conn' = AnyDnid d"
  proof -
    have "ft_pc s (int c) = FIdle" using ft_io_at [OF inv, of c] place by fastforce
    then show ?thesis
      using sv_up [OF ok' _ new _ run(2), of c tm rnd "abs_srv (ft_pc s (-1)) srv'" fl] place run(1)
      by (simp add: ft_abs_conn ft_abs_upd onConnection_abs)
  qed
  show "sv_step fl (ft_abs s) (ft_abs (s\<lparr>ft_sv := set_conn c Closed ((ft_sv s)\<lparr>sv_srv := srv'\<rparr>)\<rparr>))"
    if "sv_place (ft_sv s) c = Up conn" "ft_pc s (int c) = FIdle"
      "onConnection tm rnd c (setState kDisconnected conn) (sv_srv (ft_sv s)) = Inr (conn', srv')"
    using sv_down [OF ok', of c conn tm rnd conn' "abs_srv (ft_pc s (-1)) srv'" fl] that
    by (simp add: ft_abs_conn ft_abs_upd onConnection_abs conn_buffer_same)
  show "sv_step fl (ft_abs s) (ft_abs (s\<lparr>ft_sv := set_conn c (Up (conn\<lparr>tc_inputBuffer := b\<rparr>))
      ((ft_sv s)\<lparr>sv_recv := (sv_recv (ft_sv s))(c := sv_recv (ft_sv s) c @ bs)\<rparr>)\<rparr>))"
    if "sv_place (ft_sv s) c = Up conn" "ft_pc s (int c) = FIdle" "writerIndex (tc_inputBuffer conn) + length bs \<le> vec_max"
      "Buffer_append (tc_inputBuffer conn) bs = Inr b"
    using sv_bytes [OF ok', of c conn bs b fl] that by (simp add: ft_abs_conn ft_abs_upd conn_buffer_same)
  show "sv_step fl (ft_abs s) (ft_abs (s\<lparr>ft_sv := (ft_sv s)\<lparr>sv_calls := (sv_calls (ft_sv s))(c := sv_calls (ft_sv s) c @ calls)\<rparr>\<rparr>))"
    if "sv_place (ft_sv s) c = Up conn" "ft_pc s (int c) = FIdle"
      "onMessage_begin (getContext conn) (tc_inputBuffer conn) = Inr (BeginStop calls)"
    using sv_wait [OF ok' _ cd, of c conn "int c" calls fl] that by (simp add: ft_abs_upd onMessage_turn_begin conn_buffer_same)
  show "sv_step fl (ft_abs s) (ft_abs (s\<lparr>ft_sv := (ft_sv s)\<lparr>sv_fault := Some e\<rparr>\<rparr>))"
    if "sv_place (ft_sv s) c = Up conn" "ft_pc s (int c) = FIdle"
      "onMessage_begin (getContext conn) (tc_inputBuffer conn) = Inl e"
    using sv_io_fault [OF ok' _ cd, of c conn "int c" e fl] that by (simp add: ft_abs_upd onMessage_turn_begin conn_buffer_same)
qed

text \<open>The two ends of a turn of \<^verbatim>\<open>onMessage\<close>, at the begin and when the body is retrieved, are not seen.\<close>

lemma ft_abs_ends:
  assumes "sv_place (ft_sv s) c = Up conn"
  shows "ft_pc s (int c) = FIdle \<Longrightarrow> ft_abs (ft_goto (int c) (IoWant (tc_inputBuffer conn) p n)
      (set_conn c (Up (conn\<lparr>tc_inputBuffer := b1\<rparr>)) (ft_sv s)) s) = ft_abs s"
    and "ft_pc s (int c) = IoBody n \<Longrightarrow> retrieve (tc_inputBuffer conn) n = Inr b \<Longrightarrow>
      ft_abs (ft_goto (int c) FIdle (set_conn c (Up (conn\<lparr>tc_inputBuffer := b\<rparr>)) (ft_sv s)) s) = ft_abs s"
  using assms by (cases "ft_sv s"; auto simp: ft_abs_def ft_goto_def set_conn_def fun_eq_iff retrieved_def conn_buffer_same)+

lemma ft_abs_step:
  assumes inv: "ft_inv m0 s" and step: "ft_step fl s s'"
  shows "ft_abs s' = ft_abs s \<or> sv_step fl (ft_abs s) (ft_abs s')"
  using step
proof cases
  case (ft_begin sv c conn p n b1)
  then show ?thesis using ft_abs_ends(1) [of s c conn p n b1] by simp
next
  case (ft_lock sv c b p n d m)
  then show ?thesis using ft_abs_quiet_io [of s d "IoHeld b p n" c m] by (simp add: fun_eq_iff)
next
  case (ft_push sv c b p n d)
  then show ?thesis using ft_push_step(1) [OF inv, of c b p n d fl] by simp
next
  case (ft_unlock sv c n d m)
  then show ?thesis using ft_abs_quiet_io [of s d "IoBody n" c m] by (simp add: fun_eq_iff)
next
  case (ft_body sv c n conn b)
  then show ?thesis using ft_abs_ends(2) [of s c conn n b] by simp
next
  case (ft_body_fault sv c n conn e)
  then show ?thesis using ft_io_at [OF inv, of c] by auto
next
  case (ft_frame sv now t0)
  then show ?thesis by (auto simp: ft_abs_upd intro!: sv_frame [where now = now])
next
  case (ft_late sv now)
  then show ?thesis by (auto simp: ft_abs_upd intro!: sv_late [where now = now])
next
  case (ft_exit sv)
  then show ?thesis by (auto simp: ft_abs_upd intro!: sv_exit)
next
  case (ft_over sv ts now)
  then show ?thesis using ft_stop_step [OF inv, of ts now fl] by simp
next
  case (ft_empty sv ts now d)
  then show ?thesis using ft_stop_step [OF inv, of ts now fl] by (simp add: server_queue_def)
next
  case (ft_seen sv ts now d)
  then show ?thesis by (cases "ft_sv s") (simp add: ft_abs_def ft_goto_def abs_srv_def)
next
  case (ft_get_lock sv now d m)
  then show ?thesis using ft_abs_quiet_lg [of s d "LgHeld now" "d\<lparr>m_msgQueueMtx := m\<rparr>"] by simp
next
  case (ft_pop sv now d p rest)
  then show ?thesis using ft_abs_quiet_lg [of s d "LgGot now p" "d\<lparr>m_MsgQueue := rest\<rparr>"] by simp
next
  case (ft_pop_empty sv now d)
  then show ?thesis using ft_inv_parts(4) [OF inv] by (auto simp: when_at_def server_queue_def dest!: spec [of _ "-1"])
next
  case (ft_get_unlock sv now p d m)
  then show ?thesis using ft_abs_quiet_lg [of s d "LgRun now p" "d\<lparr>m_msgQueueMtx := m\<rparr>"] by simp
next
  case (ft_skip sv now p d d')
  then show ?thesis using ft_handle_steps(1) [OF inv, of now p d _ d' fl] by simp
next
  case (ft_handled sv now p d d' m)
  then show ?thesis using ft_handle_steps(2) [OF inv, of now p d _ d' m fl] by simp
next
  case (ft_handle_fault sv now p d e)
  then show ?thesis using ft_handle_steps(3) [OF inv, of now p d _ e fl] by simp
next
  case (ft_run sv)
  then show ?thesis using sv_run [of "ft_abs s" fl] by (auto simp: ft_abs_upd abs_srv_upd)
next
  case (ft_pause sv now)
  then show ?thesis using sv_pause [of "ft_abs s" fl now] by (auto simp: ft_abs_upd abs_srv_upd)
qed (use ft_conn_steps [OF inv] in \<open>auto\<close>)

section \<open>Every step keeps the invariant\<close>

lemma at_ok_same:
  assumes "at_ok sv t p" "\<And>c. t = int c \<Longrightarrow> p \<noteq> FIdle \<Longrightarrow> sv_place sv' c = sv_place sv c"
    "t = -1 \<Longrightarrow> p \<noteq> FIdle \<Longrightarrow> sv_logic sv' = sv_logic sv"
  shows "at_ok sv' t p"
  using assms by (auto simp: at_ok_def)

lemma ft_low_at: "ft_low s \<Longrightarrow> at_ok (ft_sv s) t (ft_pc s t)"
  by (simp add: ft_low_def)

text \<open>Only the logic thread looks at the queue.\<close>

lemma at_ok_got: "at_ok sv t p \<Longrightarrow> ft_got p \<Longrightarrow> t = -1"
  by (cases p) (auto simp: at_ok_def)

text \<open>A step that moves no thread; one that moves thread \<open>t\<close>.\<close>

lemma ft_low_stay:
  assumes "ft_low s" "ft_mtx sv' = ft_mtx (ft_sv s)" "server_queue (sv_srv sv') = server_queue (sv_srv (ft_sv s))"
    "\<And>c. ft_pc s (int c) \<noteq> FIdle \<Longrightarrow> sv_place sv' c = sv_place (ft_sv s) c"
    "ft_pc s (-1) \<noteq> FIdle \<Longrightarrow> sv_logic sv' = sv_logic (ft_sv s)"
  shows "ft_low (s\<lparr>ft_sv := sv'\<rparr>)"
proof -
  have "at_ok sv' t (ft_pc s t)" for t
    by (rule at_ok_same [OF ft_low_at [OF assms(1)]]) (use assms(4,5) in blast)+
  then show ?thesis using assms(1-3) by (simp add: ft_low_def)
qed

lemma ft_low_move:
  assumes "ft_low s" "ftp.lock_inv ((ft_pc s)(t := p)) (ft_mtx sv')" "at_ok sv' t p"
    "when_at ft_got ((ft_pc s)(t := p)) (server_queue (sv_srv sv') \<noteq> [])"
    "\<And>c. int c \<noteq> t \<Longrightarrow> sv_place sv' c = sv_place (ft_sv s) c" "t \<noteq> -1 \<Longrightarrow> sv_logic sv' = sv_logic (ft_sv s)"
  shows "ft_low (ft_goto t p sv' s)"
proof -
  have "at_ok sv' u (ft_pc s u)" if "u \<noteq> t" for u
    by (rule at_ok_same [OF ft_low_at [OF assms(1)]]) (use assms(5,6) that in metis)+
  then show ?thesis using assms(2-4) by (simp add: ft_low_def ft_goto_def)
qed

lemma sv_disp_sel [simp]:
  "sv_place (sv_disp d sv) = sv_place sv" "sv_logic (sv_disp d sv) = sv_logic sv"
  "server_disp (sv_srv sv) = Some d0 \<Longrightarrow> ft_mtx (sv_disp d sv) = m_msgQueueMtx d"
  "server_disp (sv_srv sv) = Some d0 \<Longrightarrow> server_queue (sv_srv (sv_disp d sv)) = m_MsgQueue d"
  by (simp_all add: sv_disp_def ft_mtx_def server_queue_def)

lemma ft_disp_sel:
  "server_disp (sv_srv sv) = Some d \<Longrightarrow> ft_mtx sv = m_msgQueueMtx d"
  "server_disp (sv_srv sv) = Some d \<Longrightarrow> server_queue (sv_srv sv) = m_MsgQueue d"
  by (simp_all add: ft_mtx_def server_queue_def)

lemma set_conn_sel [simp]:
  "sv_srv (set_conn c p sv) = sv_srv sv" "sv_logic (set_conn c p sv) = sv_logic sv"
  "sv_place (set_conn c p sv) = (sv_place sv)(c := p)" "ft_mtx (set_conn c p sv) = ft_mtx sv"
  by (simp_all add: set_conn_def ft_mtx_def)

lemma onConnection_codec:
  "onConnection tm rnd c conn srv = Inr (conn', srv') \<Longrightarrow> server_disp srv' = server_disp srv"
  by (auto simp: onConnection_def server_disp_def Let_def bnd_eq_Inr split: if_splits option.splits prod.splits)

lemma dispatch_pack_disp:
  "dispatch_pack p d w = Inr (DtSkip q d') \<Longrightarrow> d' = d" "dispatch_pack p d w = Inr (DtHandled q d' w') \<Longrightarrow> d' = d"
  by (auto simp: dispatch_pack_handles split: sum.splits if_splits)

lemma ft_low_step:
  assumes inv: "ft_inv m0 s" and step: "ft_step fl s s'"
  shows "ft_low s'"
proof -
  have low: "ft_low s" using inv by (simp add: ft_inv_def)
  note L = ft_inv_parts(2) [OF inv] and at = ft_inv_parts(3) [OF inv] and got = ft_inv_parts(4) [OF inv]
  have top: "\<nexists>ts. sv_logic (ft_sv s) = LDispatch ts \<Longrightarrow> ft_pc s (-1) = FIdle" using ft_lg_at [OF inv] by metis
  have idle: "\<nexists>conn. sv_place (ft_sv s) c = Up conn \<Longrightarrow> ft_pc s (int c) = FIdle" for c using ft_io_at [OF inv, of c] by metis
  show ?thesis using step
  proof cases
    case (ft_up sv c conn tm rnd conn' srv' d)
    then show ?thesis
      using onConnection_codec [OF ft_up(7)] idle [of c]
      by (auto intro!: ft_low_stay [OF low] simp: ft_mtx_def server_queue_def)
  next
    case (ft_down sv c conn tm rnd conn' srv')
    then show ?thesis
      using onConnection_codec [OF ft_down(6)]
      by (auto intro!: ft_low_stay [OF low] simp: ft_mtx_def server_queue_def)
  next
    case (ft_begin sv c conn p n b1)
    then show ?thesis
      using ftp.lock_inv_stay [OF L, of "int c" "IoWant (tc_inputBuffer conn) p n"] got
      by (auto intro!: ft_low_move [OF low] when_at_upd simp: at_ok_def getContext_def)
  next
    case (ft_lock sv c b p n d m)
    then show ?thesis
      using ftp.lock_inv_acquire [OF L, of m "int c" "IoHeld b p n"] mutex_lock_ok [OF ft_lock(6)] got at [of "int c"]
      by (auto intro!: ft_low_move [OF low] when_at_upd simp: at_ok_def ft_disp_sel)
  next
    case (ft_push sv c b p n d)
    then show ?thesis
      using ftp.lock_inv_stay [OF L, of "int c" "IoPut n"] got ft_push_step(2) [OF inv, of c b p n d] at [of "int c"]
      by (auto intro!: ft_low_move [OF low] when_at_upd simp: at_ok_def ft_disp_sel)
  next
    case (ft_unlock sv c n d m)
    then show ?thesis
      using ftp.lock_inv_release [OF L, of m "int c" "IoBody n"] mutex_unlock_ok [OF ft_unlock(6)] got at [of "int c"]
      by (auto intro!: ft_low_move [OF low] when_at_upd simp: at_ok_def ft_disp_sel)
  next
    case (ft_body sv c n conn b)
    then show ?thesis
      using ftp.lock_inv_stay [OF L, of "int c" FIdle] got
      by (auto intro!: ft_low_move [OF low] when_at_upd simp: at_ok_def)
  next
    case (ft_seen sv ts now d)
    then show ?thesis
      using ftp.lock_inv_stay [OF L, of "-1" "LgSeen now"] got
      by (auto intro!: ft_low_move [OF low] when_at_upd simp: at_ok_def ft_disp_sel)
  next
    case (ft_get_lock sv now d m)
    have "m_MsgQueue d \<noteq> []" using got ft_get_lock(2,4,5) by (auto simp: when_at_def ft_disp_sel dest!: spec [of _ "-1"])
    then show ?thesis
      using ft_get_lock ftp.lock_inv_acquire [OF L, of m "-1" "LgHeld now"] mutex_lock_ok [OF ft_get_lock(6)] at [of "-1"]
      by (auto intro!: ft_low_move [OF low] simp: at_ok_def ft_disp_sel)
  next
    case (ft_pop sv now d p rest)
    have "when_at ft_got ((ft_pc s)(-1 := LgGot now p)) (rest \<noteq> [])" using at_ok_got [OF at] by (auto simp: when_at_def)
    then show ?thesis
      using ft_pop ftp.lock_inv_stay [OF L, of "-1" "LgGot now p"] at [of "-1"]
      by (auto intro!: ft_low_move [OF low] simp: at_ok_def ft_disp_sel)
  next
    case (ft_skip sv now p d d')
    note d' = dispatch_pack_disp(1) [OF ft_skip(6)]
    show ?thesis
      unfolding ft_skip(1) d'
      by (rule ft_low_move [OF low])
        (use ft_skip ftp.lock_inv_stay [OF L, of "-1" FIdle] got
          in \<open>auto simp: sv_disp_def ft_disp_sel ft_mtx_def server_queue_def at_ok_def intro: when_at_upd\<close>)
  next
    case (ft_handled sv now p d d' m)
    note d' = dispatch_pack_disp(2) [OF ft_handled(6)]
    show ?thesis
      unfolding ft_handled(1) d'
      by (rule ft_low_move [OF low])
        (use ft_handled ftp.lock_inv_stay [OF L, of "-1" FIdle] got
          in \<open>auto simp: ft_disp_sel ft_mtx_def server_queue_def at_ok_def intro: when_at_upd\<close>)
  next
    case (ft_get_unlock sv now p d m)
    then show ?thesis
      using ftp.lock_inv_release [OF L, of m "-1" "LgRun now p"] mutex_unlock_ok [OF ft_get_unlock(6)] got at [of "-1"]
      by (auto intro!: ft_low_move [OF low] when_at_upd simp: at_ok_def ft_disp_sel)
  qed (use top in \<open>auto intro!: ft_low_stay [OF low] simp: ft_mtx_def server_queue_def\<close>)
qed

lemma ft_inv_init: "ft_init m0 s \<Longrightarrow> ft_inv m0 s" and ft_abs_init: "ft_init m0 s \<Longrightarrow> sv_init m0 (ft_abs s)"
proof -
  assume init: "ft_init m0 s"
  then have pc: "ft_pc s = (\<lambda>_. FIdle)" and sv: "sv_init m0 (ft_sv s)" by (simp_all add: ft_init_def)
  obtain cd d where cd: "codec (sv_srv (ft_sv s)) = Some cd" "m_dispc cd = Some d" "m_msgQueueMtx d = MutexLock_new"
    using sv by (auto simp: sv_init_def server_booted_def bind_handlers_def BindCB_def Dispatcher_new_def)
  have "abs_srv FIdle (sv_srv (ft_sv s)) = sv_srv (ft_sv s)"
    using cd by (cases "sv_srv (ft_sv s)"; cases cd; cases d) (simp add: abs_srv_def)
  then have abs: "ft_abs s = ft_sv s" by (cases "ft_sv s") (simp add: ft_abs_def pc)
  show "sv_init m0 (ft_abs s)" unfolding abs by (rule sv)
  have "ft_mtx (ft_sv s) = MutexLock_new" using cd by (simp add: ft_mtx_def server_disp_def GetDispatcher_def)
  then have "ftp.lock_inv (ft_pc s) (ft_mtx (ft_sv s))"
    using ftp.lock_inv_init [of MutexLock_new] by (simp add: pc MutexLock_new_def mutex_ok_def)
  then have "ft_low s" by (simp add: ft_low_def pc at_ok_def when_at_def)
  then show "ft_inv m0 s" using sv_inv_init [OF sv] by (simp add: ft_inv_def abs)
qed

lemma ft_inv_step: "ft_inv m0 s \<Longrightarrow> ft_step fl s s' \<Longrightarrow> ft_inv m0 s'"
  using ft_abs_step [of m0 s fl s'] ft_low_step [of m0 s fl s'] sv_inv_step [of m0 "ft_abs s" fl "ft_abs s'"]
  by (auto simp: ft_inv_def)

interpretation threads: simulation "ft_init m0" "ft_step fl" "ft_inv m0" "sv_init m0" "sv_step fl" ft_abs for m0 fl
  by unfold_locales (auto intro: ft_inv_init ft_inv_step ft_abs_init dest: ft_abs_step)

text \<open>What is in flight: the packets pushed are the handled ones, the one taken and the queue.\<close>

lemma ft_flow:
  assumes "reach (ft_init m0) (ft_step fl) s"
  shows "map snd (sv_pushed (ft_sv s)) = handled_of (sv_acts (ft_sv s)) @ taken (ft_pc s (-1)) @ server_queue (sv_srv (ft_sv s))"
    "ft_holds (ft_pc s t) \<Longrightarrow> ft_holds (ft_pc s u) \<Longrightarrow> u = t"
    "ft_got (ft_pc s t) \<Longrightarrow> t = -1 \<and> server_queue (sv_srv (ft_sv s)) \<noteq> []"
proof -
  note inv = threads.reach_inv [OF assms]
  obtain d where d: "server_disp (sv_srv (ft_sv s)) = Some d" by (rule ft_inv_disp [OF inv])
  show "map snd (sv_pushed (ft_sv s)) = handled_of (sv_acts (ft_sv s)) @ taken (ft_pc s (-1)) @ server_queue (sv_srv (ft_sv s))"
    using ft_inv_parts(1) [OF inv] by (simp add: sv_inv_def server_queue_def d)
  show "ft_holds (ft_pc s t) \<Longrightarrow> ft_holds (ft_pc s u) \<Longrightarrow> u = t" by (rule ftp.lock_inv_only [OF ft_inv_parts(2) [OF inv]])
  show "ft_got (ft_pc s t) \<Longrightarrow> t = -1 \<and> server_queue (sv_srv (ft_sv s)) \<noteq> []"
    using ft_inv_parts(3,4) [OF inv] at_ok_got by (auto simp: when_at_def)
qed

end
