(* ===== verification/Atomic_Queue.thy ===== *)
theory Atomic_Queue
  imports Transition
begin

text \<open>
  The abstract object that the queues of the program promise: a queue whose operations take
  effect at one instant between call and return, with or without a capacity. The state of a
  thread is only whether it is inside an operation and whether that has taken effect. The packet
  queue of the dispatcher and the two blocking queues refine it: each of their steps is a step of
  this object or invisible in it.
\<close>

datatype 'a qop = OpPut 'a | OpTake | OpDrain | OpRead

datatype 'a qphase = Outside | Calling "'a qop" | Returning

record 'a aq_sys =
  aq_queue :: "'a list"
  aq_phase :: "int \<Rightarrow> 'a qphase"
  aq_in :: "'a list"
  aq_out :: "'a list"

definition aq_init :: "'a aq_sys \<Rightarrow> bool" where
  "aq_init s \<longleftrightarrow> s = \<lparr>aq_queue = [], aq_phase = (\<lambda>_. Outside), aq_in = [], aq_out = []\<rparr>"

fun room :: "nat option \<Rightarrow> 'a list \<Rightarrow> bool" where
  "room None q = True"
| "room (Some n) q = (length q < n)"

text \<open>The effect of an operation: the new queue, what came in and what went out; none while it has to wait.\<close>

fun q_effect :: "nat option \<Rightarrow> 'a qop \<Rightarrow> 'a list \<Rightarrow> ('a list \<times> 'a list \<times> 'a list) option" where
  "q_effect cap (OpPut x) q = (if room cap q then Some (q @ [x], [x], []) else None)"
| "q_effect cap OpTake [] = None"
| "q_effect cap OpTake (x # q) = Some (q, [], [x])"
| "q_effect cap OpDrain q = Some ([], [], q)"
| "q_effect cap OpRead q = Some (q, [], [])"

inductive aq_step :: "nat option \<Rightarrow> 'a aq_sys \<Rightarrow> 'a aq_sys \<Rightarrow> bool" for cap where
  aq_call: "aq_phase s t = Outside \<Longrightarrow> aq_step cap s (s\<lparr>aq_phase := (aq_phase s)(t := Calling op)\<rparr>)"
| aq_act: "aq_phase s t = Calling op \<Longrightarrow> q_effect cap op (aq_queue s) = Some (q, ins, outs) \<Longrightarrow>
    aq_step cap s (s\<lparr>aq_queue := q, aq_phase := (aq_phase s)(t := Returning), aq_in := aq_in s @ ins, aq_out := aq_out s @ outs\<rparr>)"
| aq_return: "aq_phase s t = Returning \<Longrightarrow> aq_step cap s (s\<lparr>aq_phase := (aq_phase s)(t := Outside)\<rparr>)"

section \<open>What the object guarantees\<close>

definition aq_inv :: "nat option \<Rightarrow> 'a aq_sys \<Rightarrow> bool" where
  "aq_inv cap s \<longleftrightarrow> aq_in s = aq_out s @ aq_queue s \<and> (\<forall>n. cap = Some n \<longrightarrow> length (aq_queue s) \<le> n)"

lemma q_effect_flow:
  "q_effect cap op q = Some (q', ins, outs) \<Longrightarrow> outs @ q' = q @ ins \<and> (\<forall>n. cap = Some n \<and> length q \<le> n \<longrightarrow> length q' \<le> n)"
  by (induction cap op q rule: q_effect.induct) (auto split: if_splits)

lemma aq_inv_step: "aq_inv cap s \<Longrightarrow> aq_step cap s s' \<Longrightarrow> aq_inv cap s'"
proof (erule aq_step.cases)
  fix r t op q ins outs
  assume inv: "aq_inv cap s" and r: "s = r" and eff: "q_effect cap op (aq_queue r) = Some (q, ins, outs)"
    and s': "s' = r\<lparr>aq_queue := q, aq_phase := (aq_phase r)(t := Returning), aq_in := aq_in r @ ins, aq_out := aq_out r @ outs\<rparr>"
  show "aq_inv cap s'" using inv q_effect_flow [OF eff] by (simp add: aq_inv_def r s')
qed (auto simp: aq_inv_def)

interpretation atomicq: invariant_system aq_init "aq_step cap" "aq_inv cap" for cap
  by unfold_locales (simp add: aq_init_def aq_inv_def, rule aq_inv_step)

section \<open>Views of an implementation\<close>

text \<open>The state an implementation stands for: \<open>ph\<close> gives the phase of a place in the code.\<close>

definition aq_of :: "('p \<Rightarrow> 'a qphase) \<Rightarrow> (int \<Rightarrow> 'p) \<Rightarrow> 'a list \<Rightarrow> 'a list \<Rightarrow> 'a list \<Rightarrow> 'a aq_sys" where
  "aq_of ph pc q ins outs = \<lparr>aq_queue = q, aq_phase = (\<lambda>t. ph (pc t)), aq_in = ins, aq_out = outs\<rparr>"

lemma aq_of_stay: "ph p = ph (pc t) \<Longrightarrow> aq_of ph (pc(t := p)) q i out = aq_of ph pc q i out"
  by (auto simp: aq_of_def)

lemma aq_of_call:
  "ph (pc t) = Outside \<Longrightarrow> ph p = Calling op \<Longrightarrow> aq_step cap (aq_of ph pc q i out) (aq_of ph (pc(t := p)) q i out)"
  using aq_call [of "aq_of ph pc q i out" t cap op] by (simp add: aq_of_def fun_upd_def if_distrib cong: if_cong)

lemma aq_of_act:
  "ph (pc t) = Calling op \<Longrightarrow> ph p = Returning \<Longrightarrow> q_effect cap op q = Some (q', ins, outs) \<Longrightarrow>
    aq_step cap (aq_of ph pc q i out) (aq_of ph (pc(t := p)) q' (i @ ins) (out @ outs))"
  using aq_act [of "aq_of ph pc q i out" t op cap q' ins outs] by (simp add: aq_of_def fun_upd_def if_distrib cong: if_cong)

lemma aq_of_return:
  "ph (pc t) = Returning \<Longrightarrow> ph p = Outside \<Longrightarrow> aq_step cap (aq_of ph pc q i out) (aq_of ph (pc(t := p)) q i out)"
  using aq_return [of "aq_of ph pc q i out" t cap] by (simp add: aq_of_def fun_upd_def if_distrib cong: if_cong)

lemma aq_of_init: "(\<And>t. ph (pc t) = Outside) \<Longrightarrow> aq_init (aq_of ph pc [] [] [])"
  by (simp add: aq_of_def aq_init_def)

end
