(* ===== verification/Packet_Queue.thy ===== *)
theory Packet_Queue
  imports Dispatch Lock_Discipline Atomic_Queue
begin

text \<open>
  \<^verbatim>\<open>Dispatcher::PushPack\<close> and \<^verbatim>\<open>GetPack\<close> as an interleaving of threads: the I/O threads
  push, the threads of a set of consumers get. One step is one access to shared state: the look
  at \<^verbatim>\<open>m_MsgQueue.empty()\<close> (made without the lock), taking the lock, the queue operation,
  releasing the lock. With one consumer, the logic thread of the server, the queue is first in
  first out, the lock excludes and \<^verbatim>\<open>front\<close>/\<^verbatim>\<open>pop\<close> never meet an empty queue; with two
  consumers they can.
\<close>

datatype qpc = Idle | PushWant SPacket | PushHeld SPacket | PushDone | GetSeen | GetHeld | GetDone SPacket

record qsys =
  qs_queue :: "SPacket list"
  qs_mtx :: MutexLock
  qs_pc :: "int \<Rightarrow> qpc"
  qs_fault :: bool
  qs_pushed :: "SPacket list"
  qs_popped :: "SPacket list"

definition q_init :: "qsys \<Rightarrow> bool" where
  "q_init s \<longleftrightarrow> s = \<lparr>qs_queue = [], qs_mtx = MutexLock_new, qs_pc = (\<lambda>_. Idle), qs_fault = False,
     qs_pushed = [], qs_popped = []\<rparr>"

inductive q_step :: "int set \<Rightarrow> qsys \<Rightarrow> qsys \<Rightarrow> bool" for C where
  push_call: "qs_pc s t = Idle \<Longrightarrow> q_step C s (s\<lparr>qs_pc := (qs_pc s)(t := PushWant p)\<rparr>)"
| push_lock: "qs_pc s t = PushWant p \<Longrightarrow> mutex_lock t (qs_mtx s) = Some m \<Longrightarrow>
    q_step C s (s\<lparr>qs_mtx := m, qs_pc := (qs_pc s)(t := PushHeld p)\<rparr>)"
| push_put: "qs_pc s t = PushHeld p \<Longrightarrow>
    q_step C s (s\<lparr>qs_queue := qs_queue s @ [p], qs_pushed := qs_pushed s @ [p],
      qs_pc := (qs_pc s)(t := PushDone)\<rparr>)"
| push_unlock: "qs_pc s t = PushDone \<Longrightarrow> mutex_unlock t (qs_mtx s) = Inr m \<Longrightarrow>
    q_step C s (s\<lparr>qs_mtx := m, qs_pc := (qs_pc s)(t := Idle)\<rparr>)"
| get_empty: "t \<in> C \<Longrightarrow> qs_pc s t = Idle \<Longrightarrow> qs_queue s = [] \<Longrightarrow> q_step C s s"
| get_seen: "t \<in> C \<Longrightarrow> qs_pc s t = Idle \<Longrightarrow> qs_queue s \<noteq> [] \<Longrightarrow>
    q_step C s (s\<lparr>qs_pc := (qs_pc s)(t := GetSeen)\<rparr>)"
| get_lock: "qs_pc s t = GetSeen \<Longrightarrow> mutex_lock t (qs_mtx s) = Some m \<Longrightarrow>
    q_step C s (s\<lparr>qs_mtx := m, qs_pc := (qs_pc s)(t := GetHeld)\<rparr>)"
| get_pop: "qs_pc s t = GetHeld \<Longrightarrow> qs_queue s = p # rest \<Longrightarrow>
    q_step C s (s\<lparr>qs_queue := rest, qs_popped := qs_popped s @ [p],
      qs_pc := (qs_pc s)(t := GetDone p)\<rparr>)"
| get_pop_empty: "qs_pc s t = GetHeld \<Longrightarrow> qs_queue s = [] \<Longrightarrow> q_step C s (s\<lparr>qs_fault := True\<rparr>)"
| get_unlock: "qs_pc s t = GetDone p \<Longrightarrow> mutex_unlock t (qs_mtx s) = Inr m \<Longrightarrow>
    q_step C s (s\<lparr>qs_mtx := m, qs_pc := (qs_pc s)(t := Idle)\<rparr>)"

fun holds_lock :: "qpc \<Rightarrow> bool" where
  "holds_lock (PushHeld p) = True"
| "holds_lock PushDone = True"
| "holds_lock GetHeld = True"
| "holds_lock (GetDone p) = True"
| "holds_lock _ = False"

fun in_get :: "qpc \<Rightarrow> bool" where
  "in_get GetSeen = True"
| "in_get GetHeld = True"
| "in_get (GetDone p) = True"
| "in_get _ = False"

interpretation pqp: lock_places holds_lock Idle
  by unfold_locales simp

fun got_some :: "qpc \<Rightarrow> bool" where
  "got_some GetSeen = True"
| "got_some GetHeld = True"
| "got_some _ = False"

definition q_inv :: "int \<Rightarrow> qsys \<Rightarrow> bool" where
  "q_inv c s \<longleftrightarrow>
     pqp.lock_inv (qs_pc s) (qs_mtx s) \<and>
     qs_pushed s = qs_popped s @ qs_queue s \<and>
     (\<forall>t. in_get (qs_pc s t) \<longrightarrow> t = c) \<and>
     when_at got_some (qs_pc s) (qs_queue s \<noteq> []) \<and>
     \<not> qs_fault s"

lemma got_some_in_get: "got_some p \<Longrightarrow> in_get p"
  by (cases p) simp_all

lemma q_inv_init: "q_init s \<Longrightarrow> q_inv c s"
  by (auto simp: q_init_def q_inv_def when_at_def MutexLock_new_def mutex_ok_def intro: pqp.lock_inv_init)

lemma q_inv_step:
  assumes inv: "q_inv c s" and step: "q_step {c} s s'"
  shows "q_inv c s'"
proof -
  note L = inv [unfolded q_inv_def, THEN conjunct1]
    and R = inv [unfolded q_inv_def, THEN conjunct2]
  have cons: "in_get (qs_pc s t) \<Longrightarrow> t = c" for t
    using R by blast
  have seen: "when_at got_some ((qs_pc s)(t := p)) (qs_queue s \<noteq> [])" if "got_some p \<longrightarrow> qs_queue s \<noteq> []" for t p
    using R that by (blast intro: when_at_upd)
  show ?thesis
    using step
  proof cases
    case (push_call t p)
    then show ?thesis
      using R pqp.lock_inv_stay [OF L, of t "PushWant p"] seen [of "PushWant p" t] by (auto simp: q_inv_def)
  next
    case (push_lock t p m)
    then show ?thesis
      using R pqp.lock_inv_acquire [OF L mutex_lock_ok [OF push_lock(3)], of "PushHeld p"] seen [of "PushHeld p" t]
      by (auto simp: q_inv_def)
  next
    case (push_put t p)
    then show ?thesis
      using R pqp.lock_inv_stay [OF L, of t PushDone] by (auto simp: q_inv_def)
  next
    case (push_unlock t m)
    then show ?thesis
      using R pqp.lock_inv_release [OF L mutex_unlock_ok [OF push_unlock(3)], of Idle] seen [of Idle t]
      by (auto simp: q_inv_def)
  next
    case (get_empty t)
    then show ?thesis using inv by simp
  next
    case (get_seen t)
    then show ?thesis
      using R pqp.lock_inv_stay [OF L, of t GetSeen] seen [of GetSeen t] by (auto simp: q_inv_def)
  next
    case (get_lock t m)
    then have "got_some (qs_pc s t)" by simp
    then have "qs_queue s \<noteq> []" using R by (auto simp: when_at_def)
    then show ?thesis
      using get_lock R pqp.lock_inv_acquire [OF L mutex_lock_ok [OF get_lock(3)], of GetHeld] seen [of GetHeld t] cons [of t]
      by (auto simp: q_inv_def)
  next
    case (get_pop t p rest)
    have "\<not> got_some (((qs_pc s)(t := GetDone p)) u)" for u
      using get_pop(2) cons [of t] cons [of u] got_some_in_get [of "qs_pc s u"] by auto
    then show ?thesis
      using get_pop R cons [of t] pqp.lock_inv_stay [OF L, of t "GetDone p"] by (auto simp: q_inv_def when_at_def)
  next
    case (get_pop_empty t)
    then have "got_some (qs_pc s t)" by simp
    then show ?thesis using R get_pop_empty(3) by (auto simp: when_at_def)
  next
    case (get_unlock t p m)
    then show ?thesis
      using R pqp.lock_inv_release [OF L mutex_unlock_ok [OF get_unlock(3)], of Idle] seen [of Idle t]
      by (auto simp: q_inv_def)
  qed
qed

interpretation packq: invariant_system q_init "q_step {c}" "q_inv c" for c
  by unfold_locales (auto intro: q_inv_init q_inv_step)

section \<open>An atomic queue\<close>

text \<open>
  With one consumer the packet queue is an atomic queue. A look that finds it empty is no step of
  the atomic queue: it changes nothing.
\<close>

fun q_phase :: "qpc \<Rightarrow> SPacket qphase" where
  "q_phase Idle = Outside"
| "q_phase (PushWant p) = Calling (OpPut p)"
| "q_phase (PushHeld p) = Calling (OpPut p)"
| "q_phase PushDone = Returning"
| "q_phase GetSeen = Calling OpTake"
| "q_phase GetHeld = Calling OpTake"
| "q_phase (GetDone p) = Returning"

definition q_abs :: "qsys \<Rightarrow> SPacket aq_sys" where
  "q_abs s = aq_of q_phase (qs_pc s) (qs_queue s) (qs_pushed s) (qs_popped s)"

lemma q_abs_step:
  assumes "q_inv c s" "q_step {c} s s'"
  shows "q_abs s' = q_abs s \<or> aq_step None (q_abs s) (q_abs s')"
  using assms(2)
proof cases
  case (push_put t p)
  then show ?thesis
    using aq_of_act [of q_phase "qs_pc s" t "OpPut p" PushDone None "qs_queue s" "qs_queue s @ [p]" "[p]" "[]"]
    by (simp add: q_abs_def)
next
  case (get_pop t p rest)
  then show ?thesis
    using aq_of_act [of q_phase "qs_pc s" t OpTake "GetDone p" None "qs_queue s" rest "[]" "[p]"] by (simp add: q_abs_def)
next
  case (get_pop_empty t)
  then have "got_some (qs_pc s t)" by simp
  then show ?thesis using assms(1) get_pop_empty(3) by (auto simp: q_inv_def when_at_def)
qed (simp_all add: q_abs_def aq_of_stay aq_of_call aq_of_return)

interpretation packatomic: simulation q_init "q_step {c}" "q_inv c" aq_init "aq_step None" q_abs for c
proof
  show "q_init s \<Longrightarrow> aq_init (q_abs s)" for s
    by (auto simp: q_init_def q_abs_def intro: aq_of_init)
qed (rule q_abs_step)

text \<open>With two consumers: both see one packet, the second finds the queue empty.\<close>

lemma two_consumers_run:
  fixes p :: SPacket
  shows "\<exists>s. reach q_init (q_step {1, 2}) s \<and> qs_fault s"
proof -
  let ?R = "reach q_init (q_step {1, 2})"
  define free where "free = MutexLock_new"
  define by3 by1 by2 where "by3 = \<lparr>mx_owner = Some 3, holder = 3\<rparr>"
    and "by1 = \<lparr>mx_owner = Some 1, holder = 1\<rparr>" and "by2 = \<lparr>mx_owner = Some 2, holder = (2::int)\<rparr>"
  have lock: "mutex_lock 1 free = Some by1" "mutex_lock 2 free = Some by2" "mutex_lock 3 free = Some by3"
    "mutex_unlock 3 by3 = Inr free" "mutex_unlock 1 by1 = Inr free"
    by (simp_all add: free_def by1_def by2_def by3_def MutexLock_new_def mutex_lock_def mutex_unlock_def
        assignHolder_def unassignHolder_def)
  note [simp] = lock
  define S where "S q m pc po pu f = \<lparr>qs_queue = q, qs_mtx = m, qs_pc = pc, qs_fault = f,
     qs_pushed = pu, qs_popped = po\<rparr>" for q m pc po pu f
  let ?I = "\<lambda>_::int. Idle"
  have r0: "?R (S [] free ?I [] [] False)"
    by (rule reach_init) (simp add: q_init_def S_def free_def)
  have r1: "?R (S [] free (?I(3 := PushWant p)) [] [] False)"
    using reach_step [OF r0 push_call [of _ 3 _ p]] by (simp add: S_def)
  have r2: "?R (S [] by3 (?I(3 := PushHeld p)) [] [] False)"
    using reach_step [OF r1 push_lock [of _ 3 p by3]] by (simp add: S_def)
  have r3: "?R (S [p] by3 (?I(3 := PushDone)) [] [p] False)"
    using reach_step [OF r2 push_put [of _ 3 p]] by (simp add: S_def)
  have r4: "?R (S [p] free (?I(3 := Idle)) [] [p] False)"
    using reach_step [OF r3 push_unlock [of _ 3 free]] by (simp add: S_def)
  have r5: "?R (S [p] free (?I(3 := Idle, 1 := GetSeen)) [] [p] False)"
    using reach_step [OF r4 get_seen [of 1]] by (simp add: S_def)
  have r6: "?R (S [p] free (?I(3 := Idle, 1 := GetSeen, 2 := GetSeen)) [] [p] False)"
    using reach_step [OF r5 get_seen [of 2]] by (simp add: S_def)
  have r7: "?R (S [p] by1 (?I(3 := Idle, 1 := GetHeld, 2 := GetSeen)) [] [p] False)"
    using reach_step [OF r6 get_lock [of _ 1 by1]] by (simp add: S_def fun_upd_twist)
  have r8: "?R (S [] by1 (?I(3 := Idle, 1 := GetDone p, 2 := GetSeen)) [p] [p] False)"
    using reach_step [OF r7 get_pop [of _ 1 p "[]"]] by (simp add: S_def fun_upd_twist)
  have r9: "?R (S [] free (?I(3 := Idle, 1 := Idle, 2 := GetSeen)) [p] [p] False)"
    using reach_step [OF r8 get_unlock [of _ 1 p free]] by (simp add: S_def fun_upd_twist)
  have r10: "?R (S [] by2 (?I(3 := Idle, 1 := Idle, 2 := GetHeld)) [p] [p] False)"
    using reach_step [OF r9 get_lock [of _ 2 by2]] by (simp add: S_def fun_upd_twist)
  have r11: "?R (S [] by2 (?I(3 := Idle, 1 := Idle, 2 := GetHeld)) [p] [p] True)"
    using reach_step [OF r10 get_pop_empty [of _ 2]] by (simp add: S_def)
  then show ?thesis by (auto simp: S_def)
qed

end
