(* ===== verification/Buffer_Spec.thy ===== *)
theory Buffer_Spec
  imports Net_Buffer
begin

text \<open>
  What a client of \<^verbatim>\<open>muduo/net/Buffer.h\<close> may think of a buffer: a queue of bytes. \<open>buf_op\<close> are
  the calls that write at the end and read at the front, \<open>buf_run\<close> runs them on the buffer of the
  code and \<open>queue_run\<close> on a byte list. The refinement shows that every run of calls on the buffer
  gives the values and the faults of the run on the byte list, whatever the moves and the growth
  inside \<^verbatim>\<open>makeSpace\<close>.
\<close>

datatype buf_op = OpAppend "BYTE list" | OpAppend64 QWORD | OpAppend32 DWORD | OpAppend16 WORD | OpAppend8 BYTE
  | OpRead64 | OpRead32 | OpRead16 | OpRead8 | OpRetrieve nat | OpRetrieveAll | OpTake nat | OpUnwrite nat

datatype buf_out = OutNone | OutBytes "BYTE list" | Out64 QWORD | Out32 DWORD | Out16 WORD | Out8 BYTE

fun buf_run :: "buf_op \<Rightarrow> Buffer \<Rightarrow> (buf_out \<times> Buffer) result" where
  "buf_run (OpAppend d) b = bnd (Buffer_append b d) (\<lambda>b. Inr (OutNone, b))"
| "buf_run (OpAppend64 x) b = bnd (appendInt64 b x) (\<lambda>b. Inr (OutNone, b))"
| "buf_run (OpAppend32 x) b = bnd (appendInt32 b x) (\<lambda>b. Inr (OutNone, b))"
| "buf_run (OpAppend16 x) b = bnd (appendInt16 b x) (\<lambda>b. Inr (OutNone, b))"
| "buf_run (OpAppend8 x) b = bnd (appendInt8 b x) (\<lambda>b. Inr (OutNone, b))"
| "buf_run OpRead64 b = bnd (readInt64 b) (\<lambda>(x, b). Inr (Out64 x, b))"
| "buf_run OpRead32 b = bnd (readInt32 b) (\<lambda>(x, b). Inr (Out32 x, b))"
| "buf_run OpRead16 b = bnd (readInt16 b) (\<lambda>(x, b). Inr (Out16 x, b))"
| "buf_run OpRead8 b = bnd (readInt8 b) (\<lambda>(x, b). Inr (Out8 x, b))"
| "buf_run (OpRetrieve n) b = bnd (retrieve b n) (\<lambda>b. Inr (OutNone, b))"
| "buf_run OpRetrieveAll b = Inr (OutNone, retrieveAll b)"
| "buf_run (OpTake n) b = bnd (retrieveAsString b n) (\<lambda>(s, b). Inr (OutBytes s, b))"
| "buf_run (OpUnwrite n) b = bnd (unwrite b n) (\<lambda>b. Inr (OutNone, b))"

text \<open>The specification: a number is its bytes, most significant first.\<close>

definition be_bytes :: "nat \<Rightarrow> 'a::len word \<Rightarrow> BYTE list" where
  "be_bytes n w = map (\<lambda>i. ucast (drop_bit (8 * (n - 1 - i)) w)) [0..<n]"

definition front_of :: "nat \<Rightarrow> (BYTE list \<Rightarrow> buf_out) \<Rightarrow> BYTE list \<Rightarrow> (buf_out \<times> BYTE list) result" where
  "front_of n out q = (if n \<le> length q then Inr (out (take n q), drop n q) else Inl AssertFail)"

fun queue_run :: "buf_op \<Rightarrow> BYTE list \<Rightarrow> (buf_out \<times> BYTE list) result" where
  "queue_run (OpAppend d) q = Inr (OutNone, q @ d)"
| "queue_run (OpAppend64 x) q = Inr (OutNone, q @ be_bytes 8 x)"
| "queue_run (OpAppend32 x) q = Inr (OutNone, q @ be_bytes 4 x)"
| "queue_run (OpAppend16 x) q = Inr (OutNone, q @ be_bytes 2 x)"
| "queue_run (OpAppend8 x) q = Inr (OutNone, q @ [x])"
| "queue_run OpRead64 q = front_of 8 (\<lambda>bs. Out64 (word_of_nat (be_value bs))) q"
| "queue_run OpRead32 q = front_of 4 (\<lambda>bs. Out32 (word_of_nat (be_value bs))) q"
| "queue_run OpRead16 q = front_of 2 (\<lambda>bs. Out16 (word_of_nat (be_value bs))) q"
| "queue_run OpRead8 q = front_of 1 (\<lambda>bs. Out8 (hd bs)) q"
| "queue_run (OpRetrieve n) q = front_of n (\<lambda>bs. OutNone) q"
| "queue_run OpRetrieveAll q = Inr (OutNone, [])"
| "queue_run (OpTake n) q = front_of n OutBytes q"
| "queue_run (OpUnwrite n) q = (if n \<le> length q then Inr (OutNone, take (length q - n) q) else Inl AssertFail)"

text \<open>Runs of calls, and how many bytes they write.\<close>

fun run_all :: "('o \<Rightarrow> 's \<Rightarrow> ('r \<times> 's) result) \<Rightarrow> 'o list \<Rightarrow> 's \<Rightarrow> ('r list \<times> 's) result" where
  "run_all step [] s = Inr ([], s)"
| "run_all step (p # ps) s = bnd (step p s) (\<lambda>(r, s1). bnd (run_all step ps s1) (\<lambda>(rs, s2). Inr (r # rs, s2)))"

fun op_bytes :: "buf_op \<Rightarrow> nat" where
  "op_bytes (OpAppend d) = length d"
| "op_bytes (OpAppend64 x) = 8"
| "op_bytes (OpAppend32 x) = 4"
| "op_bytes (OpAppend16 x) = 2"
| "op_bytes (OpAppend8 x) = 1"
| "op_bytes _ = 0"

section \<open>Network order is most significant byte first\<close>

lemma be_bytes_rev: "be_bytes n w = rev (store_le n w)"
proof (rule nth_equalityI)
  fix i assume "i < length (be_bytes n w)"
  then have "i < n" by (simp add: be_bytes_def)
  then show "be_bytes n w ! i = rev (store_le n w) ! i"
    by (simp add: be_bytes_def rev_nth nth_store_le)
qed (simp add: be_bytes_def)

lemma network_image:
  "store_le 8 (hostToNetwork64 w64) = be_bytes 8 w64"
  "store_le 4 (hostToNetwork32 w32) = be_bytes 4 w32"
  "store_le 2 (hostToNetwork16 w16) = be_bytes 2 w16"
  by (simp_all add: endian_defs be_bytes_rev store_bswap)

lemma bswap_load:
  assumes "LENGTH('a::len) = 8 * length bs"
  shows "bswap (load_le bs :: 'a word) = word_of_nat (be_value bs)"
proof -
  have "bswap (load_le bs :: 'a word) = load_le (rev bs)"
    using assms by (simp add: bswap_def)
  moreover have "unat (load_le (rev bs) :: 'a word) = be_value bs"
    using unat_load_le [of "rev bs", where 'a = 'a] assms by simp
  ultimately show ?thesis by (metis of_nat_unat ucast_id)
qed

lemma network_value:
  "length bs = 8 \<Longrightarrow> networkToHost64 (load_le bs) = word_of_nat (be_value bs)"
  "length bs = 4 \<Longrightarrow> networkToHost32 (load_le bs) = word_of_nat (be_value bs)"
  "length bs = 2 \<Longrightarrow> networkToHost16 (load_le bs) = word_of_nat (be_value bs)"
  by (simp_all add: endian_defs bswap_load)

section \<open>One call\<close>

definition sim :: "nat \<Rightarrow> Buffer \<Rightarrow> BYTE list \<Rightarrow> bool" where
  "sim n b q \<longleftrightarrow> buffer_ok b \<and> content b = q \<and> writerIndex b \<le> n"

lemma retrieve_writer: "retrieve b n = Inr b' \<Longrightarrow> writerIndex b' \<le> max kCheapPrepend (writerIndex b)"
  by (auto simp: retrieve_def retrieveAll_def bnd_eq_Inr split: if_splits)

lemma makeSpace_writer: "buffer_ok b \<Longrightarrow> makeSpace b n = Inr b' \<Longrightarrow> writerIndex b' \<le> writerIndex b"
  using buffer_okD [of b]
  by (auto simp: makeSpace_def Let_def bnd_eq_Inr buffer_sizes split: if_splits)

lemma append_writer:
  assumes "buffer_ok b" "writerIndex b + length d \<le> vec_max" "Buffer_append b d = Inr b'"
  shows "writerIndex b' \<le> writerIndex b + length d"
proof -
  obtain b1 where b1: "ensureWritableBytes b (length d) = Inr b1"
    "hasWritten (b1\<lparr>buffer := write_at (buffer b1) (beginWrite b1) d\<rparr>) (length d) = Inr b'"
    using assms(3) by (auto simp: Buffer_append_def bnd_eq_Inr)
  then have "writerIndex b1 \<le> writerIndex b"
    using makeSpace_writer [OF assms(1)] by (auto simp: ensureWritableBytes_def bnd_eq_Inr split: if_splits)
  then show ?thesis using b1(2) assms(2) by (auto simp: hasWritten_def bnd_eq_Inr)
qed

lemma append_sim:
  assumes "sim n b q" "n + length d \<le> vec_max"
  shows "\<exists>b'. Buffer_append b d = Inr b' \<and> sim (n + length d) b' (q @ d)"
proof -
  have w: "buffer_ok b" "writerIndex b + length d \<le> vec_max" "writerIndex b \<le> n" using assms by (simp_all add: sim_def)
  then obtain b' where "Buffer_append b d = Inr b'" "buffer_ok b'" "content b' = q @ d"
    using Buffer_append_ok [OF w(1,2)] assms(1) by (auto simp: sim_def)
  then show ?thesis using append_writer [OF w(1,2)] w(3) by (fastforce simp: sim_def)
qed

lemma retrieve_sim:
  assumes "sim n b q" "kCheapPrepend \<le> n" "k \<le> length q"
  shows "\<exists>b'. retrieve b k = Inr b' \<and> sim n b' (drop k q)"
proof -
  have "buffer_ok b" "k \<le> readableBytes b" using assms length_content [of b] by (auto simp: sim_def)
  then obtain b' where "retrieve b k = Inr b'" "buffer_ok b'" "content b' = drop k q"
    using retrieve_ok assms(1) by (force simp: sim_def)
  then show ?thesis using retrieve_writer [of b k b'] assms(1,2) by (auto simp: sim_def)
qed

lemma sim_readable: "sim n b q \<Longrightarrow> readableBytes b = length q"
  using length_content [of b] by (auto simp: sim_def)

lemma sim_front: "sim n b q \<Longrightarrow> k \<le> length q \<Longrightarrow> buf_range b (peek b) (peek b + k) = take k q"
  using buf_range_content [of b k] sim_readable [of n b q] by (simp add: sim_def)

lemma sim_first: "sim n b q \<Longrightarrow> 1 \<le> length q \<Longrightarrow> read_byte (buffer b) (peek b) = Inr (hd q)"
proof -
  assume s: "sim n b q" and "1 \<le> length q"
  then have q: "q \<noteq> []" by auto
  have one: "buf_range b (peek b) (peek b + 1) = [hd q]"
    using sim_front [OF s, of 1] q by (cases q) auto
  have "peek b < length (buffer b)"
  proof -
    have "buffer_ok b" "0 < readableBytes b" using s q sim_readable [OF s] by (simp_all add: sim_def)
    then show ?thesis using buffer_okD(2) [of b] by (simp add: peek_def buffer_sizes)
  qed
  then show ?thesis
    using one Cons_nth_drop_Suc [of "peek b" "buffer b", symmetric] by (simp add: buf_range_def read_byte_def)
qed

text \<open>The result of a call on the buffer against the result on the byte list.\<close>

definition matches :: "nat \<Rightarrow> (buf_out \<times> Buffer) result \<Rightarrow> (buf_out \<times> BYTE list) result \<Rightarrow> bool" where
  "matches n rb rq = (case rq of Inl e \<Rightarrow> rb = Inl e | Inr (r, q) \<Rightarrow> \<exists>b. rb = Inr (r, b) \<and> sim n b q)"

lemma matches_front:
  assumes "sim n b q" "kCheapPrepend \<le> n"
    "k \<le> length q \<Longrightarrow> rb = bnd (retrieve b k) (\<lambda>b'. Inr (out (take k q), b'))" "length q < k \<Longrightarrow> rb = Inl AssertFail"
  shows "matches n rb (front_of k out q)"
  using retrieve_sim [OF assms(1,2), of k] assms(3,4) by (cases "k \<le> length q") (auto simp: matches_def front_of_def)

lemma read_results:
  assumes "sim n b q"
  shows "8 \<le> length q \<Longrightarrow> readInt64 b = bnd (retrieve b 8) (\<lambda>b'. Inr (word_of_nat (be_value (take 8 q)), b'))"
    "4 \<le> length q \<Longrightarrow> readInt32 b = bnd (retrieve b 4) (\<lambda>b'. Inr (word_of_nat (be_value (take 4 q)), b'))"
    "2 \<le> length q \<Longrightarrow> readInt16 b = bnd (retrieve b 2) (\<lambda>b'. Inr (word_of_nat (be_value (take 2 q)), b'))"
    "1 \<le> length q \<Longrightarrow> readInt8 b = bnd (retrieve b 1) (\<lambda>b'. Inr (hd q, b'))"
  using sim_readable [OF assms] sim_front [OF assms, of 8] sim_front [OF assms, of 4] sim_front [OF assms, of 2]
    sim_first [OF assms]
  by (auto simp: readInt64_def peekInt64_def retrieveInt64_def readInt32_def peekInt32_def retrieveInt32_def
      readInt16_def peekInt16_def retrieveInt16_def readInt8_def peekInt8_def retrieveInt8_def network_value)

lemma unwrite_sim:
  assumes "sim n b q"
  shows "matches n (buf_run (OpUnwrite k) b) (queue_run (OpUnwrite k) q)"
proof (cases "k \<le> length q")
  case True
  then obtain b' where b': "unwrite b k = Inr b'" "buffer_ok b'" "content b' = take (length q - k) q"
    using unwrite_ok [of b k] assms sim_readable [OF assms] by (auto simp: sim_def)
  have "k \<le> writerIndex b"
    using True sim_readable [OF assms] buffer_okD(1) [of b] assms by (simp add: sim_def buffer_sizes)
  then have "writerIndex b' \<le> writerIndex b" using b'(1) by (auto simp: unwrite_def bnd_eq_Inr)
  then show ?thesis using True b' assms by (auto simp: matches_def sim_def)
next
  case False
  then show ?thesis using sim_readable [OF assms] by (simp add: matches_def unwrite_def assert_c_def)
qed

lemma buf_run_matches:
  assumes "sim n b q" "kCheapPrepend \<le> n" "n + op_bytes p \<le> vec_max"
  shows "matches (n + op_bytes p) (buf_run p b) (queue_run p q)"
proof -
  note app = append_sim [OF assms(1)] and short = peekInt_underflow [of b, unfolded sim_readable [OF assms(1)]]
  have lens: "length (be_bytes k w) = k" for k and w :: "'a::len word" by (simp add: be_bytes_rev)
  show ?thesis
  proof (cases p)
    case (OpAppend d)
    then show ?thesis using app [of d] assms(3) by (auto simp: matches_def)
  next
    case (OpAppend64 x)
    then show ?thesis
      using app [of "be_bytes 8 x"] assms(3) by (auto simp: matches_def appendInt64_def network_image be_bytes_rev)
  next
    case (OpAppend32 x)
    then show ?thesis
      using app [of "be_bytes 4 x"] assms(3) by (auto simp: matches_def appendInt32_def network_image be_bytes_rev)
  next
    case (OpAppend16 x)
    then show ?thesis
      using app [of "be_bytes 2 x"] assms(3) by (auto simp: matches_def appendInt16_def network_image be_bytes_rev)
  next
    case (OpAppend8 x)
    then show ?thesis using app [of "[x]"] assms(3) by (auto simp: matches_def appendInt8_def)
  next
    case OpRead64
    then show ?thesis using assms(2) short(1) read_results(1) [OF assms(1)]
      by (auto intro!: matches_front [OF assms(1)] simp: bnd_assoc)
  next
    case OpRead32
    then show ?thesis using assms(2) short(2) read_results(2) [OF assms(1)]
      by (auto intro!: matches_front [OF assms(1)] simp: bnd_assoc)
  next
    case OpRead16
    then show ?thesis using assms(2) short(3) read_results(3) [OF assms(1)]
      by (auto intro!: matches_front [OF assms(1)] simp: bnd_assoc)
  next
    case OpRead8
    then show ?thesis using assms(2) short(4) read_results(4) [OF assms(1)]
      by (auto intro!: matches_front [OF assms(1)] simp: bnd_assoc)
  next
    case (OpRetrieve k)
    then show ?thesis using assms(2) retrieve_fails [of b k] sim_readable [OF assms(1)]
      by (auto intro!: matches_front [OF assms(1)])
  next
    case OpRetrieveAll
    then show ?thesis
      using assms(1,2) retrieveAll_ok [of b] by (auto simp: matches_def sim_def retrieveAll_def)
  next
    case (OpTake k)
    then show ?thesis using assms(2) sim_front [OF assms(1), of k] sim_readable [OF assms(1)]
      by (auto intro!: matches_front [OF assms(1)] simp: retrieveAsString_def bnd_assoc assert_c_def)
  next
    case (OpUnwrite k)
    then show ?thesis using unwrite_sim [OF assms(1)] by simp
  qed
qed

section \<open>Runs of calls\<close>

lemma buf_run_all:
  assumes "sim n b q" "kCheapPrepend \<le> n" "n + sum_list (map op_bytes ps) \<le> vec_max"
  shows "case run_all queue_run ps q of
      Inl e \<Rightarrow> run_all buf_run ps b = Inl e
    | Inr (outs, q') \<Rightarrow> \<exists>b'. run_all buf_run ps b = Inr (outs, b') \<and> sim (n + sum_list (map op_bytes ps)) b' q'"
  using assms
proof (induction ps arbitrary: n b q)
  case (Cons p ps)
  have step: "matches (n + op_bytes p) (buf_run p b) (queue_run p q)"
    using Cons.prems by (intro buf_run_matches) simp_all
  show ?case
  proof (cases "queue_run p q")
    case (Inl e)
    then show ?thesis using step by (simp add: matches_def)
  next
    case (Inr r)
    obtain out q1 where r: "r = (out, q1)" by fastforce
    then obtain b1 where b1: "buf_run p b = Inr (out, b1)" "sim (n + op_bytes p) b1 q1"
      using step Inr by (auto simp: matches_def)
    then show ?thesis
      using Cons.IH [OF b1(2)] Cons.prems Inr r
      by (cases "run_all queue_run ps q1") (auto simp: add.assoc split: prod.splits)
  qed
qed simp

lemma Buffer_new_sim:
  assumes "kCheapPrepend + k \<le> vec_max"
  shows "\<exists>b. Buffer_new k = Inr b \<and> sim kCheapPrepend b []"
proof -
  have "sz_add kCheapPrepend k = kCheapPrepend + k" using assms by (intro sz_add_vec) auto
  then show ?thesis
    using assms by (auto simp: Buffer_new_def Let_def sim_def buffer_ok_def content_def buf_range_def prependableBytes_def
        readableBytes_def writableBytes_def)
qed

end
