(* ===== verification/Blocking_Queue.thy ===== *)
theory Blocking_Queue
  imports Lock_Discipline Atomic_Queue
begin

text \<open>
  \<^verbatim>\<open>muduo/base/BlockingQueue.h\<close>. Each member function is given twice: as the whole call of a
  thread that meets no contention (\<open>None\<close> when it has to wait for the lock or, in \<^verbatim>\<open>take\<close>,
  for an element), and as the steps of \<open>bq_step\<close>, an interleaving of any number of threads in
  which one step is one statement. \<open>bq_in\<close> and \<open>bq_out\<close> record the elements in the order they
  enter and leave the queue. The invariant gives mutual exclusion, first in first out, that no
  assertion fails, and that no wake-up is lost.
\<close>

section \<open>BlockingQueue\<close>

record 'a BlockingQueue =
  bq_mutex :: MutexLock
  bq_notEmpty :: Condition
  bq_queue :: "'a list"

definition BlockingQueue_new :: "'a BlockingQueue" where
  "BlockingQueue_new = \<lparr>bq_mutex = MutexLock_new, bq_notEmpty = Condition_new, bq_queue = []\<rparr>"

text \<open>The scope of a guard: lock, body, unlock.\<close>

definition bq_guarded :: "int \<Rightarrow> ('a BlockingQueue \<Rightarrow> ('b \<times> 'a BlockingQueue) result option) \<Rightarrow> 'a BlockingQueue \<Rightarrow>
    ('b \<times> 'a BlockingQueue) result option" where
  "bq_guarded t body q =
     (case MutexLockGuard_new t (bq_mutex q) of
        None \<Rightarrow> None
      | Some m \<Rightarrow>
          (case body (q\<lparr>bq_mutex := m\<rparr>) of
             None \<Rightarrow> None
           | Some r \<Rightarrow> Some (bnd r (\<lambda>(v, q1).
               bnd (MutexLockGuard_dtor t (bq_mutex q1)) (\<lambda>m'. Inr (v, q1\<lparr>bq_mutex := m'\<rparr>))))))"

definition bq_put :: "(int list \<Rightarrow> int) \<Rightarrow> int \<Rightarrow> 'a \<Rightarrow> 'a BlockingQueue \<Rightarrow> (unit \<times> 'a BlockingQueue) result option" where
  "bq_put pick t x = bq_guarded t (\<lambda>q.
     Some (Inr ((), q\<lparr>bq_queue := bq_queue q @ [x], bq_notEmpty := cond_notify pick (bq_notEmpty q)\<rparr>)))"

definition bq_take :: "int \<Rightarrow> 'a BlockingQueue \<Rightarrow> ('a \<times> 'a BlockingQueue) result option" where
  "bq_take t = bq_guarded t (\<lambda>q.
     case bq_queue q of [] \<Rightarrow> None | x # xs \<Rightarrow> Some (Inr (x, q\<lparr>bq_queue := xs\<rparr>)))"

definition bq_drain :: "int \<Rightarrow> 'a BlockingQueue \<Rightarrow> ('a list \<times> 'a BlockingQueue) result option" where
  "bq_drain t = bq_guarded t (\<lambda>q. Some (Inr (bq_queue q, q\<lparr>bq_queue := []\<rparr>)))"

definition bq_size :: "int \<Rightarrow> 'a BlockingQueue \<Rightarrow> (nat \<times> 'a BlockingQueue) result option" where
  "bq_size t = bq_guarded t (\<lambda>q. Some (Inr (length (bq_queue q), q)))"

section \<open>Threads\<close>

text \<open>
  Where a thread is: outside, before the lock, and behind it at the test of the loop, at the
  assertion, after the queue operation (\<open>Pushed\<close>: before the notification) or before the
  destructor of the guard. \<open>PutWait\<close> and \<open>TakeWait\<close> are inside \<^verbatim>\<open>wait\<close>, asleep while the thread
  is among the waiters of the condition. \<open>ReadWant\<close> is a call of \<^verbatim>\<open>size\<close> or another observer.
\<close>

datatype 'a bpc = BIdle | PutWant 'a | PutTest 'a | PutWait 'a | PutIn 'a | PutPushed
  | TakeWant | TakeTest | TakeWait | TakeOut | TakePopped | DrainWant | DrainHeld
  | ReadWant | Leave

fun b_holds :: "'a bpc \<Rightarrow> bool" where
  "b_holds BIdle = False"
| "b_holds (PutWant x) = False"
| "b_holds (PutWait x) = False"
| "b_holds TakeWant = False"
| "b_holds TakeWait = False"
| "b_holds DrainWant = False"
| "b_holds ReadWant = False"
| "b_holds _ = True"

record 'a bq_sys =
  bq_obj :: "'a BlockingQueue"
  bq_pc :: "int \<Rightarrow> 'a bpc"
  bq_in :: "'a list"
  bq_out :: "'a list"
  bq_fault :: bool

definition bq_init :: "'a bq_sys \<Rightarrow> bool" where
  "bq_init s \<longleftrightarrow> s = \<lparr>bq_obj = BlockingQueue_new, bq_pc = (\<lambda>_. BIdle), bq_in = [], bq_out = [], bq_fault = False\<rparr>"

definition bq_goto :: "int \<Rightarrow> 'a bpc \<Rightarrow> 'a BlockingQueue \<Rightarrow> 'a bq_sys \<Rightarrow> 'a bq_sys" where
  "bq_goto t p q s = s\<lparr>bq_obj := q, bq_pc := (bq_pc s)(t := p)\<rparr>"

inductive bq_step :: "'a bq_sys \<Rightarrow> 'a bq_sys \<Rightarrow> bool" where
  bq_put_call: "bq_pc s t = BIdle \<Longrightarrow> bq_step s (bq_goto t (PutWant x) (bq_obj s) s)"
| bq_put_lock: "bq_pc s t = PutWant x \<Longrightarrow> MutexLockGuard_new t (bq_mutex (bq_obj s)) = Some m \<Longrightarrow>
    bq_step s (bq_goto t (PutIn x) ((bq_obj s)\<lparr>bq_mutex := m\<rparr>) s)"
| bq_put_push: "bq_pc s t = PutIn x \<Longrightarrow>
    bq_step s (bq_goto t PutPushed ((bq_obj s)\<lparr>bq_queue := bq_queue (bq_obj s) @ [x]\<rparr>) (s\<lparr>bq_in := bq_in s @ [x]\<rparr>))"
| bq_put_notify: "bq_pc s t = PutPushed \<Longrightarrow>
    bq_step s (bq_goto t Leave ((bq_obj s)\<lparr>bq_notEmpty := cond_notify pick (bq_notEmpty (bq_obj s))\<rparr>) s)"
| bq_take_call: "bq_pc s t = BIdle \<Longrightarrow> bq_step s (bq_goto t TakeWant (bq_obj s) s)"
| bq_take_lock: "bq_pc s t = TakeWant \<Longrightarrow> MutexLockGuard_new t (bq_mutex (bq_obj s)) = Some m \<Longrightarrow>
    bq_step s (bq_goto t TakeTest ((bq_obj s)\<lparr>bq_mutex := m\<rparr>) s)"
| bq_take_wait: "bq_pc s t = TakeTest \<Longrightarrow> bq_queue (bq_obj s) = [] \<Longrightarrow>
    cond_wait_begin t (bq_mutex (bq_obj s)) (bq_notEmpty (bq_obj s)) = Inr (m, c) \<Longrightarrow>
    bq_step s (bq_goto t TakeWait ((bq_obj s)\<lparr>bq_mutex := m, bq_notEmpty := c\<rparr>) s)"
| bq_take_wait_bad: "bq_pc s t = TakeTest \<Longrightarrow> bq_queue (bq_obj s) = [] \<Longrightarrow>
    cond_wait_begin t (bq_mutex (bq_obj s)) (bq_notEmpty (bq_obj s)) = Inl e \<Longrightarrow> bq_step s (s\<lparr>bq_fault := True\<rparr>)"
| bq_spurious: "t \<in> set (cond_waiters (bq_notEmpty (bq_obj s))) \<Longrightarrow>
    bq_step s (s\<lparr>bq_obj := (bq_obj s)\<lparr>bq_notEmpty :=
      (bq_notEmpty (bq_obj s))\<lparr>cond_waiters := remove1 t (cond_waiters (bq_notEmpty (bq_obj s)))\<rparr>\<rparr>\<rparr>)"
| bq_take_wake: "bq_pc s t = TakeWait \<Longrightarrow>
    cond_wait_end t (bq_mutex (bq_obj s)) (bq_notEmpty (bq_obj s)) = Some m \<Longrightarrow>
    bq_step s (bq_goto t TakeTest ((bq_obj s)\<lparr>bq_mutex := m\<rparr>) s)"
| bq_take_ready: "bq_pc s t = TakeTest \<Longrightarrow> bq_queue (bq_obj s) \<noteq> [] \<Longrightarrow> bq_step s (bq_goto t TakeOut (bq_obj s) s)"
| bq_take_pop: "bq_pc s t = TakeOut \<Longrightarrow> bq_queue (bq_obj s) = x # xs \<Longrightarrow>
    bq_step s (bq_goto t Leave ((bq_obj s)\<lparr>bq_queue := xs\<rparr>) (s\<lparr>bq_out := bq_out s @ [x]\<rparr>))"
| bq_take_assert: "bq_pc s t = TakeOut \<Longrightarrow> bq_queue (bq_obj s) = [] \<Longrightarrow> bq_step s (s\<lparr>bq_fault := True\<rparr>)"
| bq_drain_call: "bq_pc s t = BIdle \<Longrightarrow> bq_step s (bq_goto t DrainWant (bq_obj s) s)"
| bq_drain_lock: "bq_pc s t = DrainWant \<Longrightarrow> MutexLockGuard_new t (bq_mutex (bq_obj s)) = Some m \<Longrightarrow>
    bq_step s (bq_goto t DrainHeld ((bq_obj s)\<lparr>bq_mutex := m\<rparr>) s)"
| bq_drain_move: "bq_pc s t = DrainHeld \<Longrightarrow>
    bq_step s (bq_goto t Leave ((bq_obj s)\<lparr>bq_queue := []\<rparr>) (s\<lparr>bq_out := bq_out s @ bq_queue (bq_obj s)\<rparr>))"
| bq_size_call: "bq_pc s t = BIdle \<Longrightarrow> bq_step s (bq_goto t ReadWant (bq_obj s) s)"
| bq_size_lock: "bq_pc s t = ReadWant \<Longrightarrow> MutexLockGuard_new t (bq_mutex (bq_obj s)) = Some m \<Longrightarrow>
    bq_step s (bq_goto t Leave ((bq_obj s)\<lparr>bq_mutex := m\<rparr>) s)"
| bq_leave: "bq_pc s t = Leave \<Longrightarrow> MutexLockGuard_dtor t (bq_mutex (bq_obj s)) = Inr m \<Longrightarrow>
    bq_step s (bq_goto t BIdle ((bq_obj s)\<lparr>bq_mutex := m\<rparr>) s)"
| bq_leave_bad: "bq_pc s t = Leave \<Longrightarrow> MutexLockGuard_dtor t (bq_mutex (bq_obj s)) = Inl e \<Longrightarrow>
    bq_step s (s\<lparr>bq_fault := True\<rparr>)"

section \<open>The invariant\<close>

fun take_busy :: "'a bpc \<Rightarrow> bool" where
  "take_busy TakeWant = True"
| "take_busy TakeTest = True"
| "take_busy TakeOut = True"
| "take_busy PutPushed = True"
| "take_busy _ = False"

fun take_slp :: "'a bpc \<Rightarrow> bool" where
  "take_slp TakeWait = True"
| "take_slp _ = False"

fun at_out :: "'a bpc \<Rightarrow> bool" where
  "at_out TakeOut = True"
| "at_out _ = False"

lemma at_out_holds: "at_out p \<Longrightarrow> b_holds p"
  by (cases p) simp_all

interpretation bqp: lock_places b_holds BIdle
  by unfold_locales simp

interpretation takew: wait_class b_holds BIdle take_busy take_slp
proof
  fix p :: "'a bpc"
  show "take_busy p \<Longrightarrow> \<not> take_slp p" by (cases p) simp_all
  show "take_slp p \<Longrightarrow> \<not> b_holds p" by (cases p) simp_all
qed simp_all

definition bq_inv :: "'a bq_sys \<Rightarrow> bool" where
  "bq_inv s \<longleftrightarrow> bqp.lock_inv (bq_pc s) (bq_mutex (bq_obj s)) \<and>
     takew.wake_inv (bq_pc s) (bq_notEmpty (bq_obj s)) (length (bq_queue (bq_obj s))) \<and>
     bq_in s = bq_out s @ bq_queue (bq_obj s) \<and>
     when_at at_out (bq_pc s) (bq_queue (bq_obj s) \<noteq> []) \<and> \<not> bq_fault s"

lemma bq_inv_init: "bq_init s \<Longrightarrow> bq_inv s"
  by (simp add: bq_init_def bq_inv_def BlockingQueue_new_def Condition_new_def bqp.lock_inv_def takew.wake_inv_def
      takew.wakers_def MutexLock_new_def mutex_ok_def when_at_def)

lemmas bq_lock = mutex_lock_ok [folded MutexLockGuard_new_def] mutex_unlock_ok [folded MutexLockGuard_dtor_def]

lemma bq_inv_step:
  assumes inv: "bq_inv s" and step: "bq_step s s'"
  shows "bq_inv s'"
proof -
  let ?q = "bq_obj s"
  note L = inv [unfolded bq_inv_def, THEN conjunct1]
    and K = inv [unfolded bq_inv_def, THEN conjunct2, THEN conjunct1]
    and R = inv [unfolded bq_inv_def, THEN conjunct2, THEN conjunct2]
  have own: "mx_owner (bq_mutex ?q) = Some t" if "b_holds (bq_pc s t)" for t
    using L that by (simp add: bqp.lock_inv_def)
  have out: "when_at at_out ((bq_pc s)(t := p)) (bq_queue ?q \<noteq> [])"
    if "at_out p \<longrightarrow> bq_queue ?q \<noteq> []" for t p
    using R that by (blast intro: when_at_upd)
  have alone: "when_at at_out ((bq_pc s)(t := p)) b" if "b_holds (bq_pc s t)" "\<not> at_out p" for t p b
    using that at_out_holds by (intro bqp.when_at_alone [OF L])
  have awake: "t \<notin> set (cond_waiters (bq_notEmpty ?q))" if "\<not> take_slp (bq_pc s t)" for t
    using takew.wake_inv_awake [OF K that] .
  have mem: "t \<in> takew.wakers (bq_pc s) (bq_notEmpty ?q) \<longleftrightarrow> take_busy (bq_pc s t)" if "\<not> take_slp (bq_pc s t)" for t
    using that by (simp add: takew.wakers_def)
  show ?thesis
    using step
  proof cases
    case (bq_put_call t x)
    then show ?thesis
      using R bqp.lock_inv_stay [OF L, of t] takew.wake_inv_move [OF K awake, of t "PutWant x"] mem [of t]
      by (simp add: bq_inv_def bq_goto_def out)
  next
    case (bq_put_lock t x m)
    then show ?thesis
      using R bqp.lock_inv_acquire [OF L, of m t "PutIn x"] bq_lock(1) [of t "bq_mutex ?q" m]
        takew.wake_inv_move [OF K awake, of t "PutIn x"] mem [of t]
      by (simp add: bq_inv_def bq_goto_def out)
  next
    case (bq_put_push t x)
    then show ?thesis
      using R bqp.lock_inv_stay [OF L, of t PutPushed] takew.wake_inv_gain [OF K awake, of t PutPushed] mem [of t]
      by (simp add: bq_inv_def bq_goto_def alone)
  next
    case (bq_put_notify t pick)
    then show ?thesis
      using R bqp.lock_inv_stay [OF L, of t Leave] takew.wake_inv_notify [OF K awake, of t Leave pick]
      by (simp add: bq_inv_def bq_goto_def out)
  next
    case (bq_take_call t)
    then show ?thesis
      using R bqp.lock_inv_stay [OF L, of t TakeWant] takew.wake_inv_move [OF K awake, of t TakeWant] mem [of t]
      by (simp add: bq_inv_def bq_goto_def out)
  next
    case (bq_take_lock t m)
    then show ?thesis
      using R bqp.lock_inv_acquire [OF L, of m t TakeTest] bq_lock(1) [of t "bq_mutex ?q" m]
        takew.wake_inv_move [OF K awake, of t TakeTest]
      by (simp add: bq_inv_def bq_goto_def out)
  next
    case (bq_take_wait t m c)
    note w = cond_wait_begin_ok [OF bq_take_wait(4)]
    have "takew.wake_inv ((bq_pc s)(t := TakeWait)) c 0"
      using w awake [of t] bq_take_wait(2) K
      by (intro takew.wake_inv_none [OF K]) (auto simp: takew.wake_inv_def)
    then show ?thesis
      using R bqp.lock_inv_release [OF L w [THEN conjunct1], of TakeWait] bq_take_wait(1,3) out [of TakeWait t]
      by (simp add: bq_inv_def bq_goto_def out)
  next
    case (bq_take_wait_bad t e)
    then show ?thesis using cond_wait_begin_owner [OF own, of t "bq_notEmpty ?q"] by auto
  next
    case (bq_spurious t)
    then show ?thesis using R L takew.wake_inv_remove(1) [OF K, of t] by (simp add: bq_inv_def)
  next
    case (bq_take_wake t m)
    note w = cond_wait_end_ok [OF bq_take_wake(3)]
    show ?thesis
      using R bqp.lock_inv_acquire [OF L w [THEN conjunct1], of TakeTest] bq_take_wake(1)
        takew.wake_inv_move [OF K w [THEN conjunct2], of TakeTest]
      by (simp add: bq_inv_def bq_goto_def out)
  next
    case (bq_take_ready t)
    then show ?thesis
      using R bqp.lock_inv_stay [OF L, of t TakeOut] takew.wake_inv_move [OF K awake, of t TakeOut]
      by (simp add: bq_inv_def bq_goto_def out)
  next
    case (bq_take_pop t x xs)
    then show ?thesis
      using R bqp.lock_inv_stay [OF L, of t Leave] alone [of t Leave]
        takew.wake_inv_lose [OF K awake, of t "length xs" Leave]
      by (simp add: bq_inv_def bq_goto_def)
  next
    case (bq_take_assert t)
    then have "at_out (bq_pc s t)" by simp
    then show ?thesis using R bq_take_assert(3) by (auto simp: when_at_def)
  next
    case (bq_drain_call t)
    then show ?thesis
      using R bqp.lock_inv_stay [OF L, of t DrainWant] takew.wake_inv_move [OF K awake, of t DrainWant] mem [of t]
      by (simp add: bq_inv_def bq_goto_def out)
  next
    case (bq_drain_lock t m)
    then show ?thesis
      using R bqp.lock_inv_acquire [OF L, of m t DrainHeld] bq_lock(1) [of t "bq_mutex ?q" m]
        takew.wake_inv_move [OF K awake, of t DrainHeld] mem [of t]
      by (simp add: bq_inv_def bq_goto_def out)
  next
    case (bq_drain_move t)
    have "takew.wake_inv ((bq_pc s)(t := Leave)) (bq_notEmpty ?q) 0"
      using K awake [of t] bq_drain_move(2)
      by (intro takew.wake_inv_none [OF K]) (auto simp: takew.wake_inv_def)
    then show ?thesis
      using R bqp.lock_inv_stay [OF L, of t Leave] alone [of t Leave] bq_drain_move
      by (simp add: bq_inv_def bq_goto_def)
  next
    case (bq_size_call t)
    then show ?thesis
      using R bqp.lock_inv_stay [OF L, of t ReadWant] takew.wake_inv_move [OF K awake, of t ReadWant] mem [of t]
      by (simp add: bq_inv_def bq_goto_def out)
  next
    case (bq_size_lock t m)
    then show ?thesis
      using R bqp.lock_inv_acquire [OF L, of m t Leave] bq_lock(1) [of t "bq_mutex ?q" m]
        takew.wake_inv_move [OF K awake, of t Leave] mem [of t]
      by (simp add: bq_inv_def bq_goto_def out)
  next
    case (bq_leave t m)
    then show ?thesis
      using R bqp.lock_inv_release [OF L, of m t BIdle] bq_lock(2) [of t "bq_mutex ?q" m]
        takew.wake_inv_move [OF K awake, of t BIdle] mem [of t]
      by (simp add: bq_inv_def bq_goto_def out)
  next
    case (bq_leave_bad t e)
    then show ?thesis using mutex_unlock_owner [OF own, of t] by auto
  qed
qed

interpretation blockq: invariant_system bq_init bq_step bq_inv
  by unfold_locales (auto intro: bq_inv_init bq_inv_step)

section \<open>Whole calls are runs of the interleaving\<close>

lemma bq_guarded_Some:
  "bq_guarded t body q = Some (Inr (v, q')) \<Longrightarrow>
    \<exists>m q1 m'. MutexLockGuard_new t (bq_mutex q) = Some m \<and> body (q\<lparr>bq_mutex := m\<rparr>) = Some (Inr (v, q1)) \<and>
      MutexLockGuard_dtor t (bq_mutex q1) = Inr m' \<and> q' = q1\<lparr>bq_mutex := m'\<rparr>"
  by (auto simp: bq_guarded_def bnd_eq_Inr split: option.splits)

lemma bq_put_runs:
  assumes idle: "bq_pc s t = BIdle" and run: "bq_put pick t x (bq_obj s) = Some (Inr ((), q'))"
  shows "bq_step\<^sup>*\<^sup>* s (s\<lparr>bq_obj := q', bq_in := bq_in s @ [x]\<rparr>)"
proof -
  let ?q = "bq_obj s"
  obtain m m' where m: "MutexLockGuard_new t (bq_mutex ?q) = Some m" "MutexLockGuard_dtor t m = Inr m'"
    and q': "q' = ?q\<lparr>bq_mutex := m', bq_queue := bq_queue ?q @ [x], bq_notEmpty := cond_notify pick (bq_notEmpty ?q)\<rparr>"
    using bq_guarded_Some [OF run [unfolded bq_put_def]] by auto
  define s1 where "s1 = bq_goto t (PutWant x) ?q s"
  define s2 where "s2 = bq_goto t (PutIn x) ((bq_obj s1)\<lparr>bq_mutex := m\<rparr>) s1"
  define s3 where "s3 = bq_goto t PutPushed ((bq_obj s2)\<lparr>bq_queue := bq_queue (bq_obj s2) @ [x]\<rparr>) (s2\<lparr>bq_in := bq_in s2 @ [x]\<rparr>)"
  define s4 where "s4 = bq_goto t Leave ((bq_obj s3)\<lparr>bq_notEmpty := cond_notify pick (bq_notEmpty (bq_obj s3))\<rparr>) s3"
  note states = s4_def s3_def s2_def s1_def bq_goto_def
  have "bq_step\<^sup>*\<^sup>* s s1" unfolding s1_def by (rule r_into_rtranclp, rule bq_put_call [OF idle])
  also have "bq_step\<^sup>*\<^sup>* s1 s2" unfolding s2_def by (rule r_into_rtranclp, rule bq_put_lock) (simp_all add: m s1_def bq_goto_def)
  also have "bq_step\<^sup>*\<^sup>* s2 s3" unfolding s3_def by (rule r_into_rtranclp, rule bq_put_push) (simp add: s2_def bq_goto_def)
  also have "bq_step\<^sup>*\<^sup>* s3 s4" unfolding s4_def by (rule r_into_rtranclp, rule bq_put_notify) (simp add: s3_def bq_goto_def)
  also have "bq_step\<^sup>*\<^sup>* s4 (bq_goto t BIdle ((bq_obj s4)\<lparr>bq_mutex := m'\<rparr>) s4)"
    by (rule r_into_rtranclp, rule bq_leave) (simp_all add: states m)
  also have "bq_goto t BIdle ((bq_obj s4)\<lparr>bq_mutex := m'\<rparr>) s4 = s\<lparr>bq_obj := q', bq_in := bq_in s @ [x]\<rparr>"
    using idle by (simp add: states q' fun_upd_idem)
  finally show ?thesis .
qed

lemma bq_take_runs:
  assumes idle: "bq_pc s t = BIdle" and run: "bq_take t (bq_obj s) = Some (Inr (x, q'))"
  shows "bq_step\<^sup>*\<^sup>* s (s\<lparr>bq_obj := q', bq_out := bq_out s @ [x]\<rparr>)"
proof -
  let ?q = "bq_obj s"
  obtain m m' xs where m: "MutexLockGuard_new t (bq_mutex ?q) = Some m" "MutexLockGuard_dtor t m = Inr m'"
    and q: "bq_queue ?q = x # xs" and q': "q' = ?q\<lparr>bq_mutex := m', bq_queue := xs\<rparr>"
    using bq_guarded_Some [OF run [unfolded bq_take_def]] by (cases "bq_queue ?q") auto
  define s1 where "s1 = bq_goto t TakeWant ?q s"
  define s2 where "s2 = bq_goto t TakeTest ((bq_obj s1)\<lparr>bq_mutex := m\<rparr>) s1"
  define s3 where "s3 = bq_goto t TakeOut (bq_obj s2) s2"
  define s4 where "s4 = bq_goto t Leave ((bq_obj s3)\<lparr>bq_queue := xs\<rparr>) (s3\<lparr>bq_out := bq_out s3 @ [x]\<rparr>)"
  note states = s4_def s3_def s2_def s1_def bq_goto_def
  have "bq_step\<^sup>*\<^sup>* s s1" unfolding s1_def by (rule r_into_rtranclp, rule bq_take_call [OF idle])
  also have "bq_step\<^sup>*\<^sup>* s1 s2" unfolding s2_def by (rule r_into_rtranclp, rule bq_take_lock) (simp_all add: m s1_def bq_goto_def)
  also have "bq_step\<^sup>*\<^sup>* s2 s3" unfolding s3_def by (rule r_into_rtranclp, rule bq_take_ready) (simp_all add: s2_def s1_def bq_goto_def q)
  also have "bq_step\<^sup>*\<^sup>* s3 s4" unfolding s4_def by (rule r_into_rtranclp, rule bq_take_pop) (simp_all add: s3_def s2_def s1_def bq_goto_def q)
  also have "bq_step\<^sup>*\<^sup>* s4 (bq_goto t BIdle ((bq_obj s4)\<lparr>bq_mutex := m'\<rparr>) s4)"
    by (rule r_into_rtranclp, rule bq_leave) (simp_all add: states m)
  also have "bq_goto t BIdle ((bq_obj s4)\<lparr>bq_mutex := m'\<rparr>) s4 = s\<lparr>bq_obj := q', bq_out := bq_out s @ [x]\<rparr>"
    using idle by (simp add: states q' fun_upd_idem)
  finally show ?thesis .
qed

section \<open>An atomic queue\<close>

fun b_phase :: "'a bpc \<Rightarrow> 'a qphase" where
  "b_phase BIdle = Outside"
| "b_phase (PutWant x) = Calling (OpPut x)"
| "b_phase (PutTest x) = Calling (OpPut x)"
| "b_phase (PutWait x) = Calling (OpPut x)"
| "b_phase (PutIn x) = Calling (OpPut x)"
| "b_phase TakeWant = Calling OpTake"
| "b_phase TakeTest = Calling OpTake"
| "b_phase TakeWait = Calling OpTake"
| "b_phase TakeOut = Calling OpTake"
| "b_phase DrainWant = Calling OpDrain"
| "b_phase DrainHeld = Calling OpDrain"
| "b_phase ReadWant = Calling OpRead"
| "b_phase PutPushed = Returning"
| "b_phase TakePopped = Returning"
| "b_phase Leave = Returning"

definition bq_abs :: "'a bq_sys \<Rightarrow> 'a aq_sys" where
  "bq_abs s = aq_of b_phase (bq_pc s) (bq_queue (bq_obj s)) (bq_in s) (bq_out s)"

lemma bq_abs_goto:
  "bq_abs (bq_goto t p q s) = aq_of b_phase ((bq_pc s)(t := p)) (bq_queue q) (bq_in s) (bq_out s)"
  by (simp add: bq_abs_def bq_goto_def)

lemma bq_abs_step:
  assumes "bq_inv s" "bq_step s s'"
  shows "bq_abs s' = bq_abs s \<or> aq_step None (bq_abs s) (bq_abs s')"
  using assms(2)
proof cases
  case (bq_put_push t x)
  then show ?thesis
    using aq_of_act [of b_phase "bq_pc s" t "OpPut x" PutPushed None "bq_queue (bq_obj s)" "bq_queue (bq_obj s) @ [x]" "[x]" "[]"]
    by (simp add: bq_abs_goto) (simp add: bq_abs_def)
next
  case (bq_take_pop t x xs)
  then show ?thesis
    using aq_of_act [of b_phase "bq_pc s" t OpTake Leave None "bq_queue (bq_obj s)" xs "[]" "[x]"]
    by (simp add: bq_abs_goto) (simp add: bq_abs_def)
next
  case (bq_drain_move t)
  then show ?thesis
    using aq_of_act [of b_phase "bq_pc s" t OpDrain Leave None "bq_queue (bq_obj s)" "[]" "[]" "bq_queue (bq_obj s)"]
    by (simp add: bq_abs_goto) (simp add: bq_abs_def)
next
  case (bq_size_lock t m)
  then show ?thesis
    using aq_of_act [of b_phase "bq_pc s" t OpRead Leave None "bq_queue (bq_obj s)" "bq_queue (bq_obj s)" "[]" "[]"]
    by (simp add: bq_abs_goto) (simp add: bq_abs_def)
qed (simp_all add: bq_abs_goto, simp_all add: bq_abs_def aq_of_stay aq_of_call aq_of_return)

interpretation blockatomic: simulation bq_init bq_step bq_inv aq_init "aq_step None" bq_abs
proof
  show "bq_init s \<Longrightarrow> aq_init (bq_abs s)" for s
    by (auto simp: bq_init_def bq_abs_def BlockingQueue_new_def intro: aq_of_init)
qed (rule bq_abs_step)

end
