(* ===== verification/Bounded_Queue.thy ===== *)
theory Bounded_Queue
  imports Blocking_Queue
begin

text \<open>
  \<^verbatim>\<open>muduo/base/BoundedBlockingQueue.h\<close>, as whole calls and as an interleaving of threads, like
  \<open>Blocking_Queue\<close>. The container \<^verbatim>\<open>boost::circular_buffer\<close> is not part of the sources: its
  functions are the fields of \<open>circ_lib\<close>, and \<open>circ_laws\<close> is what its documentation says about
  them, with \<open>els\<close> the elements of a container in order. The invariant adds to that of the
  unbounded queue that the capacity is kept and that waiting putters are woken too.
\<close>

section \<open>The container\<close>

record ('a, 'b) circ_lib =
  circ_new :: "int \<Rightarrow> 'b"
  circ_full :: "'b \<Rightarrow> bool"
  circ_empty :: "'b \<Rightarrow> bool"
  circ_push_back :: "'a \<Rightarrow> 'b \<Rightarrow> 'b"
  circ_front :: "'b \<Rightarrow> 'a"
  circ_pop_front :: "'b \<Rightarrow> 'b"
  circ_size :: "'b \<Rightarrow> nat"
  circ_capacity :: "'b \<Rightarrow> nat"

definition circ_laws :: "('a, 'b) circ_lib \<Rightarrow> ('b \<Rightarrow> 'a list) \<Rightarrow> bool" where
  "circ_laws C els \<longleftrightarrow>
     (\<forall>n \<ge> 0. els (circ_new C n) = [] \<and> circ_capacity C (circ_new C n) = nat n) \<and>
     (\<forall>b. circ_size C b = length (els b)) \<and>
     (\<forall>b. circ_full C b \<longleftrightarrow> length (els b) = circ_capacity C b) \<and>
     (\<forall>b. circ_empty C b \<longleftrightarrow> els b = []) \<and>
     (\<forall>b x. \<not> circ_full C b \<longrightarrow>
        els (circ_push_back C x b) = els b @ [x] \<and> circ_capacity C (circ_push_back C x b) = circ_capacity C b) \<and>
     (\<forall>b. els b \<noteq> [] \<longrightarrow> circ_front C b = hd (els b) \<and> els (circ_pop_front C b) = tl (els b) \<and>
        circ_capacity C (circ_pop_front C b) = circ_capacity C b)"

section \<open>BoundedBlockingQueue\<close>

record 'b BoundedBlockingQueue =
  bb_mutex :: MutexLock
  bb_notEmpty :: Condition
  bb_notFull :: Condition
  bb_queue :: 'b

definition BoundedBlockingQueue_new :: "('a, 'b) circ_lib \<Rightarrow> int \<Rightarrow> 'b BoundedBlockingQueue" where
  "BoundedBlockingQueue_new C maxSize =
     \<lparr>bb_mutex = MutexLock_new, bb_notEmpty = Condition_new, bb_notFull = Condition_new, bb_queue = circ_new C maxSize\<rparr>"

definition bb_guarded :: "int \<Rightarrow> ('b BoundedBlockingQueue \<Rightarrow> ('r \<times> 'b BoundedBlockingQueue) result option) \<Rightarrow>
    'b BoundedBlockingQueue \<Rightarrow> ('r \<times> 'b BoundedBlockingQueue) result option" where
  "bb_guarded t body q =
     (case MutexLockGuard_new t (bb_mutex q) of
        None \<Rightarrow> None
      | Some m \<Rightarrow>
          (case body (q\<lparr>bb_mutex := m\<rparr>) of
             None \<Rightarrow> None
           | Some r \<Rightarrow> Some (bnd r (\<lambda>(v, q1).
               bnd (MutexLockGuard_dtor t (bb_mutex q1)) (\<lambda>m'. Inr (v, q1\<lparr>bb_mutex := m'\<rparr>))))))"

definition bb_put :: "('a, 'b) circ_lib \<Rightarrow> (int list \<Rightarrow> int) \<Rightarrow> int \<Rightarrow> 'a \<Rightarrow> 'b BoundedBlockingQueue \<Rightarrow>
    (unit \<times> 'b BoundedBlockingQueue) result option" where
  "bb_put C pick t x = bb_guarded t (\<lambda>q.
     if circ_full C (bb_queue q) then None
     else Some (bnd (assert_c (\<not> circ_full C (bb_queue q))) (\<lambda>_.
       Inr ((), q\<lparr>bb_queue := circ_push_back C x (bb_queue q), bb_notEmpty := cond_notify pick (bb_notEmpty q)\<rparr>))))"

definition bb_take :: "('a, 'b) circ_lib \<Rightarrow> (int list \<Rightarrow> int) \<Rightarrow> int \<Rightarrow> 'b BoundedBlockingQueue \<Rightarrow>
    ('a \<times> 'b BoundedBlockingQueue) result option" where
  "bb_take C pick t = bb_guarded t (\<lambda>q.
     if circ_empty C (bb_queue q) then None
     else Some (bnd (assert_c (\<not> circ_empty C (bb_queue q))) (\<lambda>_.
       Inr (circ_front C (bb_queue q),
         q\<lparr>bb_queue := circ_pop_front C (bb_queue q), bb_notFull := cond_notify pick (bb_notFull q)\<rparr>))))"

definition bb_observe :: "('b \<Rightarrow> 'r) \<Rightarrow> int \<Rightarrow> 'b BoundedBlockingQueue \<Rightarrow> ('r \<times> 'b BoundedBlockingQueue) result option" where
  "bb_observe f t = bb_guarded t (\<lambda>q. Some (Inr (f (bb_queue q), q)))"

definition bb_empty :: "('a, 'b) circ_lib \<Rightarrow> int \<Rightarrow> 'b BoundedBlockingQueue \<Rightarrow> (bool \<times> 'b BoundedBlockingQueue) result option" where
  "bb_empty C = bb_observe (circ_empty C)"

definition bb_full :: "('a, 'b) circ_lib \<Rightarrow> int \<Rightarrow> 'b BoundedBlockingQueue \<Rightarrow> (bool \<times> 'b BoundedBlockingQueue) result option" where
  "bb_full C = bb_observe (circ_full C)"

definition bb_size :: "('a, 'b) circ_lib \<Rightarrow> int \<Rightarrow> 'b BoundedBlockingQueue \<Rightarrow> (nat \<times> 'b BoundedBlockingQueue) result option" where
  "bb_size C = bb_observe (circ_size C)"

definition bb_capacity :: "('a, 'b) circ_lib \<Rightarrow> int \<Rightarrow> 'b BoundedBlockingQueue \<Rightarrow> (nat \<times> 'b BoundedBlockingQueue) result option" where
  "bb_capacity C = bb_observe (circ_capacity C)"

section \<open>Threads\<close>

record ('a, 'b) bb_sys =
  bb_obj :: "'b BoundedBlockingQueue"
  bb_pc :: "int \<Rightarrow> 'a bpc"
  bb_in :: "'a list"
  bb_out :: "'a list"
  bb_fault :: bool

definition bb_init :: "('a, 'b) circ_lib \<Rightarrow> int \<Rightarrow> ('a, 'b) bb_sys \<Rightarrow> bool" where
  "bb_init C n s \<longleftrightarrow>
     s = \<lparr>bb_obj = BoundedBlockingQueue_new C n, bb_pc = (\<lambda>_. BIdle), bb_in = [], bb_out = [], bb_fault = False\<rparr>"

definition bb_goto :: "int \<Rightarrow> 'a bpc \<Rightarrow> 'b BoundedBlockingQueue \<Rightarrow> ('a, 'b) bb_sys \<Rightarrow> ('a, 'b) bb_sys" where
  "bb_goto t p q s = s\<lparr>bb_obj := q, bb_pc := (bb_pc s)(t := p)\<rparr>"

inductive bb_step :: "('a, 'b) circ_lib \<Rightarrow> ('a, 'b) bb_sys \<Rightarrow> ('a, 'b) bb_sys \<Rightarrow> bool" for C where
  bb_put_call: "bb_pc s t = BIdle \<Longrightarrow> bb_step C s (bb_goto t (PutWant x) (bb_obj s) s)"
| bb_put_lock: "bb_pc s t = PutWant x \<Longrightarrow> MutexLockGuard_new t (bb_mutex (bb_obj s)) = Some m \<Longrightarrow>
    bb_step C s (bb_goto t (PutTest x) ((bb_obj s)\<lparr>bb_mutex := m\<rparr>) s)"
| bb_put_wait: "bb_pc s t = PutTest x \<Longrightarrow> circ_full C (bb_queue (bb_obj s)) \<Longrightarrow>
    cond_wait_begin t (bb_mutex (bb_obj s)) (bb_notFull (bb_obj s)) = Inr (m, c) \<Longrightarrow>
    bb_step C s (bb_goto t (PutWait x) ((bb_obj s)\<lparr>bb_mutex := m, bb_notFull := c\<rparr>) s)"
| bb_put_wake: "bb_pc s t = PutWait x \<Longrightarrow>
    cond_wait_end t (bb_mutex (bb_obj s)) (bb_notFull (bb_obj s)) = Some m \<Longrightarrow>
    bb_step C s (bb_goto t (PutTest x) ((bb_obj s)\<lparr>bb_mutex := m\<rparr>) s)"
| bb_put_ready: "bb_pc s t = PutTest x \<Longrightarrow> \<not> circ_full C (bb_queue (bb_obj s)) \<Longrightarrow>
    bb_step C s (bb_goto t (PutIn x) (bb_obj s) s)"
| bb_put_push: "bb_pc s t = PutIn x \<Longrightarrow> \<not> circ_full C (bb_queue (bb_obj s)) \<Longrightarrow>
    bb_step C s (bb_goto t PutPushed ((bb_obj s)\<lparr>bb_queue := circ_push_back C x (bb_queue (bb_obj s))\<rparr>)
      (s\<lparr>bb_in := bb_in s @ [x]\<rparr>))"
| bb_put_assert: "bb_pc s t = PutIn x \<Longrightarrow> circ_full C (bb_queue (bb_obj s)) \<Longrightarrow> bb_step C s (s\<lparr>bb_fault := True\<rparr>)"
| bb_put_notify: "bb_pc s t = PutPushed \<Longrightarrow>
    bb_step C s (bb_goto t Leave ((bb_obj s)\<lparr>bb_notEmpty := cond_notify pick (bb_notEmpty (bb_obj s))\<rparr>) s)"
| bb_take_call: "bb_pc s t = BIdle \<Longrightarrow> bb_step C s (bb_goto t TakeWant (bb_obj s) s)"
| bb_take_lock: "bb_pc s t = TakeWant \<Longrightarrow> MutexLockGuard_new t (bb_mutex (bb_obj s)) = Some m \<Longrightarrow>
    bb_step C s (bb_goto t TakeTest ((bb_obj s)\<lparr>bb_mutex := m\<rparr>) s)"
| bb_take_wait: "bb_pc s t = TakeTest \<Longrightarrow> circ_empty C (bb_queue (bb_obj s)) \<Longrightarrow>
    cond_wait_begin t (bb_mutex (bb_obj s)) (bb_notEmpty (bb_obj s)) = Inr (m, c) \<Longrightarrow>
    bb_step C s (bb_goto t TakeWait ((bb_obj s)\<lparr>bb_mutex := m, bb_notEmpty := c\<rparr>) s)"
| bb_take_wake: "bb_pc s t = TakeWait \<Longrightarrow>
    cond_wait_end t (bb_mutex (bb_obj s)) (bb_notEmpty (bb_obj s)) = Some m \<Longrightarrow>
    bb_step C s (bb_goto t TakeTest ((bb_obj s)\<lparr>bb_mutex := m\<rparr>) s)"
| bb_take_ready: "bb_pc s t = TakeTest \<Longrightarrow> \<not> circ_empty C (bb_queue (bb_obj s)) \<Longrightarrow>
    bb_step C s (bb_goto t TakeOut (bb_obj s) s)"
| bb_take_pop: "bb_pc s t = TakeOut \<Longrightarrow> \<not> circ_empty C (bb_queue (bb_obj s)) \<Longrightarrow>
    bb_step C s (bb_goto t TakePopped ((bb_obj s)\<lparr>bb_queue := circ_pop_front C (bb_queue (bb_obj s))\<rparr>)
      (s\<lparr>bb_out := bb_out s @ [circ_front C (bb_queue (bb_obj s))]\<rparr>))"
| bb_take_assert: "bb_pc s t = TakeOut \<Longrightarrow> circ_empty C (bb_queue (bb_obj s)) \<Longrightarrow> bb_step C s (s\<lparr>bb_fault := True\<rparr>)"
| bb_take_notify: "bb_pc s t = TakePopped \<Longrightarrow>
    bb_step C s (bb_goto t Leave ((bb_obj s)\<lparr>bb_notFull := cond_notify pick (bb_notFull (bb_obj s))\<rparr>) s)"
| bb_wait_bad: "bb_pc s t = PutTest x \<and> c = bb_notFull (bb_obj s) \<or> bb_pc s t = TakeTest \<and> c = bb_notEmpty (bb_obj s) \<Longrightarrow>
    cond_wait_begin t (bb_mutex (bb_obj s)) c = Inl e \<Longrightarrow> bb_step C s (s\<lparr>bb_fault := True\<rparr>)"
| bb_spurious_take: "t \<in> set (cond_waiters (bb_notEmpty (bb_obj s))) \<Longrightarrow>
    bb_step C s (s\<lparr>bb_obj := (bb_obj s)\<lparr>bb_notEmpty :=
      (bb_notEmpty (bb_obj s))\<lparr>cond_waiters := remove1 t (cond_waiters (bb_notEmpty (bb_obj s)))\<rparr>\<rparr>\<rparr>)"
| bb_spurious_put: "t \<in> set (cond_waiters (bb_notFull (bb_obj s))) \<Longrightarrow>
    bb_step C s (s\<lparr>bb_obj := (bb_obj s)\<lparr>bb_notFull :=
      (bb_notFull (bb_obj s))\<lparr>cond_waiters := remove1 t (cond_waiters (bb_notFull (bb_obj s)))\<rparr>\<rparr>\<rparr>)"
| bb_read_call: "bb_pc s t = BIdle \<Longrightarrow> bb_step C s (bb_goto t ReadWant (bb_obj s) s)"
| bb_read_lock: "bb_pc s t = ReadWant \<Longrightarrow> MutexLockGuard_new t (bb_mutex (bb_obj s)) = Some m \<Longrightarrow>
    bb_step C s (bb_goto t Leave ((bb_obj s)\<lparr>bb_mutex := m\<rparr>) s)"
| bb_leave: "bb_pc s t = Leave \<Longrightarrow> MutexLockGuard_dtor t (bb_mutex (bb_obj s)) = Inr m \<Longrightarrow>
    bb_step C s (bb_goto t BIdle ((bb_obj s)\<lparr>bb_mutex := m\<rparr>) s)"
| bb_leave_bad: "bb_pc s t = Leave \<Longrightarrow> MutexLockGuard_dtor t (bb_mutex (bb_obj s)) = Inl e \<Longrightarrow>
    bb_step C s (s\<lparr>bb_fault := True\<rparr>)"

section \<open>The invariant\<close>

fun put_busy :: "'a bpc \<Rightarrow> bool" where
  "put_busy (PutWant x) = True"
| "put_busy (PutTest x) = True"
| "put_busy (PutIn x) = True"
| "put_busy TakePopped = True"
| "put_busy _ = False"

fun put_slp :: "'a bpc \<Rightarrow> bool" where
  "put_slp (PutWait x) = True"
| "put_slp _ = False"

fun at_in :: "'a bpc \<Rightarrow> bool" where
  "at_in (PutIn x) = True"
| "at_in _ = False"

lemma at_in_holds: "at_in p \<Longrightarrow> b_holds p"
  by (cases p) simp_all

interpretation putw: wait_class b_holds BIdle put_busy put_slp
proof
  fix p :: "'a bpc"
  show "put_busy p \<Longrightarrow> \<not> put_slp p" by (cases p) simp_all
  show "put_slp p \<Longrightarrow> \<not> b_holds p" by (cases p) simp_all
qed simp_all

definition bb_inv :: "('a, 'b) circ_lib \<Rightarrow> ('b \<Rightarrow> 'a list) \<Rightarrow> nat \<Rightarrow> ('a, 'b) bb_sys \<Rightarrow> bool" where
  "bb_inv C els n s \<longleftrightarrow> (let q = bb_obj s; xs = els (bb_queue q) in
     bqp.lock_inv (bb_pc s) (bb_mutex q) \<and>
     takew.wake_inv (bb_pc s) (bb_notEmpty q) (length xs) \<and>
     putw.wake_inv (bb_pc s) (bb_notFull q) (n - length xs) \<and>
     circ_capacity C (bb_queue q) = n \<and> length xs \<le> n \<and> bb_in s = bb_out s @ xs \<and>
     when_at at_out (bb_pc s) (xs \<noteq> []) \<and> when_at at_in (bb_pc s) (length xs < n) \<and> \<not> bb_fault s)"

lemma bb_inv_init: "circ_laws C els \<Longrightarrow> 0 \<le> n \<Longrightarrow> bb_init C n s \<Longrightarrow> bb_inv C els (nat n) s"
  by (simp add: bb_init_def bb_inv_def BoundedBlockingQueue_new_def Condition_new_def bqp.lock_inv_def takew.wake_inv_def
      takew.wakers_def putw.wake_inv_def putw.wakers_def MutexLock_new_def mutex_ok_def when_at_def circ_laws_def)

text \<open>Steps that keep the queue.\<close>

lemma bb_inv_goto:
  assumes "bb_inv C els n s" "bqp.lock_inv ((bb_pc s)(t := p)) (bb_mutex q)"
    "takew.wake_inv ((bb_pc s)(t := p)) (bb_notEmpty q) (length (els (bb_queue (bb_obj s))))"
    "putw.wake_inv ((bb_pc s)(t := p)) (bb_notFull q) (n - length (els (bb_queue (bb_obj s))))"
    "bb_queue q = bb_queue (bb_obj s)" "at_out p \<longrightarrow> els (bb_queue (bb_obj s)) \<noteq> []"
    "at_in p \<longrightarrow> length (els (bb_queue (bb_obj s))) < n"
  shows "bb_inv C els n (bb_goto t p q s)"
proof -
  have "when_at at_out ((bb_pc s)(t := p)) (els (bb_queue (bb_obj s)) \<noteq> [])"
    "when_at at_in ((bb_pc s)(t := p)) (length (els (bb_queue (bb_obj s))) < n)"
    using assms(1,6,7) by (auto simp: bb_inv_def Let_def intro: when_at_upd)
  then show ?thesis using assms by (simp add: bb_inv_def bb_goto_def Let_def)
qed

text \<open>Moves of a thread that is awake, with what it may leave behind.\<close>

lemma bb_moves:
  assumes "bb_inv C els n s" "\<not> take_slp (bb_pc s t)" "\<not> put_slp (bb_pc s t)"
    "take_busy (bb_pc s t) \<longrightarrow> take_busy p" "put_busy (bb_pc s t) \<longrightarrow> put_busy p"
  shows "takew.wake_inv ((bb_pc s)(t := p)) (bb_notEmpty (bb_obj s)) (length (els (bb_queue (bb_obj s)))) \<and>
    putw.wake_inv ((bb_pc s)(t := p)) (bb_notFull (bb_obj s)) (n - length (els (bb_queue (bb_obj s))))"
proof -
  note K = assms(1) [unfolded bb_inv_def Let_def]
  have T: "takew.wake_inv (bb_pc s) (bb_notEmpty (bb_obj s)) (length (els (bb_queue (bb_obj s))))"
    and P: "putw.wake_inv (bb_pc s) (bb_notFull (bb_obj s)) (n - length (els (bb_queue (bb_obj s))))"
    using K by blast+
  have "t \<in> takew.wakers (bb_pc s) (bb_notEmpty (bb_obj s)) \<longrightarrow> take_busy p \<or> take_slp p"
    "t \<in> putw.wakers (bb_pc s) (bb_notFull (bb_obj s)) \<longrightarrow> put_busy p \<or> put_slp p"
    using assms(2-5) by (auto simp: takew.wakers_def putw.wakers_def)
  then show ?thesis
    using takew.wake_inv_move [OF T takew.wake_inv_awake [OF T assms(2)]]
      putw.wake_inv_move [OF P putw.wake_inv_awake [OF P assms(3)]] by blast
qed

lemma bb_inv_parts:
  assumes "bb_inv C els n s"
  shows "bqp.lock_inv (bb_pc s) (bb_mutex (bb_obj s))"
    "takew.wake_inv (bb_pc s) (bb_notEmpty (bb_obj s)) (length (els (bb_queue (bb_obj s))))"
    "putw.wake_inv (bb_pc s) (bb_notFull (bb_obj s)) (n - length (els (bb_queue (bb_obj s))))"
    "circ_capacity C (bb_queue (bb_obj s)) = n" "length (els (bb_queue (bb_obj s))) \<le> n"
    "bb_in s = bb_out s @ els (bb_queue (bb_obj s))" "\<not> bb_fault s"
    "bb_pc s t = TakeOut \<Longrightarrow> els (bb_queue (bb_obj s)) \<noteq> []"
    "bb_pc s t = PutIn x \<Longrightarrow> length (els (bb_queue (bb_obj s))) < n"
  using assms at_out.simps(1) at_in.simps(1) unfolding bb_inv_def Let_def when_at_def by metis+

text \<open>A step that stays on its side of the lock, takes it, or releases it.\<close>

lemma bb_inv_stay:
  assumes "bb_inv C els n s" "\<not> take_slp (bb_pc s t)" "\<not> put_slp (bb_pc s t)" "b_holds (bb_pc s t) = b_holds p"
    "take_busy (bb_pc s t) \<longrightarrow> take_busy p" "put_busy (bb_pc s t) \<longrightarrow> put_busy p"
    "at_out p \<longrightarrow> els (bb_queue (bb_obj s)) \<noteq> []" "at_in p \<longrightarrow> length (els (bb_queue (bb_obj s))) < n"
  shows "bb_inv C els n (bb_goto t p (bb_obj s) s)"
  using bb_moves [OF assms(1-3) assms(5,6)] bqp.lock_inv_stay [OF bb_inv_parts(1) [OF assms(1)] assms(4)] assms(7,8)
  by (intro bb_inv_goto [OF assms(1)]) simp_all

lemma bb_inv_lock:
  assumes "bb_inv C els n s" "\<not> take_slp (bb_pc s t)" "\<not> put_slp (bb_pc s t)" "b_holds p"
    "take_busy (bb_pc s t) \<longrightarrow> take_busy p" "put_busy (bb_pc s t) \<longrightarrow> put_busy p" "\<not> at_out p" "\<not> at_in p"
    "MutexLockGuard_new t (bb_mutex (bb_obj s)) = Some m"
  shows "bb_inv C els n (bb_goto t p ((bb_obj s)\<lparr>bb_mutex := m\<rparr>) s)"
  using bb_moves [OF assms(1-3) assms(5,6)] bqp.lock_inv_acquire [OF bb_inv_parts(1) [OF assms(1)] bq_lock(1) [OF assms(9)] assms(4)]
    assms(7,8)
  by (intro bb_inv_goto [OF assms(1)]) simp_all

lemma bb_inv_leave:
  assumes "bb_inv C els n s" "bb_pc s t = Leave" "MutexLockGuard_dtor t (bb_mutex (bb_obj s)) = Inr m"
  shows "bb_inv C els n (bb_goto t BIdle ((bb_obj s)\<lparr>bb_mutex := m\<rparr>) s)"
  using bb_moves [OF assms(1), of t BIdle] bqp.lock_inv_release [OF bb_inv_parts(1) [OF assms(1)] bq_lock(2) [OF assms(3)], of BIdle]
    assms(2)
  by (intro bb_inv_goto [OF assms(1)]) simp_all

text \<open>Going to sleep: the condition the thread waits for does not hold.\<close>

lemma bb_inv_wait_put:
  assumes inv: "bb_inv C els n s" and pc: "bb_pc s t = PutTest x" and full: "n \<le> length (els (bb_queue (bb_obj s)))"
    and wait: "cond_wait_begin t (bb_mutex (bb_obj s)) (bb_notFull (bb_obj s)) = Inr (m, c)"
  shows "bb_inv C els n (bb_goto t (PutWait x) ((bb_obj s)\<lparr>bb_mutex := m, bb_notFull := c\<rparr>) s)"
proof -
  note P = bb_inv_parts(3) [OF inv] and T = bb_inv_parts(2) [OF inv] and w = cond_wait_begin_ok [OF wait]
  have awake: "t \<notin> set (cond_waiters (bb_notFull (bb_obj s)))" "t \<notin> set (cond_waiters (bb_notEmpty (bb_obj s)))"
    by (rule putw.wake_inv_awake [OF P], simp add: pc) (rule takew.wake_inv_awake [OF T], simp add: pc)
  have "putw.wake_inv ((bb_pc s)(t := PutWait x)) c 0"
    using w awake P by (intro putw.wake_inv_none [OF P]) (auto simp: putw.wake_inv_def)
  moreover have "takew.wake_inv ((bb_pc s)(t := PutWait x)) (bb_notEmpty (bb_obj s)) (length (els (bb_queue (bb_obj s))))"
    using awake pc by (intro takew.wake_inv_move [OF T]) (simp_all add: takew.wakers_def)
  moreover have "bqp.lock_inv ((bb_pc s)(t := PutWait x)) m"
    by (rule bqp.lock_inv_release [OF bb_inv_parts(1) [OF inv] w [THEN conjunct1]]) simp
  ultimately show ?thesis using full by (intro bb_inv_goto [OF inv]) simp_all
qed

lemma bb_inv_wait_take:
  assumes inv: "bb_inv C els n s" and pc: "bb_pc s t = TakeTest" and empty: "els (bb_queue (bb_obj s)) = []"
    and wait: "cond_wait_begin t (bb_mutex (bb_obj s)) (bb_notEmpty (bb_obj s)) = Inr (m, c)"
  shows "bb_inv C els n (bb_goto t TakeWait ((bb_obj s)\<lparr>bb_mutex := m, bb_notEmpty := c\<rparr>) s)"
proof -
  note P = bb_inv_parts(3) [OF inv] and T = bb_inv_parts(2) [OF inv] and w = cond_wait_begin_ok [OF wait]
  have awake: "t \<notin> set (cond_waiters (bb_notFull (bb_obj s)))" "t \<notin> set (cond_waiters (bb_notEmpty (bb_obj s)))"
    by (rule putw.wake_inv_awake [OF P], simp add: pc) (rule takew.wake_inv_awake [OF T], simp add: pc)
  have "takew.wake_inv ((bb_pc s)(t := TakeWait)) c 0"
    using w awake T by (intro takew.wake_inv_none [OF T]) (auto simp: takew.wake_inv_def)
  moreover have "putw.wake_inv ((bb_pc s)(t := TakeWait)) (bb_notFull (bb_obj s)) (n - length (els (bb_queue (bb_obj s))))"
    using awake pc by (intro putw.wake_inv_move [OF P]) (simp_all add: putw.wakers_def)
  moreover have "bqp.lock_inv ((bb_pc s)(t := TakeWait)) m"
    by (rule bqp.lock_inv_release [OF bb_inv_parts(1) [OF inv] w [THEN conjunct1]]) simp
  ultimately show ?thesis using empty by (intro bb_inv_goto [OF inv]) simp_all
qed

text \<open>Waking up with the lock.\<close>

lemma bb_inv_wake:
  assumes inv: "bb_inv C els n s"
    and wake: "bb_pc s t = PutWait x \<and> p = PutTest x \<and> c = bb_notFull (bb_obj s) \<or>
      bb_pc s t = TakeWait \<and> p = TakeTest \<and> c = bb_notEmpty (bb_obj s)"
    and m: "cond_wait_end t (bb_mutex (bb_obj s)) c = Some m"
  shows "bb_inv C els n (bb_goto t p ((bb_obj s)\<lparr>bb_mutex := m\<rparr>) s)"
proof -
  note P = bb_inv_parts(3) [OF inv] and T = bb_inv_parts(2) [OF inv] and w = cond_wait_end_ok [OF m]
  have awake: "t \<notin> set (cond_waiters (bb_notFull (bb_obj s)))" "t \<notin> set (cond_waiters (bb_notEmpty (bb_obj s)))"
    using wake w putw.wake_inv_awake [OF P, of t] takew.wake_inv_awake [OF T, of t] by auto
  have "bqp.lock_inv ((bb_pc s)(t := p)) m"
    using wake by (intro bqp.lock_inv_acquire [OF bb_inv_parts(1) [OF inv] w [THEN conjunct1]]) auto
  moreover have "takew.wake_inv ((bb_pc s)(t := p)) (bb_notEmpty (bb_obj s)) (length (els (bb_queue (bb_obj s))))"
    using awake wake by (intro takew.wake_inv_move [OF T]) (auto simp: takew.wakers_def)
  moreover have "putw.wake_inv ((bb_pc s)(t := p)) (bb_notFull (bb_obj s)) (n - length (els (bb_queue (bb_obj s))))"
    using awake wake by (intro putw.wake_inv_move [OF P]) (auto simp: putw.wakers_def)
  ultimately show ?thesis using wake by (intro bb_inv_goto [OF inv]) auto
qed

text \<open>The queue operations: one unit moves from one side to the other.\<close>

lemma bb_inv_push:
  assumes laws: "circ_laws C els" and inv: "bb_inv C els n s" and pc: "bb_pc s t = PutIn x"
    and room: "\<not> circ_full C (bb_queue (bb_obj s))"
  shows "bb_inv C els n (bb_goto t PutPushed ((bb_obj s)\<lparr>bb_queue := circ_push_back C x (bb_queue (bb_obj s))\<rparr>)
    (s\<lparr>bb_in := bb_in s @ [x]\<rparr>))"
proof -
  note L = bb_inv_parts(1) [OF inv] and T = bb_inv_parts(2) [OF inv] and P = bb_inv_parts(3) [OF inv]
  let ?xs = "els (bb_queue (bb_obj s))"
  have push: "els (circ_push_back C x (bb_queue (bb_obj s))) = ?xs @ [x]"
    "circ_capacity C (circ_push_back C x (bb_queue (bb_obj s))) = n"
    using laws room bb_inv_parts(4) [OF inv] by (simp_all add: circ_laws_def)
  have lt: "length ?xs < n" by (rule bb_inv_parts(9) [OF inv pc])
  have "takew.wake_inv ((bb_pc s)(t := PutPushed)) (bb_notEmpty (bb_obj s)) (Suc (length ?xs))"
    using pc takew.wake_inv_awake [OF T, of t] by (intro takew.wake_inv_gain [OF T]) (simp_all add: takew.wakers_def)
  moreover have "putw.wake_inv ((bb_pc s)(t := PutPushed)) (bb_notFull (bb_obj s)) (n - Suc (length ?xs))"
    using pc lt putw.wake_inv_awake [OF P, of t] by (intro putw.wake_inv_lose [OF P]) simp_all
  moreover have "bqp.lock_inv ((bb_pc s)(t := PutPushed)) (bb_mutex (bb_obj s))" using pc by (intro bqp.lock_inv_stay [OF L]) simp
  moreover have "when_at at_in ((bb_pc s)(t := PutPushed)) (Suc (length ?xs) < n)"
    using pc at_in_holds by (intro bqp.when_at_alone [OF L]) simp_all
  ultimately show ?thesis using lt push bb_inv_parts(6,7) [OF inv] by (simp add: bb_inv_def bb_goto_def Let_def)
qed

lemma bb_inv_pop:
  assumes laws: "circ_laws C els" and inv: "bb_inv C els n s" and pc: "bb_pc s t = TakeOut"
  shows "bb_inv C els n (bb_goto t TakePopped ((bb_obj s)\<lparr>bb_queue := circ_pop_front C (bb_queue (bb_obj s))\<rparr>)
    (s\<lparr>bb_out := bb_out s @ [circ_front C (bb_queue (bb_obj s))]\<rparr>))"
proof -
  note L = bb_inv_parts(1) [OF inv] and T = bb_inv_parts(2) [OF inv] and P = bb_inv_parts(3) [OF inv]
  obtain y ys where xs: "els (bb_queue (bb_obj s)) = y # ys"
    using bb_inv_parts(8) [OF inv pc] by (cases "els (bb_queue (bb_obj s))") auto
  have pop: "els (circ_pop_front C (bb_queue (bb_obj s))) = ys" "circ_front C (bb_queue (bb_obj s)) = y"
    "circ_capacity C (circ_pop_front C (bb_queue (bb_obj s))) = n"
    using laws xs bb_inv_parts(4) [OF inv] by (simp_all add: circ_laws_def)
  have le: "Suc (length ys) \<le> n" using bb_inv_parts(5) [OF inv] xs by simp
  have "takew.wake_inv ((bb_pc s)(t := TakePopped)) (bb_notEmpty (bb_obj s)) (length ys)"
    using pc takew.wake_inv_awake [OF T, of t] xs by (intro takew.wake_inv_lose [OF T]) simp_all
  moreover have "putw.wake_inv ((bb_pc s)(t := TakePopped)) (bb_notFull (bb_obj s)) (Suc (n - Suc (length ys)))"
    using pc putw.wake_inv_awake [OF P, of t] P xs
    by (intro putw.wake_inv_gain) (simp_all add: putw.wakers_def)
  moreover have "Suc (n - Suc (length ys)) = n - length ys" using le by simp
  moreover have "bqp.lock_inv ((bb_pc s)(t := TakePopped)) (bb_mutex (bb_obj s))" using pc by (intro bqp.lock_inv_stay [OF L]) simp
  moreover have "when_at at_out ((bb_pc s)(t := TakePopped)) (ys \<noteq> [])" "when_at at_in ((bb_pc s)(t := TakePopped)) (length ys < n)"
    using pc at_out_holds at_in_holds by (auto intro!: bqp.when_at_alone [OF L])
  ultimately show ?thesis using le pop xs bb_inv_parts(6,7) [OF inv] by (simp add: bb_inv_def bb_goto_def Let_def)
qed

lemma bb_inv_notify:
  assumes inv: "bb_inv C els n s"
  shows "bb_pc s t = PutPushed \<Longrightarrow>
      bb_inv C els n (bb_goto t Leave ((bb_obj s)\<lparr>bb_notEmpty := cond_notify pick (bb_notEmpty (bb_obj s))\<rparr>) s)"
    and "bb_pc s t = TakePopped \<Longrightarrow>
      bb_inv C els n (bb_goto t Leave ((bb_obj s)\<lparr>bb_notFull := cond_notify pick (bb_notFull (bb_obj s))\<rparr>) s)"
proof -
  note L = bb_inv_parts(1) [OF inv] and T = bb_inv_parts(2) [OF inv] and P = bb_inv_parts(3) [OF inv]
  show "bb_inv C els n (bb_goto t Leave ((bb_obj s)\<lparr>bb_notEmpty := cond_notify pick (bb_notEmpty (bb_obj s))\<rparr>) s)"
    if pc: "bb_pc s t = PutPushed"
    using takew.wake_inv_notify [OF T, of t Leave pick] takew.wake_inv_awake [OF T, of t]
      putw.wake_inv_move [OF P, of t Leave] putw.wake_inv_awake [OF P, of t] bqp.lock_inv_stay [OF L, of t Leave] pc
    by (intro bb_inv_goto [OF inv]) (simp_all add: putw.wakers_def)
  show "bb_inv C els n (bb_goto t Leave ((bb_obj s)\<lparr>bb_notFull := cond_notify pick (bb_notFull (bb_obj s))\<rparr>) s)"
    if pc: "bb_pc s t = TakePopped"
    using putw.wake_inv_notify [OF P, of t Leave pick] putw.wake_inv_awake [OF P, of t]
      takew.wake_inv_move [OF T, of t Leave] takew.wake_inv_awake [OF T, of t] bqp.lock_inv_stay [OF L, of t Leave] pc
    by (intro bb_inv_goto [OF inv]) (simp_all add: takew.wakers_def)
qed

lemma bb_inv_spurious:
  assumes inv: "bb_inv C els n s"
  shows "t \<in> set (cond_waiters (bb_notEmpty (bb_obj s))) \<Longrightarrow> bb_inv C els n (s\<lparr>bb_obj := (bb_obj s)\<lparr>bb_notEmpty :=
      (bb_notEmpty (bb_obj s))\<lparr>cond_waiters := remove1 t (cond_waiters (bb_notEmpty (bb_obj s)))\<rparr>\<rparr>\<rparr>)"
    and "t \<in> set (cond_waiters (bb_notFull (bb_obj s))) \<Longrightarrow> bb_inv C els n (s\<lparr>bb_obj := (bb_obj s)\<lparr>bb_notFull :=
      (bb_notFull (bb_obj s))\<lparr>cond_waiters := remove1 t (cond_waiters (bb_notFull (bb_obj s)))\<rparr>\<rparr>\<rparr>)"
  using inv takew.wake_inv_remove(1) [OF bb_inv_parts(2) [OF inv], of t]
    putw.wake_inv_remove(1) [OF bb_inv_parts(3) [OF inv], of t]
  by (simp_all add: bb_inv_def Let_def)

lemma bb_inv_step:
  assumes laws: "circ_laws C els" and inv: "bb_inv C els n s" and step: "bb_step C s s'"
  shows "bb_inv C els n s'"
proof -
  let ?xs = "els (bb_queue (bb_obj s))"
  have full: "circ_full C (bb_queue (bb_obj s)) \<longleftrightarrow> length ?xs = n" and empty: "circ_empty C (bb_queue (bb_obj s)) \<longleftrightarrow> ?xs = []"
    using laws bb_inv_parts(4) [OF inv] by (simp_all add: circ_laws_def)
  have own: "mx_owner (bb_mutex (bb_obj s)) = Some t" if "b_holds (bb_pc s t)" for t
    using bb_inv_parts(1) [OF inv] that by (simp add: bqp.lock_inv_def)
  show ?thesis
    using step
  proof cases
    case (bb_put_wait t x m c)
    then show ?thesis using bb_inv_wait_put [OF inv bb_put_wait(2) _ bb_put_wait(4)] full by simp
  next
    case (bb_put_ready t x)
    then show ?thesis using bb_inv_stay [OF inv, of t "PutIn x"] full bb_inv_parts(5) [OF inv] by simp
  next
    case (bb_put_assert t x)
    then show ?thesis using bb_inv_parts(9) [OF inv bb_put_assert(2)] full by simp
  next
    case (bb_take_wait t m c)
    then show ?thesis using bb_inv_wait_take [OF inv bb_take_wait(2) _ bb_take_wait(4)] empty by simp
  next
    case (bb_take_assert t)
    then show ?thesis using bb_inv_parts(8) [OF inv bb_take_assert(2)] empty by simp
  next
    case (bb_wait_bad t x c e)
    have "b_holds (bb_pc s t)" using bb_wait_bad(2) by auto
    then show ?thesis using cond_wait_begin_owner [OF own, of t c] bb_wait_bad(3) by auto
  next
    case (bb_leave_bad t e)
    then show ?thesis using mutex_unlock_owner [OF own, of t] by auto
  qed (use inv laws empty in \<open>simp_all add: bb_inv_stay bb_inv_lock bb_inv_leave bb_inv_wake bb_inv_push bb_inv_pop
      bb_inv_notify bb_inv_spurious\<close>)
qed

text \<open>The laws of the container are part of the start and of the invariant.\<close>

definition bb_start :: "('a, 'b) circ_lib \<Rightarrow> ('b \<Rightarrow> 'a list) \<Rightarrow> int \<Rightarrow> ('a, 'b) bb_sys \<Rightarrow> bool" where
  "bb_start C els n s \<longleftrightarrow> circ_laws C els \<and> 0 \<le> n \<and> bb_init C n s"

interpretation boundq: invariant_system "bb_start C els n" "bb_step C" "\<lambda>s. circ_laws C els \<and> bb_inv C els (nat n) s" for C els n
  by unfold_locales (auto simp: bb_start_def intro: bb_inv_init bb_inv_step)

lemma bb_start_init: "circ_laws C els \<Longrightarrow> 0 \<le> n \<Longrightarrow> bb_start C els n = bb_init C n"
  by (simp add: bb_start_def fun_eq_iff)

lemma bb_reach_inv:
  assumes "circ_laws C els" "0 \<le> n" "reach (bb_init C n) (bb_step C) s"
  shows "bb_inv C els (nat n) s"
  using boundq.reach_inv [of C els n s] assms by (simp add: bb_start_init)

text \<open>A state in which every thread is outside or asleep has no waker on either side.\<close>

lemma quiet_no_wakers:
  assumes "takew.wake_inv pc ce m" "putw.wake_inv pc cf n"
    "\<forall>t. pc t = BIdle \<or> t \<in> set (cond_waiters ce) \<union> set (cond_waiters cf)"
  shows "takew.wakers pc ce = {} \<and> putw.wakers pc cf = {}"
proof -
  have slp: "t \<in> set (cond_waiters ce) \<Longrightarrow> take_slp (pc t)" "t \<in> set (cond_waiters cf) \<Longrightarrow> put_slp (pc t)" for t
    using assms(1,2) by (simp_all add: takew.wake_inv_def putw.wake_inv_def)
  have apart: "\<not> (take_slp p \<and> put_slp p)" for p :: "'a bpc" by (cases p) simp_all
  have "t \<notin> takew.wakers pc ce \<and> t \<notin> putw.wakers pc cf" for t
    using assms(3) [rule_format, of t] slp [of t] apart [of "pc t"] takew.apart [of "pc t"] putw.apart [of "pc t"]
    by (cases "pc t") (auto simp: takew.wakers_def putw.wakers_def)
  then show ?thesis by blast
qed

section \<open>An atomic queue with a capacity\<close>

definition bb_abs :: "('b \<Rightarrow> 'a list) \<Rightarrow> ('a, 'b) bb_sys \<Rightarrow> 'a aq_sys" where
  "bb_abs els s = aq_of b_phase (bb_pc s) (els (bb_queue (bb_obj s))) (bb_in s) (bb_out s)"

lemma bb_abs_goto:
  "bb_abs els (bb_goto t p q s) = aq_of b_phase ((bb_pc s)(t := p)) (els (bb_queue q)) (bb_in s) (bb_out s)"
  by (simp add: bb_abs_def bb_goto_def)

lemma bb_abs_step:
  assumes laws: "circ_laws C els" and inv: "bb_inv C els n s" and step: "bb_step C s s'"
  shows "bb_abs els s' = bb_abs els s \<or> aq_step (Some n) (bb_abs els s) (bb_abs els s')"
  using step
proof cases
  case (bb_put_push t x)
  let ?xs = "els (bb_queue (bb_obj s))"
  have "length ?xs < n" "els (circ_push_back C x (bb_queue (bb_obj s))) = ?xs @ [x]"
    using laws inv bb_put_push(3) by (auto simp: circ_laws_def bb_inv_def Let_def le_less)
  then show ?thesis
    using bb_put_push aq_of_act [of b_phase "bb_pc s" t "OpPut x" PutPushed "Some n" ?xs "?xs @ [x]" "[x]" "[]"]
    by (simp add: bb_abs_goto) (simp add: bb_abs_def)
next
  case (bb_take_pop t)
  let ?xs = "els (bb_queue (bb_obj s))"
  obtain x xs where xs: "?xs = x # xs" using laws bb_take_pop(3) by (auto simp: circ_laws_def neq_Nil_conv)
  then have "circ_front C (bb_queue (bb_obj s)) = x" "els (circ_pop_front C (bb_queue (bb_obj s))) = xs"
    using laws by (auto simp: circ_laws_def)
  then show ?thesis
    using bb_take_pop xs aq_of_act [of b_phase "bb_pc s" t OpTake TakePopped "Some n" ?xs xs "[]" "[x]"]
    by (simp add: bb_abs_goto) (simp add: bb_abs_def)
next
  case (bb_read_lock t m)
  let ?xs = "els (bb_queue (bb_obj s))"
  show ?thesis
    using bb_read_lock aq_of_act [of b_phase "bb_pc s" t OpRead Leave "Some n" ?xs ?xs "[]" "[]"]
    by (simp add: bb_abs_goto) (simp add: bb_abs_def)
qed (simp_all add: bb_abs_goto, simp_all add: bb_abs_def aq_of_stay aq_of_call aq_of_return)

interpretation boundatomic: simulation "bb_start C els n" "bb_step C" "\<lambda>s. circ_laws C els \<and> bb_inv C els (nat n) s"
  aq_init "aq_step (Some (nat n))" "bb_abs els" for C els n
proof
  show "bb_start C els n s \<Longrightarrow> aq_init (bb_abs els s)" for s
    by (auto simp: bb_start_def bb_init_def bb_abs_def BoundedBlockingQueue_new_def circ_laws_def intro: aq_of_init)
qed (elim conjE, rule bb_abs_step)

end
