(* ===== verification/Log_Stream.thy ===== *)
theory Log_Stream
  imports String_Piece C_Strings Timing
begin

text \<open>
  \<^verbatim>\<open>muduo/base/LogStream.h\<close> and \<^verbatim>\<open>Logging.h\<close>: the fixed buffer a log line is built in, the
  stream operators, \<^verbatim>\<open>Fmt\<close>, the base name of a source file and the level test of the
  \<^verbatim>\<open>LOG_\<close> macros. The pointer \<^verbatim>\<open>cur_\<close> is an offset. Formatting of numbers has no body in
  the headers: the text is an argument.
\<close>

section \<open>FixedBuffer\<close>

definition kSmallBuffer :: nat where "kSmallBuffer = 4000"
definition kLargeBuffer :: nat where "kLargeBuffer = 4000 * 1000"

datatype cookie = CookieStart | CookieEnd

record FixedBuffer =
  fb_cookie :: cookie
  fb_data :: "BYTE list"
  fb_cur :: nat

definition setCookie :: "cookie \<Rightarrow> FixedBuffer \<Rightarrow> FixedBuffer" where
  "setCookie c b = b\<lparr>fb_cookie := c\<rparr>"

text \<open>\<open>junk\<close> is the uninitialised array of \<open>SIZE\<close> bytes.\<close>

definition FixedBuffer_new :: "BYTE list \<Rightarrow> FixedBuffer" where
  "FixedBuffer_new junk = setCookie CookieStart \<lparr>fb_cookie = CookieStart, fb_data = junk, fb_cur = 0\<rparr>"

definition FixedBuffer_dtor :: "FixedBuffer \<Rightarrow> FixedBuffer" where
  "FixedBuffer_dtor b = setCookie CookieEnd b"

definition fb_end :: "FixedBuffer \<Rightarrow> nat" where
  "fb_end b = length (fb_data b)"

definition fb_avail :: "FixedBuffer \<Rightarrow> int" where
  "fb_avail b = cast_int (int (fb_end b) - int (fb_cur b))"

definition fb_append :: "BYTE list \<Rightarrow> FixedBuffer \<Rightarrow> FixedBuffer result" where
  "fb_append buf b =
     (if nat (fb_avail b mod 2 ^ 64) > length buf then
        (if fb_cur b + length buf \<le> length (fb_data b)
         then Inr (b\<lparr>fb_data := write_at (fb_data b) (fb_cur b) buf, fb_cur := fb_cur b + length buf\<rparr>)
         else Inl BufferOverflow)
      else Inr b)"

definition fb_length :: "FixedBuffer \<Rightarrow> int" where
  "fb_length b = cast_int (int (fb_cur b))"

definition fb_current :: "FixedBuffer \<Rightarrow> nat" where
  "fb_current b = fb_cur b"

definition fb_add :: "nat \<Rightarrow> FixedBuffer \<Rightarrow> FixedBuffer" where
  "fb_add len b = b\<lparr>fb_cur := fb_cur b + len\<rparr>"

definition fb_reset :: "FixedBuffer \<Rightarrow> FixedBuffer" where
  "fb_reset b = b\<lparr>fb_cur := 0\<rparr>"

definition fb_bzero :: "FixedBuffer \<Rightarrow> FixedBuffer" where
  "fb_bzero b = b\<lparr>fb_data := replicate (length (fb_data b)) 0\<rparr>"

definition fb_toString :: "FixedBuffer \<Rightarrow> BYTE list" where
  "fb_toString b = take (nat (fb_length b)) (fb_data b)"

definition fb_toStringPiece :: "FixedBuffer \<Rightarrow> StringPiece" where
  "fb_toStringPiece b = StringPiece_range (Some (fb_data b)) (fb_length b)"

section \<open>LogStream\<close>

record LogStream =
  ls_buffer :: FixedBuffer

definition ls_write :: "BYTE list \<Rightarrow> LogStream \<Rightarrow> LogStream result" where
  "ls_write d s = bnd (fb_append d (ls_buffer s)) (\<lambda>b. Inr (s\<lparr>ls_buffer := b\<rparr>))"

definition ls_bool :: "bool \<Rightarrow> LogStream \<Rightarrow> LogStream result" where
  "ls_bool v s = ls_write [if v then 49 else 48] s"

text \<open>The widening of a float to a double and the printing of a double: \<open>put_double\<close>.\<close>

definition ls_float :: "(real \<Rightarrow> LogStream \<Rightarrow> LogStream result) \<Rightarrow> real \<Rightarrow> LogStream \<Rightarrow> LogStream result" where
  "ls_float put_double v s = put_double v s"

definition ls_char :: "BYTE \<Rightarrow> LogStream \<Rightarrow> LogStream result" where
  "ls_char v s = ls_write [v] s"

definition ls_cstr :: "BYTE list option \<Rightarrow> LogStream \<Rightarrow> LogStream result" where
  "ls_cstr str s = (case str of
     Some bs \<Rightarrow> bnd (strlen str) (\<lambda>n. ls_write (take n bs) s)
   | None \<Rightarrow> ls_write (map byte_of_char ''(null)'') s)"

definition ls_ucstr :: "BYTE list option \<Rightarrow> LogStream \<Rightarrow> LogStream result" where
  "ls_ucstr str s = ls_cstr str s"

definition ls_string :: "BYTE list \<Rightarrow> LogStream \<Rightarrow> LogStream result" where
  "ls_string v s = ls_write v s"

definition ls_piece :: "StringPiece \<Rightarrow> LogStream \<Rightarrow> LogStream result" where
  "ls_piece v s = bnd (sp_read v (sp_size v)) (\<lambda>d. ls_write d s)"

definition ls_fixed :: "FixedBuffer \<Rightarrow> LogStream \<Rightarrow> LogStream result" where
  "ls_fixed v s = ls_piece (fb_toStringPiece v) s"

definition ls_append :: "BYTE list \<Rightarrow> LogStream \<Rightarrow> LogStream result" where
  "ls_append d s = ls_write d s"

definition ls_get_buffer :: "LogStream \<Rightarrow> FixedBuffer" where
  "ls_get_buffer s = ls_buffer s"

definition resetBuffer :: "LogStream \<Rightarrow> LogStream" where
  "resetBuffer s = s\<lparr>ls_buffer := fb_reset (ls_buffer s)\<rparr>"

record Fmt =
  fmt_buf :: "BYTE list"
  fmt_length :: nat

definition ls_fmt :: "Fmt \<Rightarrow> LogStream \<Rightarrow> LogStream result" where
  "ls_fmt f s = (if fmt_length f \<le> length (fmt_buf f) then ls_append (take (fmt_length f) (fmt_buf f)) s
     else Inl OutOfBounds)"

section \<open>Logging.h\<close>

datatype LogLevel = TRACE | DEBUG | INFO | WARN | ERROR | FATAL | NUM_LOG_LEVELS

fun level_num :: "LogLevel \<Rightarrow> nat" where
  "level_num TRACE = 0" | "level_num DEBUG = 1" | "level_num INFO = 2" | "level_num WARN = 3"
| "level_num ERROR = 4" | "level_num FATAL = 5" | "level_num NUM_LOG_LEVELS = 6"

definition logLevel :: "LogLevel \<Rightarrow> LogLevel" where
  "logLevel g_logLevel = g_logLevel"

text \<open>The macros test the level for the first three levels only.\<close>

definition log_enabled :: "LogLevel \<Rightarrow> LogLevel \<Rightarrow> bool" where
  "log_enabled g_logLevel l = (if l \<in> {TRACE, DEBUG, INFO} then level_num (logLevel g_logLevel) \<le> level_num l else True)"

record SourceFile =
  sf_data :: string
  sf_size :: int

text \<open>The offset of the last slash.\<close>

fun strrchr :: "string \<Rightarrow> char \<Rightarrow> nat option" where
  "strrchr [] c = None"
| "strrchr (x # xs) c = (case strrchr xs c of Some i \<Rightarrow> Some (Suc i) | None \<Rightarrow> if x = c then Some 0 else None)"

definition SourceFile_arr :: "string \<Rightarrow> SourceFile" where
  "SourceFile_arr arr =
     (case strrchr arr (CHR ''/'') of
        None \<Rightarrow> \<lparr>sf_data = arr, sf_size = int (length arr)\<rparr>
      | Some slash \<Rightarrow> \<lparr>sf_data = drop (slash + 1) arr, sf_size = int (length arr) - int (slash + 1)\<rparr>)"

definition SourceFile_ptr :: "string \<Rightarrow> SourceFile" where
  "SourceFile_ptr filename =
     (let d = (case strrchr filename (CHR ''/'') of None \<Rightarrow> filename | Some slash \<Rightarrow> drop (slash + 1) filename)
      in \<lparr>sf_data = d, sf_size = cast_int (int (length d))\<rparr>)"

record LoggerImpl =
  li_time :: Timestamp
  li_stream :: LogStream
  li_level :: LogLevel
  li_line :: int
  li_basename :: SourceFile

definition logger_stream :: "LoggerImpl \<Rightarrow> LogStream" where
  "logger_stream i = li_stream i"

text \<open>A message of level FATAL aborts when the logger is destroyed.\<close>

definition CheckNotNull :: "'p option \<Rightarrow> 'p result" where
  "CheckNotNull ptr = (case ptr of None \<Rightarrow> Inl FatalLog | Some p \<Rightarrow> Inr p)"

section \<open>Facts\<close>

definition fb_ok :: "FixedBuffer \<Rightarrow> bool" where
  "fb_ok b \<longleftrightarrow> fb_cur b \<le> length (fb_data b) \<and> length (fb_data b) < 2 ^ 31"

definition fb_content :: "FixedBuffer \<Rightarrow> BYTE list" where
  "fb_content b = take (fb_cur b) (fb_data b)"

lemma fb_avail_ok: "fb_ok b \<Longrightarrow> fb_avail b = int (length (fb_data b) - fb_cur b)"
  by (simp add: fb_ok_def fb_avail_def fb_end_def of_nat_diff)

text \<open>An append writes all of its bytes or none, and never past the end.\<close>

lemma fb_append_ok:
  assumes "fb_ok b"
  shows "\<exists>b'. fb_append d b = Inr b' \<and> fb_ok b' \<and> length (fb_data b') = length (fb_data b) \<and>
    fb_content b' = (if fb_cur b + length d < length (fb_data b) then fb_content b @ d else fb_content b)"
proof -
  have "nat (fb_avail b mod 2 ^ 64) = length (fb_data b) - fb_cur b"
    using assms by (simp add: fb_avail_ok) (simp add: fb_ok_def)
  then show ?thesis
    using assms slice_write_at_extend [of 0 "fb_cur b" d "fb_data b"]
    by (auto simp: fb_append_def fb_ok_def fb_content_def)
qed

lemma fb_toString_content: "fb_ok b \<Longrightarrow> fb_toString b = fb_content b"
  by (simp add: fb_ok_def fb_toString_def fb_content_def fb_length_def)

text \<open>\<^verbatim>\<open>add\<close> does not check: past the end the next append overruns the array.\<close>

lemma fb_add_overrun:
  assumes "length (fb_data b) < 2 ^ 30" "fb_cur b = length (fb_data b) + 1" "d \<noteq> []" "length d < 2 ^ 30"
  shows "fb_append d b = Inl BufferOverflow"
proof -
  have "fb_avail b = -1" using assms(1,2) by (simp add: fb_avail_def fb_end_def)
  then show ?thesis using assms by (simp add: fb_append_def)
qed

fun ls_writes :: "BYTE list list \<Rightarrow> LogStream \<Rightarrow> LogStream result" where
  "ls_writes [] s = Inr s"
| "ls_writes (d # ds) s = bnd (ls_write d s) (ls_writes ds)"

text \<open>The parts of a line that a buffer of \<open>cap\<close> bytes with \<open>n\<close> bytes used keeps: each that leaves a byte free.\<close>

fun kept :: "nat \<Rightarrow> nat \<Rightarrow> BYTE list list \<Rightarrow> BYTE list list" where
  "kept cap n [] = []"
| "kept cap n (d # ds) = (if n + length d < cap then d # kept cap (n + length d) ds else kept cap n ds)"

lemma kept_fits: "n + length (concat ds) < cap \<Longrightarrow> kept cap n ds = ds"
  by (induction ds arbitrary: n) (auto simp: add.assoc)

lemma kept_bound: "n \<le> cap \<Longrightarrow> n + length (concat (kept cap n ds)) \<le> cap"
  by (induction ds arbitrary: n) (auto simp: add.assoc [symmetric])

lemma ls_writes_kept:
  "fb_ok (ls_buffer s) \<Longrightarrow>
    \<exists>s'. ls_writes ds s = Inr s' \<and> fb_ok (ls_buffer s') \<and> length (fb_data (ls_buffer s')) = length (fb_data (ls_buffer s)) \<and>
      fb_content (ls_buffer s') = fb_content (ls_buffer s) @ concat (kept (length (fb_data (ls_buffer s))) (fb_cur (ls_buffer s)) ds)"
proof (induction ds arbitrary: s)
  case (Cons d ds)
  let ?b = "ls_buffer s"
  obtain b where b: "fb_append d ?b = Inr b" "fb_ok b" "length (fb_data b) = length (fb_data ?b)"
    "fb_content b = (if fb_cur ?b + length d < length (fb_data ?b) then fb_content ?b @ d else fb_content ?b)"
    using fb_append_ok [OF Cons.prems, of d] by auto
  have "length (fb_content b) = fb_cur b" using b(2) by (simp add: fb_content_def fb_ok_def)
  moreover have "length (fb_content ?b) = fb_cur ?b" using Cons.prems by (simp add: fb_content_def fb_ok_def)
  ultimately have "fb_cur b = (if fb_cur ?b + length d < length (fb_data ?b) then fb_cur ?b + length d else fb_cur ?b)"
    using b(4) by (auto split: if_splits)
  then show ?case using Cons.IH [of "s\<lparr>ls_buffer := b\<rparr>"] b by (auto simp: ls_write_def)
qed simp

lemma strrchr_Some: "strrchr s c = Some i \<Longrightarrow> i < length s \<and> s ! i = c \<and> c \<notin> set (drop (Suc i) s)"
proof (induction s arbitrary: i)
  case (Cons x xs)
  have none: "strrchr xs c = None \<Longrightarrow> c \<notin> set xs"
    by (induction xs) (auto split: option.splits if_splits)
  show ?case using Cons none by (auto split: option.splits if_splits)
qed simp

text \<open>The two constructors agree, and the base name has no slash.\<close>

lemma SourceFile_basename:
  assumes "length s < 2 ^ 31"
  shows "SourceFile_arr s = SourceFile_ptr s" "sf_size (SourceFile_arr s) = int (length (sf_data (SourceFile_arr s)))"
  using assms strrchr_Some [of s "CHR ''/''"]
  by (auto simp: SourceFile_arr_def SourceFile_ptr_def Let_def of_nat_diff split: option.split)

end
