(* ===== verification/Muduo_Base.thy ===== *)
theory Muduo_Base
  imports Log_Stream Sync "HOL-Library.Multiset"
begin

text \<open>
  The rest of \<^verbatim>\<open>muduo/base\<close> as far as the headers hold code: \<^verbatim>\<open>Exception.h\<close>,
  \<^verbatim>\<open>CountDownLatch.h\<close>, \<^verbatim>\<open>Thread.h\<close>, \<^verbatim>\<open>ThreadPool.h\<close>, \<^verbatim>\<open>AsyncLogging.h\<close>, \<^verbatim>\<open>LogFile.h\<close>,
  \<^verbatim>\<open>FileUtil.h\<close>, \<^verbatim>\<open>GzipFile.h\<close>, \<^verbatim>\<open>ProcessInfo.h\<close> and \<^verbatim>\<open>TimeZone.h\<close>. Functions whose bodies are
  in the compiled library or in zlib are parameters. The lemmas show that a \<^verbatim>\<open>GzipFile\<close> closes
  its handle once however it is moved, and that the log thread is joined once.
\<close>

section \<open>Exception.h\<close>

record Exception =
  exc_message :: string
  exc_stack :: string

definition exc_what :: "Exception \<Rightarrow> string" where
  "exc_what e = exc_message e"

definition exc_stackTrace :: "Exception \<Rightarrow> string" where
  "exc_stackTrace e = exc_stack e"

section \<open>Threads\<close>

record CountDownLatch =
  cdl_mutex :: MutexLock
  cdl_condition :: Condition
  cdl_count :: int

record 'f Thread =
  th_started :: bool
  th_joined :: bool
  th_pthreadId :: nat
  th_tid :: int
  th_func :: "'f option"
  th_name :: string
  th_latch :: CountDownLatch

definition th_get_started :: "'f Thread \<Rightarrow> bool" where
  "th_get_started th = th_started th"

definition th_get_tid :: "'f Thread \<Rightarrow> int" where
  "th_get_tid th = th_tid th"

definition th_get_name :: "'f Thread \<Rightarrow> string" where
  "th_get_name th = th_name th"

text \<open>\<open>numCreated_\<close> is the static counter of the class.\<close>

definition numCreated :: "32 word AtomicIntegerT \<Rightarrow> 32 word" where
  "numCreated c = fst (atomic_get c)"

record 'f ThreadPool =
  tp_mutex :: MutexLock
  tp_notEmpty :: Condition
  tp_notFull :: Condition
  tp_name :: string
  tp_threadInitCallback :: "'f option"
  tp_threads :: "'f Thread list"
  tp_queue :: "'f list"
  tp_maxQueueSize :: nat
  tp_running :: bool

text \<open>The \<^verbatim>\<open>int\<close> is converted to \<^verbatim>\<open>size_t\<close>.\<close>

definition setMaxQueueSize :: "int \<Rightarrow> 'f ThreadPool \<Rightarrow> 'f ThreadPool" where
  "setMaxQueueSize maxSize p = p\<lparr>tp_maxQueueSize := nat (maxSize mod 2 ^ 64)\<rparr>"

definition tp_setThreadInitCallback :: "'f option \<Rightarrow> 'f ThreadPool \<Rightarrow> 'f ThreadPool" where
  "tp_setThreadInitCallback cb p = p\<lparr>tp_threadInitCallback := cb\<rparr>"

definition tp_get_name :: "'f ThreadPool \<Rightarrow> string" where
  "tp_get_name p = tp_name p"

section \<open>Logging\<close>

record 'f AsyncLogging =
  al_flushInterval :: int
  al_running :: bool
  al_basename :: string
  al_rollSize :: int
  al_thread :: "'f Thread"
  al_latch :: CountDownLatch
  al_mutex :: MutexLock
  al_cond :: Condition
  al_currentBuffer :: "FixedBuffer option"
  al_nextBuffer :: "FixedBuffer option"
  al_buffers :: "FixedBuffer list"

text \<open>
  The functions of \<^verbatim>\<open>Thread\<close> and \<^verbatim>\<open>CountDownLatch\<close> it calls, with a state \<open>'s\<close> of the threads of
  the process.
\<close>

record ('f, 's) thread_lib =
  thread_start :: "'f Thread \<Rightarrow> 's \<Rightarrow> 'f Thread \<times> 's"
  thread_join :: "'f Thread \<Rightarrow> 's \<Rightarrow> 'f Thread \<times> 's"
  latch_wait :: "CountDownLatch \<Rightarrow> 's \<Rightarrow> CountDownLatch \<times> 's"

definition al_start :: "('f, 's) thread_lib \<Rightarrow> 'f AsyncLogging \<Rightarrow> 's \<Rightarrow> 'f AsyncLogging \<times> 's" where
  "al_start T a s =
     (case thread_start T (al_thread a) s of (th, s1) \<Rightarrow>
        (case latch_wait T (al_latch a) s1 of (l, s2) \<Rightarrow>
           (a\<lparr>al_running := True, al_thread := th, al_latch := l\<rparr>, s2)))"

definition al_stop :: "('f, 's) thread_lib \<Rightarrow> (int list \<Rightarrow> int) \<Rightarrow> 'f AsyncLogging \<Rightarrow> 's \<Rightarrow> 'f AsyncLogging \<times> 's" where
  "al_stop T pick a s =
     (let a1 = a\<lparr>al_running := False, al_cond := cond_notify pick (al_cond a)\<rparr>
      in case thread_join T (al_thread a1) s of (th, s1) \<Rightarrow> (a1\<lparr>al_thread := th\<rparr>, s1))"

definition al_dtor :: "('f, 's) thread_lib \<Rightarrow> (int list \<Rightarrow> int) \<Rightarrow> 'f AsyncLogging \<Rightarrow> 's \<Rightarrow> 'f AsyncLogging \<times> 's" where
  "al_dtor T pick a s = (if al_running a then al_stop T pick a s else (a, s))"

record AppendFile =
  af_fp :: "nat option"
  af_buffer :: "BYTE list"
  af_writtenBytes :: int

definition writtenBytes :: "AppendFile \<Rightarrow> int" where
  "writtenBytes f = af_writtenBytes f"

record LogFile =
  lf_basename :: string
  lf_rollSize :: int
  lf_flushInterval :: int
  lf_checkEveryN :: int
  lf_count :: int
  lf_mutex :: "MutexLock option"
  lf_startOfPeriod :: int
  lf_lastRoll :: int
  lf_lastFlush :: int
  lf_file :: "AppendFile option"

definition kRollPerSeconds :: int where
  "kRollPerSeconds = 60 * 60 * 24"

section \<open>FileUtil.h\<close>

definition kBufferSize :: nat where
  "kBufferSize = 64 * 1024"

record ReadSmallFile =
  rf_fd :: int
  rf_err :: int
  rf_buf :: "BYTE list"

definition rf_buffer :: "ReadSmallFile \<Rightarrow> BYTE list" where
  "rf_buffer f = rf_buf f"

text \<open>The three out parameters: \<open>None\<close> is a null pointer.\<close>

record file_stat =
  fs_size :: "int option"
  fs_modify :: "int option"
  fs_create :: "int option"

text \<open>
  \<open>opn\<close>, \<open>readToString\<close> and \<open>cls\<close> are the constructor, the member function and the destructor,
  which have no bodies in the sources, over a file system \<open>'s\<close>.
\<close>

definition readFile ::
    "(StringArg \<Rightarrow> 's \<Rightarrow> ReadSmallFile \<times> 's) \<Rightarrow>
     (int \<Rightarrow> string \<Rightarrow> file_stat \<Rightarrow> ReadSmallFile \<Rightarrow> 's \<Rightarrow> (int \<times> string \<times> file_stat) \<times> ReadSmallFile \<times> 's) \<Rightarrow>
     (ReadSmallFile \<Rightarrow> 's \<Rightarrow> 's) \<Rightarrow> StringArg \<Rightarrow> int \<Rightarrow> string \<Rightarrow> file_stat \<Rightarrow> 's \<Rightarrow> (int \<times> string \<times> file_stat) \<times> 's" where
  "readFile opn readToString cls filename maxSize content st s =
     (case opn filename s of (file, s1) \<Rightarrow>
        (case readToString maxSize content st file s1 of (res, file1, s2) \<Rightarrow> (res, cls file1 s2)))"

section \<open>GzipFile.h\<close>

record GzipFile =
  gz_file :: "nat option"

text \<open>zlib over a state \<open>'z\<close>; \<^verbatim>\<open>gzopen\<close> of a file that cannot be opened answers NULL.\<close>

record 'z zlib =
  gzopen :: "BYTE list option \<Rightarrow> string \<Rightarrow> 'z \<Rightarrow> nat option \<times> 'z"
  gzclose :: "nat \<Rightarrow> 'z \<Rightarrow> 'z"
  gzbuffer :: "nat option \<Rightarrow> int \<Rightarrow> 'z \<Rightarrow> int \<times> 'z"
  gzread :: "nat option \<Rightarrow> int \<Rightarrow> 'z \<Rightarrow> int \<times> BYTE list \<times> 'z"
  gzwrite :: "nat option \<Rightarrow> BYTE list option \<Rightarrow> int \<Rightarrow> 'z \<Rightarrow> int \<times> 'z"
  gztell :: "nat option \<Rightarrow> 'z \<Rightarrow> int"
  gzoffset :: "nat option \<Rightarrow> 'z \<Rightarrow> int"

definition GzipFile_of :: "nat option \<Rightarrow> GzipFile" where
  "GzipFile_of f = \<lparr>gz_file = f\<rparr>"

definition GzipFile_move :: "GzipFile \<Rightarrow> GzipFile \<times> GzipFile" where
  "GzipFile_move rhs = (GzipFile_of (gz_file rhs), rhs\<lparr>gz_file := None\<rparr>)"

definition GzipFile_dtor :: "'z zlib \<Rightarrow> GzipFile \<Rightarrow> 'z \<Rightarrow> 'z" where
  "GzipFile_dtor Z f z = (case gz_file f of None \<Rightarrow> z | Some h \<Rightarrow> gzclose Z h z)"

definition gz_swap :: "GzipFile \<Rightarrow> GzipFile \<Rightarrow> GzipFile \<times> GzipFile" where
  "gz_swap this rhs = (this\<lparr>gz_file := gz_file rhs\<rparr>, rhs\<lparr>gz_file := gz_file this\<rparr>)"

definition GzipFile_assign :: "GzipFile \<Rightarrow> GzipFile \<Rightarrow> GzipFile \<times> GzipFile" where
  "GzipFile_assign this rhs = gz_swap this rhs"

definition gz_valid :: "GzipFile \<Rightarrow> bool" where
  "gz_valid f \<longleftrightarrow> gz_file f \<noteq> None"

definition gz_setBuffer :: "'z zlib \<Rightarrow> int \<Rightarrow> GzipFile \<Rightarrow> 'z \<Rightarrow> bool \<times> 'z" where
  "gz_setBuffer Z sz f z = (case gzbuffer Z (gz_file f) sz z of (r, z1) \<Rightarrow> (r = 0, z1))"

definition gz_read :: "'z zlib \<Rightarrow> int \<Rightarrow> GzipFile \<Rightarrow> 'z \<Rightarrow> int \<times> BYTE list \<times> 'z" where
  "gz_read Z len f z = gzread Z (gz_file f) len z"

definition gz_write :: "'z zlib \<Rightarrow> StringPiece \<Rightarrow> GzipFile \<Rightarrow> 'z \<Rightarrow> int \<times> 'z" where
  "gz_write Z buf f z = gzwrite Z (gz_file f) (sp_data buf) (sp_size buf) z"

definition gz_tell :: "'z zlib \<Rightarrow> GzipFile \<Rightarrow> 'z \<Rightarrow> int" where
  "gz_tell Z f z = gztell Z (gz_file f) z"

definition gz_offset :: "'z zlib \<Rightarrow> GzipFile \<Rightarrow> 'z \<Rightarrow> int" where
  "gz_offset Z f z = gzoffset Z (gz_file f) z"

definition gz_open :: "string \<Rightarrow> 'z zlib \<Rightarrow> StringArg \<Rightarrow> 'z \<Rightarrow> GzipFile \<times> 'z" where
  "gz_open mode Z filename z = (case gzopen Z (StringArg_c_str filename) mode z of (h, z1) \<Rightarrow> (GzipFile_of h, z1))"

definition openForRead :: "'z zlib \<Rightarrow> StringArg \<Rightarrow> 'z \<Rightarrow> GzipFile \<times> 'z" where
  "openForRead = gz_open ''rbe''"

definition openForAppend :: "'z zlib \<Rightarrow> StringArg \<Rightarrow> 'z \<Rightarrow> GzipFile \<times> 'z" where
  "openForAppend = gz_open ''abe''"

definition openForWriteExclusive :: "'z zlib \<Rightarrow> StringArg \<Rightarrow> 'z \<Rightarrow> GzipFile \<times> 'z" where
  "openForWriteExclusive = gz_open ''wbxe''"

definition openForWriteTruncate :: "'z zlib \<Rightarrow> StringArg \<Rightarrow> 'z \<Rightarrow> GzipFile \<times> 'z" where
  "openForWriteTruncate = gz_open ''wbe''"

section \<open>ProcessInfo.h and TimeZone.h\<close>

text \<open>Sums of doubles are rounded by \<open>rnd\<close>.\<close>

record CpuTime =
  userSeconds :: real
  systemSeconds :: real

definition CpuTime_new :: CpuTime where
  "CpuTime_new = \<lparr>userSeconds = 0, systemSeconds = 0\<rparr>"

definition cpu_total :: "(real \<Rightarrow> real) \<Rightarrow> CpuTime \<Rightarrow> real" where
  "cpu_total rnd c = rnd (userSeconds c + systemSeconds c)"

record 'd TimeZone =
  tz_data :: "'d option"

definition tz_valid :: "'d TimeZone \<Rightarrow> bool" where
  "tz_valid z \<longleftrightarrow> tz_data z \<noteq> None"

section \<open>Ownership of handles\<close>

text \<open>The operations that move handles between the objects of a list, by their positions.\<close>

datatype gz_op = GzMove nat | GzAssign nat nat

fun gz_op_ok :: "gz_op \<Rightarrow> nat \<Rightarrow> bool" where
  "gz_op_ok (GzMove i) n = (i < n)"
| "gz_op_ok (GzAssign i j) n = (i < n \<and> j < n)"

fun gz_run :: "gz_op \<Rightarrow> GzipFile list \<Rightarrow> GzipFile list" where
  "gz_run (GzMove i) fs = (case GzipFile_move (fs ! i) of (new, old) \<Rightarrow> fs[i := old] @ [new])"
| "gz_run (GzAssign i j) fs =
     (if i = j then fs[i := fst (GzipFile_assign (fs ! i) (fs ! i))]
      else case GzipFile_assign (fs ! i) (fs ! j) of (a, b) \<Rightarrow> fs[i := a, j := b])"

definition handles :: "GzipFile list \<Rightarrow> nat list" where
  "handles fs = concat (map (\<lambda>f. case gz_file f of None \<Rightarrow> [] | Some h \<Rightarrow> [h]) fs)"

definition destroy_all :: "'z zlib \<Rightarrow> GzipFile list \<Rightarrow> 'z \<Rightarrow> 'z" where
  "destroy_all Z fs z = fold (GzipFile_dtor Z) fs z"

lemma destroy_all_closes: "destroy_all Z fs z = fold (gzclose Z) (handles fs) z"
  by (induction fs arbitrary: z) (auto simp: destroy_all_def handles_def GzipFile_dtor_def split: option.splits)

lemma mset_handles_update:
  "i < length fs \<Longrightarrow> mset (handles (fs[i := f])) + mset (handles [fs ! i]) = mset (handles fs) + mset (handles [f])"
proof (induction fs arbitrary: i)
  case (Cons g fs)
  then show ?case by (cases i) (auto simp: handles_def)
qed simp

lemma gz_run_handles:
  assumes "gz_op_ok p (length fs)"
  shows "mset (handles (gz_run p fs)) = mset (handles fs)"
proof (cases p)
  case (GzMove i)
  then have "mset (handles (fs[i := (fs ! i)\<lparr>gz_file := None\<rparr>])) + mset (handles [fs ! i]) = mset (handles fs)"
    using mset_handles_update [of i fs "(fs ! i)\<lparr>gz_file := None\<rparr>"] assms by (simp add: handles_def)
  then show ?thesis using GzMove by (simp add: GzipFile_move_def GzipFile_of_def handles_def ac_simps)
next
  case (GzAssign i j)
  show ?thesis
  proof (cases "i = j")
    case True
    then show ?thesis using GzAssign by (simp add: GzipFile_assign_def gz_swap_def list_update_id)
  next
    case False
    let ?a = "(fs ! i)\<lparr>gz_file := gz_file (fs ! j)\<rparr>" and ?b = "(fs ! j)\<lparr>gz_file := gz_file (fs ! i)\<rparr>"
    have same: "handles [?a] = handles [fs ! j]" "handles [?b] = handles [fs ! i]" by (simp_all add: handles_def)
    have "mset (handles (fs[i := ?a, j := ?b])) + mset (handles [fs ! j]) = mset (handles (fs[i := ?a])) + mset (handles [?b])"
      using mset_handles_update [of j "fs[i := ?a]" ?b] assms GzAssign False by simp
    moreover have "mset (handles (fs[i := ?a])) + mset (handles [fs ! i]) = mset (handles fs) + mset (handles [?a])"
      using mset_handles_update [of i fs ?a] assms GzAssign by simp
    ultimately have "mset (handles (fs[i := ?a, j := ?b])) = mset (handles fs)" using same by simp
    then show ?thesis using GzAssign False by (simp add: GzipFile_assign_def gz_swap_def)
  qed
qed

lemma gz_runs_handles:
  assumes "\<forall>i < length ops. gz_op_ok (ops ! i) (length (fold gz_run (take i ops) fs))"
  shows "mset (handles (fold gz_run ops fs)) = mset (handles fs)"
  using assms
proof (induction ops arbitrary: fs)
  case (Cons p ops)
  have "gz_op_ok p (length fs)" using Cons.prems by (metis fold_simps(1) length_greater_0_conv list.distinct(1) nth_Cons_0 take_0)
  moreover have "\<forall>i < length ops. gz_op_ok (ops ! i) (length (fold gz_run (take i ops) (gz_run p fs)))"
  proof (intro allI impI)
    fix i assume "i < length ops"
    then show "gz_op_ok (ops ! i) (length (fold gz_run (take i ops) (gz_run p fs)))"
      using Cons.prems [rule_format, of "Suc i"] by simp
  qed
  ultimately show ?case using Cons.IH [of "gz_run p fs"] gz_run_handles [of p fs] by simp
qed simp

section \<open>The log thread\<close>

lemma al_dtor_stops: "al_running (fst (al_dtor T pick a s)) = False"
  by (auto simp: al_dtor_def al_stop_def Let_def split: prod.split)

lemma al_dtor_idem: "al_dtor T pick (fst (al_dtor T pick' a s)) s' = (fst (al_dtor T pick' a s), s')"
  by (simp add: al_dtor_def [of T pick "fst (al_dtor T pick' a s)"] al_dtor_stops)

end
