(* ===== verification/Http.thy ===== *)
theory Http
  imports Tcp_Net C_Strings Std_Map "HOL-Library.Char_ord" "HOL-Library.List_Lexorder"
begin

text \<open>
  \<^verbatim>\<open>muduo/net/http\<close>: \<^verbatim>\<open>HttpRequest.h\<close>, \<^verbatim>\<open>HttpResponse.h\<close>, \<^verbatim>\<open>HttpContext.h\<close> and
  \<^verbatim>\<open>HttpServer.h\<close> as far as they hold code. Pointers are offsets into the block of text they
  point into; building a string from a reversed pair of pointers raises \<^verbatim>\<open>length_error\<close>. The
  headers are a \<^verbatim>\<open>std::map\<close>, ordered by the bytes of the field names. The lemmas show what
  \<^verbatim>\<open>addHeader\<close> stores and that method names round-trip.
\<close>

section \<open>HttpRequest.h\<close>

datatype HttpMethod = kInvalid | kGet | kPost | kHead | kPut | kDelete

datatype HttpVersion = kUnknown | kHttp10 | kHttp11

record HttpRequest =
  rq_method :: HttpMethod
  rq_version :: HttpVersion
  rq_path :: string
  rq_query :: string
  rq_receiveTime :: Timestamp
  rq_headers :: "(string, string) std_map"

definition HttpRequest_new :: HttpRequest where
  "HttpRequest_new = \<lparr>rq_method = kInvalid, rq_version = kUnknown, rq_path = [], rq_query = [],
     rq_receiveTime = Timestamp_default, rq_headers = []\<rparr>"

definition setVersion :: "HttpVersion \<Rightarrow> HttpRequest \<Rightarrow> HttpRequest" where
  "setVersion v r = r\<lparr>rq_version := v\<rparr>"

definition getVersion :: "HttpRequest \<Rightarrow> HttpVersion" where
  "getVersion r = rq_version r"

text \<open>\<^verbatim>\<open>string(start, end)\<close> over a block \<open>mm\<close>.\<close>

definition str_range :: "string \<Rightarrow> nat \<Rightarrow> nat \<Rightarrow> string result" where
  "str_range mm start fin =
     (if fin < start then Inl LengthError else if length mm < fin then Inl OutOfBounds
      else Inr (take (fin - start) (drop start mm)))"

definition setMethod :: "string \<Rightarrow> nat \<Rightarrow> nat \<Rightarrow> HttpRequest \<Rightarrow> (bool \<times> HttpRequest) result" where
  "setMethod mm start fin r =
     bnd (assert_c (rq_method r = kInvalid)) (\<lambda>_.
     bnd (str_range mm start fin) (\<lambda>m.
       let r' = r\<lparr>rq_method :=
         (if m = ''GET'' then kGet
          else if m = ''POST'' then kPost
          else if m = ''HEAD'' then kHead
          else if m = ''PUT'' then kPut
          else if m = ''DELETE'' then kDelete
          else kInvalid)\<rparr>
       in Inr (rq_method r' \<noteq> kInvalid, r')))"

definition rq_get_method :: "HttpRequest \<Rightarrow> HttpMethod" where
  "rq_get_method r = rq_method r"

definition methodString :: "HttpRequest \<Rightarrow> string" where
  "methodString r =
     (case rq_method r of kGet \<Rightarrow> ''GET'' | kPost \<Rightarrow> ''POST'' | kHead \<Rightarrow> ''HEAD'' | kPut \<Rightarrow> ''PUT''
      | kDelete \<Rightarrow> ''DELETE'' | _ \<Rightarrow> ''UNKNOWN'')"

definition setPath :: "string \<Rightarrow> nat \<Rightarrow> nat \<Rightarrow> HttpRequest \<Rightarrow> HttpRequest result" where
  "setPath mm start fin r = bnd (str_range mm start fin) (\<lambda>s. Inr (r\<lparr>rq_path := s\<rparr>))"

definition rq_get_path :: "HttpRequest \<Rightarrow> string" where
  "rq_get_path r = rq_path r"

definition setQuery :: "string \<Rightarrow> nat \<Rightarrow> nat \<Rightarrow> HttpRequest \<Rightarrow> HttpRequest result" where
  "setQuery mm start fin r = bnd (str_range mm start fin) (\<lambda>s. Inr (r\<lparr>rq_query := s\<rparr>))"

definition rq_get_query :: "HttpRequest \<Rightarrow> string" where
  "rq_get_query r = rq_query r"

definition setReceiveTime :: "Timestamp \<Rightarrow> HttpRequest \<Rightarrow> HttpRequest" where
  "setReceiveTime t r = r\<lparr>rq_receiveTime := t\<rparr>"

definition receiveTime :: "HttpRequest \<Rightarrow> Timestamp" where
  "receiveTime r = rq_receiveTime r"

text \<open>The two loops of \<^verbatim>\<open>addHeader\<close>; a read past the block is a fault.\<close>

function skip_spaces :: "string \<Rightarrow> nat \<Rightarrow> nat \<Rightarrow> nat result" where
  "skip_spaces mm colon fin =
     (if colon < fin then
        (if length mm \<le> colon then Inl OutOfBounds
         else if is_space (mm ! colon) then skip_spaces mm (Suc colon) fin else Inr colon)
      else Inr colon)"
  by pat_completeness auto

termination
  by (relation "measure (\<lambda>(mm, colon, fin). fin - colon)") auto

declare skip_spaces.simps [simp del]

fun trim_right :: "string \<Rightarrow> string" where
  "trim_right val = (if val \<noteq> [] \<and> is_space (last val) then trim_right (butlast val) else val)"

declare trim_right.simps [simp del]

definition addHeader :: "string \<Rightarrow> nat \<Rightarrow> nat \<Rightarrow> nat \<Rightarrow> HttpRequest \<Rightarrow> HttpRequest result" where
  "addHeader mm start colon fin r =
     bnd (str_range mm start colon) (\<lambda>field.
     bnd (skip_spaces mm (colon + 1) fin) (\<lambda>colon'.
     bnd (str_range mm colon' fin) (\<lambda>val.
       Inr (r\<lparr>rq_headers := map_put (rq_headers r) field (trim_right val)\<rparr>))))"

definition getHeader :: "string \<Rightarrow> HttpRequest \<Rightarrow> string" where
  "getHeader field r = (case map_find (rq_headers r) field of None \<Rightarrow> [] | Some v \<Rightarrow> v)"

definition rq_get_headers :: "HttpRequest \<Rightarrow> (string, string) std_map" where
  "rq_get_headers r = rq_headers r"

definition HttpRequest_swap :: "HttpRequest \<Rightarrow> HttpRequest \<Rightarrow> HttpRequest \<times> HttpRequest" where
  "HttpRequest_swap this that =
     (let (t1, t2) = Timestamp_swap (rq_receiveTime this) (rq_receiveTime that)
      in (this\<lparr>rq_method := rq_method that, rq_version := rq_version that, rq_path := rq_path that,
            rq_query := rq_query that, rq_receiveTime := t1, rq_headers := rq_headers that\<rparr>,
          that\<lparr>rq_method := rq_method this, rq_version := rq_version this, rq_path := rq_path this,
            rq_query := rq_query this, rq_receiveTime := t2, rq_headers := rq_headers this\<rparr>))"

section \<open>HttpResponse.h\<close>

datatype HttpStatusCode = kUnknownStatus | k200Ok | k301MovedPermanently | k400BadRequest | k404NotFound

definition status_num :: "HttpStatusCode \<Rightarrow> int" where
  "status_num c = (case c of kUnknownStatus \<Rightarrow> 0 | k200Ok \<Rightarrow> 200 | k301MovedPermanently \<Rightarrow> 301
     | k400BadRequest \<Rightarrow> 400 | k404NotFound \<Rightarrow> 404)"

record HttpResponse =
  rs_headers :: "(string, string) std_map"
  rs_statusCode :: HttpStatusCode
  rs_statusMessage :: string
  rs_closeConnection :: bool
  rs_body :: string

definition HttpResponse_new :: "bool \<Rightarrow> HttpResponse" where
  "HttpResponse_new close = \<lparr>rs_headers = [], rs_statusCode = kUnknownStatus, rs_statusMessage = [],
     rs_closeConnection = close, rs_body = []\<rparr>"

definition setStatusCode :: "HttpStatusCode \<Rightarrow> HttpResponse \<Rightarrow> HttpResponse" where
  "setStatusCode code r = r\<lparr>rs_statusCode := code\<rparr>"

definition setStatusMessage :: "string \<Rightarrow> HttpResponse \<Rightarrow> HttpResponse" where
  "setStatusMessage message r = r\<lparr>rs_statusMessage := message\<rparr>"

definition setCloseConnection :: "bool \<Rightarrow> HttpResponse \<Rightarrow> HttpResponse" where
  "setCloseConnection on r = r\<lparr>rs_closeConnection := on\<rparr>"

definition closeConnection :: "HttpResponse \<Rightarrow> bool" where
  "closeConnection r = rs_closeConnection r"

definition rs_addHeader :: "string \<Rightarrow> string \<Rightarrow> HttpResponse \<Rightarrow> HttpResponse" where
  "rs_addHeader key val r = r\<lparr>rs_headers := map_put (rs_headers r) key val\<rparr>"

definition setContentType :: "string \<Rightarrow> HttpResponse \<Rightarrow> HttpResponse" where
  "setContentType contentType r = rs_addHeader ''Content-Type'' contentType r"

definition setBody :: "string \<Rightarrow> HttpResponse \<Rightarrow> HttpResponse" where
  "setBody body r = r\<lparr>rs_body := body\<rparr>"

section \<open>HttpContext.h and HttpServer.h\<close>

datatype HttpRequestParseState = kExpectRequestLine | kExpectHeaders | kExpectBody | kGotAll

record HttpContext =
  hc_state :: HttpRequestParseState
  hc_request :: HttpRequest

definition HttpContext_new :: HttpContext where
  "HttpContext_new = \<lparr>hc_state = kExpectRequestLine, hc_request = HttpRequest_new\<rparr>"

definition gotAll :: "HttpContext \<Rightarrow> bool" where
  "gotAll c \<longleftrightarrow> hc_state c = kGotAll"

definition hc_reset :: "HttpContext \<Rightarrow> HttpContext" where
  "hc_reset c =
     (let c1 = c\<lparr>hc_state := kExpectRequestLine\<rparr>; dummy = HttpRequest_new
      in c1\<lparr>hc_request := fst (HttpRequest_swap (hc_request c1) dummy)\<rparr>)"

definition hc_get_request :: "HttpContext \<Rightarrow> HttpRequest" where
  "hc_get_request c = hc_request c"

record ('f, 'h) HttpServer =
  hs_server :: "'f TcpServer"
  hs_httpCallback :: "'h std_function"

definition hs_getLoop :: "('f, 'h) HttpServer \<Rightarrow> nat" where
  "hs_getLoop s = ts_getLoop (hs_server s)"

definition setHttpCallback :: "'h std_function \<Rightarrow> ('f, 'h) HttpServer \<Rightarrow> ('f, 'h) HttpServer" where
  "setHttpCallback cb s = s\<lparr>hs_httpCallback := cb\<rparr>"

text \<open>\<open>set_threads\<close> is \<^verbatim>\<open>TcpServer::setThreadNum\<close>, whose body is in the library.\<close>

definition hs_setThreadNum :: "(int \<Rightarrow> 'f TcpServer \<Rightarrow> 'f TcpServer) \<Rightarrow> int \<Rightarrow> ('f, 'h) HttpServer \<Rightarrow> ('f, 'h) HttpServer" where
  "hs_setThreadNum set_threads n s = s\<lparr>hs_server := set_threads n (hs_server s)\<rparr>"

section \<open>Lemmas\<close>

text \<open>The text without white space at its ends.\<close>

definition strip :: "string \<Rightarrow> string" where
  "strip s = rev (dropWhile is_space (rev (dropWhile is_space s)))"

lemma trim_right_eq: "trim_right s = rev (dropWhile is_space (rev s))"
proof (induction s rule: trim_right.induct)
  case (1 s)
  show ?case
  proof (cases "s \<noteq> [] \<and> is_space (last s)")
    case True
    then obtain xs x where "s = xs @ [x]" "is_space x" by (cases s rule: rev_cases) auto
    then show ?thesis using 1 True by (subst trim_right.simps) simp
  next
    case False
    then have "dropWhile is_space (rev s) = rev s" by (cases s rule: rev_cases) auto
    then show ?thesis using False by (subst trim_right.simps) auto
  qed
qed

lemma skip_spaces_drop:
  assumes "fin \<le> length mm" "colon \<le> fin"
  shows "\<exists>c. skip_spaces mm colon fin = Inr c \<and> c \<le> fin \<and>
    take (fin - c) (drop c mm) = dropWhile is_space (take (fin - colon) (drop colon mm))"
  using assms
proof (induction mm colon fin rule: skip_spaces.induct)
  case (1 mm colon fin)
  show ?case
  proof (cases "colon < fin")
    case False
    then show ?thesis using 1 by (subst skip_spaces.simps) auto
  next
    case True
    then have split: "take (fin - colon) (drop colon mm) = mm ! colon # take (fin - Suc colon) (drop (Suc colon) mm)"
      using 1(2) by (metis Cons_nth_drop_Suc Suc_diff_Suc less_le_trans take_Suc_Cons)
    show ?thesis
    proof (cases "is_space (mm ! colon)")
      case sp: True
      then show ?thesis using 1 True by (subst skip_spaces.simps) (simp add: split)
    next
      case False
      then show ?thesis using 1 True by (subst skip_spaces.simps) (simp add: split)
    qed
  qed
qed

text \<open>What \<^verbatim>\<open>addHeader\<close> stores, for a colon inside the line.\<close>

lemma addHeader_ok:
  assumes "start \<le> colon" "colon < fin" "fin \<le> length mm"
  shows "addHeader mm start colon fin r = Inr (r\<lparr>rq_headers := map_put (rq_headers r)
    (take (colon - start) (drop start mm)) (strip (take (fin - Suc colon) (drop (Suc colon) mm)))\<rparr>)"
proof -
  obtain c where c: "skip_spaces mm (Suc colon) fin = Inr c" "c \<le> fin"
    "take (fin - c) (drop c mm) = dropWhile is_space (take (fin - Suc colon) (drop (Suc colon) mm))"
    using skip_spaces_drop [OF assms(3), of "Suc colon"] assms(2) by auto
  then show ?thesis
    using assms by (simp add: addHeader_def str_range_def strip_def trim_right_eq)
qed

lemma addHeader_reversed: "addHeader mm start fin fin r = Inl LengthError" if "start \<le> fin" "fin \<le> length mm"
  using that by (subst addHeader_def, subst skip_spaces.simps) (simp add: str_range_def)

lemma setMethod_ok:
  assumes "rq_method r = kInvalid" "start \<le> fin" "fin \<le> length mm" "m = take (fin - start) (drop start mm)"
  shows "\<exists>r'. setMethod mm start fin r = Inr (m \<in> {''GET'', ''POST'', ''HEAD'', ''PUT'', ''DELETE''}, r') \<and>
    methodString r' = (if m \<in> {''GET'', ''POST'', ''HEAD'', ''PUT'', ''DELETE''} then m else ''UNKNOWN'')"
  using assms by (simp add: setMethod_def str_range_def methodString_def Let_def)

lemma HttpRequest_swap_eq: "HttpRequest_swap a b = (b, a)"
  by (simp add: HttpRequest_swap_def Timestamp_swap_def)

lemma hc_reset_new: "hc_reset c = HttpContext_new"
  by (simp add: hc_reset_def HttpRequest_swap_eq HttpContext_new_def Let_def)

end
