(* ===== verification/Proto_Rpc.thy ===== *)
theory Proto_Rpc
  imports Http Tcp_Net
begin

text \<open>
  \<^verbatim>\<open>muduo/net/protobuf/ProtobufCodecLite.h\<close> and \<^verbatim>\<open>muduo/net/protorpc\<close>, with the data of
  \<^verbatim>\<open>Inspector.h\<close>, \<^verbatim>\<open>Curl.h\<close> and \<^verbatim>\<open>Resolver.h\<close>, as far as the headers hold code. Messages of
  protobuf are a type parameter \<open>'m\<close>, concrete messages \<open>'c\<close>; the members of the codec that are
  only declared, and the functions of libcurl, are arguments. The lemmas give the minimal length
  of a message and that the typed codec hands each message of its type to its callback.
\<close>

section \<open>ProtobufCodecLite.h\<close>

definition kHeaderLen :: int where "kHeaderLen = 4"
definition kChecksumLen :: int where "kChecksumLen = 4"
definition kMaxMessageLen :: int where "kMaxMessageLen = 64 * 1024 * 1024"

datatype ErrorCode = kNoError | kInvalidLength | kCheckSumError | kInvalidNameLen | kUnknownMessageType | kParseError

record ('m, 'mcb, 'rcb, 'ecb) ProtobufCodecLite =
  pc_prototype :: "'m option"
  pc_tag :: "BYTE list"
  pc_messageCallback :: "'mcb std_function"
  pc_rawCb :: "'rcb std_function"
  pc_errorCallback :: "'ecb std_function"
  pc_kMinMessageLen :: int

definition ProtobufCodecLite_new :: "'m option \<Rightarrow> StringPiece \<Rightarrow> 'mcb std_function \<Rightarrow> 'rcb std_function \<Rightarrow>
    'ecb std_function \<Rightarrow> ('m, 'mcb, 'rcb, 'ecb) ProtobufCodecLite result" where
  "ProtobufCodecLite_new prototype tagArg messageCb rawCb errorCb =
     bnd (sp_as_string tagArg) (\<lambda>s.
       Inr \<lparr>pc_prototype = prototype, pc_tag = s, pc_messageCallback = messageCb, pc_rawCb = rawCb,
            pc_errorCallback = errorCb, pc_kMinMessageLen = sp_size tagArg + kChecksumLen\<rparr>)"

definition pc_get_tag :: "('m, 'mcb, 'rcb, 'ecb) ProtobufCodecLite \<Rightarrow> BYTE list" where
  "pc_get_tag c = pc_tag c"

text \<open>
  The typed codec. \<open>TOnRpcMessage\<close> is the bound member function that it gives to the codec it
  wraps; a callback of the user works on a state \<open>'w\<close>.
\<close>

datatype codec_target = TOnRpcMessage

type_synonym ('c, 'w) typed_callback = "nat \<Rightarrow> 'c option \<Rightarrow> Timestamp \<Rightarrow> 'w \<Rightarrow> 'w"

record ('m, 'c, 'rcb, 'ecb, 'w) ProtobufCodecLiteT =
  pt_messageCallback :: "('c, 'w) typed_callback option"
  pt_codec :: "('m, codec_target, 'rcb, 'ecb) ProtobufCodecLite"

definition ProtobufCodecLiteT_new :: "'m \<Rightarrow> BYTE list option \<Rightarrow> ('c, 'w) typed_callback option \<Rightarrow> 'rcb std_function \<Rightarrow>
    'ecb std_function \<Rightarrow> ('m, 'c, 'rcb, 'ecb, 'w) ProtobufCodecLiteT result" where
  "ProtobufCodecLiteT_new default_instance TAG messageCb rawCb errorCb =
     bnd (StringPiece_cstr TAG) (\<lambda>tag.
     bnd (ProtobufCodecLite_new (Some default_instance) tag (Some TOnRpcMessage) rawCb errorCb) (\<lambda>c.
       Inr \<lparr>pt_messageCallback = messageCb, pt_codec = c\<rparr>))"

definition pt_tag :: "('m, 'c, 'rcb, 'ecb, 'w) ProtobufCodecLiteT \<Rightarrow> BYTE list" where
  "pt_tag c = pc_get_tag (pt_codec c)"

text \<open>\<open>snd_f\<close>, \<open>msg_f\<close> and \<open>fill_f\<close> are the members of the wrapped codec that the calls go to.\<close>

definition pt_send :: "(('m, codec_target, 'rcb, 'ecb) ProtobufCodecLite \<Rightarrow> nat \<Rightarrow> 'c \<Rightarrow> 's \<Rightarrow> 's) \<Rightarrow> nat \<Rightarrow> 'c \<Rightarrow>
    ('m, 'c, 'rcb, 'ecb, 'w) ProtobufCodecLiteT \<Rightarrow> 's \<Rightarrow> 's" where
  "pt_send snd_f conn message c s = snd_f (pt_codec c) conn message s"

definition pt_onMessage :: "(('m, codec_target, 'rcb, 'ecb) ProtobufCodecLite \<Rightarrow> nat \<Rightarrow> Buffer \<Rightarrow> Timestamp \<Rightarrow> 's \<Rightarrow> Buffer \<times> 's) \<Rightarrow>
    nat \<Rightarrow> Buffer \<Rightarrow> Timestamp \<Rightarrow> ('m, 'c, 'rcb, 'ecb, 'w) ProtobufCodecLiteT \<Rightarrow> 's \<Rightarrow> Buffer \<times> 's" where
  "pt_onMessage msg_f conn buf ts c s = msg_f (pt_codec c) conn buf ts s"

definition pt_fillEmptyBuffer :: "(('m, codec_target, 'rcb, 'ecb) ProtobufCodecLite \<Rightarrow> Buffer \<Rightarrow> 'c \<Rightarrow> Buffer result) \<Rightarrow>
    Buffer \<Rightarrow> 'c \<Rightarrow> ('m, 'c, 'rcb, 'ecb, 'w) ProtobufCodecLiteT \<Rightarrow> Buffer result" where
  "pt_fillEmptyBuffer fill_f buf message c = fill_f (pt_codec c) buf message"

text \<open>\<open>dyn\<close> is the dynamic type test from messages to the concrete type.\<close>

definition onRpcMessage :: "('m \<Rightarrow> 'c option) \<Rightarrow> nat \<Rightarrow> 'm option \<Rightarrow> Timestamp \<Rightarrow>
    ('m, 'c, 'rcb, 'ecb, 'w) ProtobufCodecLiteT \<Rightarrow> 'w \<Rightarrow> 'w result" where
  "onRpcMessage dyn conn message ts c w =
     bnd (down_pointer_cast dyn message) (\<lambda>m.
       case pt_messageCallback c of None \<Rightarrow> Inl BadFunctionCall | Some f \<Rightarrow> Inr (f conn m ts w))"

section \<open>protorpc\<close>

record ('m, 'k) OutstandingCall =
  oc_response :: "'m option"
  oc_done :: "'k option"

record ('m, 'k, 'codec, 'v) RpcChannel =
  rc_codec :: 'codec
  rc_conn :: "nat option"
  rc_id :: "64 word AtomicIntegerT"
  rc_mutex :: MutexLock
  rc_outstandings :: "(int, ('m, 'k) OutstandingCall) std_map"
  rc_services :: "(string, 'v) std_map option"

definition setConnection :: "nat option \<Rightarrow> ('m, 'k, 'codec, 'v) RpcChannel \<Rightarrow> ('m, 'k, 'codec, 'v) RpcChannel" where
  "setConnection conn c = c\<lparr>rc_conn := conn\<rparr>"

definition setServices :: "(string, 'v) std_map option \<Rightarrow> ('m, 'k, 'codec, 'v) RpcChannel \<Rightarrow>
    ('m, 'k, 'codec, 'v) RpcChannel" where
  "setServices services c = c\<lparr>rc_services := services\<rparr>"

record ('f, 'v) RpcServer =
  rpcs_server :: "'f TcpServer"
  rpcs_services :: "(string, 'v) std_map"

definition rpcs_setThreadNum :: "(int \<Rightarrow> 'f TcpServer \<Rightarrow> 'f TcpServer) \<Rightarrow> int \<Rightarrow> ('f, 'v) RpcServer \<Rightarrow> ('f, 'v) RpcServer" where
  "rpcs_setThreadNum set_threads n s = s\<lparr>rpcs_server := set_threads n (rpcs_server s)\<rparr>"

section \<open>Inspector.h, Curl.h, Resolver.h\<close>

record ('f, 'h, 'cb, 'pi, 'fi, 'si) Inspector =
  in_server :: "('f, 'h) HttpServer"
  in_processInspector :: "'pi option"
  in_performanceInspector :: "'fi option"
  in_systemInspector :: "'si option"
  in_mutex :: MutexLock
  in_modules :: "(string, (string, 'cb) std_map) std_map"
  in_helps :: "(string, (string, string) std_map) std_map"

record ('d, 'n) CurlRequest =
  cr_owner :: nat
  cr_curl :: nat
  cr_channel :: "nat option"
  cr_dataCb :: "'d std_function"
  cr_headerCb :: "'d std_function"
  cr_doneCb :: "'n std_function"

definition setDataCallback :: "'d std_function \<Rightarrow> ('d, 'n) CurlRequest \<Rightarrow> ('d, 'n) CurlRequest" where
  "setDataCallback cb r = r\<lparr>cr_dataCb := cb\<rparr>"

definition setDoneCallback :: "'n std_function \<Rightarrow> ('d, 'n) CurlRequest \<Rightarrow> ('d, 'n) CurlRequest" where
  "setDoneCallback cb r = r\<lparr>cr_doneCb := cb\<rparr>"

definition setHeaderCallback :: "'d std_function \<Rightarrow> ('d, 'n) CurlRequest \<Rightarrow> ('d, 'n) CurlRequest" where
  "setHeaderCallback cb r = r\<lparr>cr_headerCb := cb\<rparr>"

text \<open>The four overloads differ in the type of the value only.\<close>

definition setopt :: "(nat \<Rightarrow> 'o \<Rightarrow> 'v \<Rightarrow> 's \<Rightarrow> int \<times> 's) \<Rightarrow> 'o \<Rightarrow> 'v \<Rightarrow> ('d, 'n) CurlRequest \<Rightarrow> 's \<Rightarrow> int \<times> 's" where
  "setopt curl_easy_setopt opt p r s = curl_easy_setopt (cr_curl r) opt p s"

definition getCurl :: "('d, 'n) CurlRequest \<Rightarrow> nat" where
  "getCurl r = cr_curl r"

definition getChannel :: "('d, 'n) CurlRequest \<Rightarrow> nat option" where
  "getChannel r = get_pointer (cr_channel r)"

datatype CurlOption = kCURLnossl | kCURLssl

record Curl =
  cu_loop :: nat
  cu_curlm :: nat
  cu_runningHandles :: int
  cu_prevRunningHandles :: int

definition getCurlm :: "Curl \<Rightarrow> nat" where
  "getCurlm c = cu_curlm c"

definition cu_getLoop :: "Curl \<Rightarrow> nat" where
  "cu_getLoop c = cu_loop c"

datatype ResolverOption = kDNSandHostsFile | kDNSonly

record 'cb QueryData =
  qd_owner :: nat
  qd_callback :: "'cb std_function"

definition QueryData_new :: "nat \<Rightarrow> 'cb std_function \<Rightarrow> 'cb QueryData" where
  "QueryData_new o' cb = \<lparr>qd_owner = o', qd_callback = cb\<rparr>"

record 'ctx Resolver =
  re_loop :: nat
  re_ctx :: 'ctx
  re_timerActive :: bool
  re_channels :: "(int, nat) std_map"

section \<open>Lemmas\<close>

lemma ProtobufCodecLite_min_len:
  assumes "sp_ok tag" "ProtobufCodecLite_new prototype tag m r e = Inr c"
  shows "pc_kMinMessageLen c = int (length (pc_get_tag c)) + kChecksumLen"
proof -
  have "length (sp_bytes tag) = nat (sp_length tag)" "0 \<le> sp_length tag"
    using assms(1) by (auto simp: sp_ok_def sp_bytes_def split: option.splits)
  then show ?thesis
    using assms by (auto simp: ProtobufCodecLite_new_def sp_as_string_ok bnd_eq_Inr pc_get_tag_def sp_size_def)
qed

lemma onRpcMessage_delivers:
  assumes "ProtobufCodecLiteT_new d TAG (Some f) r e = Inr c" "dyn m = Some v"
  shows "onRpcMessage dyn conn (Some m) ts c w = Inr (f conn (Some v) ts w)"
  using assms by (auto simp: ProtobufCodecLiteT_new_def onRpcMessage_def down_pointer_cast_def get_pointer_def bnd_eq_Inr)

lemma onRpcMessage_wrong_type: "dyn m = None \<Longrightarrow> onRpcMessage dyn conn (Some m) ts c w = Inl AssertFail"
  by (simp add: onRpcMessage_def down_pointer_cast_def get_pointer_def)

end
