(* ===== verification/Sql_Tests.thy ===== *)
theory Sql_Tests
  imports Pets
begin

text \<open>
  The remaining members of \<^verbatim>\<open>MySqlModule/MysqlQuery.cpp\<close>: the destructors, the accessor of the
  singleton and the two functions its authors test with. \<open>addrs\<close> are the addresses of the
  four variables that \<^verbatim>\<open>readMysqlStmt\<close> binds; its output is the list of printed rows.
\<close>

section \<open>Destructors and the singleton\<close>

definition QueryResult_dtor :: "'db mysql_lib \<Rightarrow> QueryResult \<Rightarrow> 'db \<Rightarrow> 'db result" where
  "QueryResult_dtor L qr db = qr_Release L qr db"

text \<open>The destructor of the collector deletes the singleton.\<close>

definition GarbageCollection_dtor :: "'db mysql_lib \<Rightarrow> ('db, 'w) sql_sys \<Rightarrow> ('db, 'w) sql_sys" where
  "GarbageCollection_dtor L S = (case MyQuery_dtor L (ss_query S) (ss_db S) of (q, db) \<Rightarrow> S\<lparr>ss_query := q, ss_db := db\<rparr>)"

definition GetQueryInstance :: "('db, 'w) sql_sys \<Rightarrow> MyQuery" where
  "GetQueryInstance S = ss_query S"

section \<open>readMysqlStmt\<close>

record stmt_vars =
  sv_staticid :: mem_addr
  sv_account :: mem_addr
  sv_password :: mem_addr
  sv_buffer :: mem_addr

type_synonym stmt_line = "int \<times> string \<times> string"

text \<open>What the loop prints: the number and the two character arrays as C strings.\<close>

definition stmt_row :: "stmt_vars \<Rightarrow> mem \<Rightarrow> stmt_line result" where
  "stmt_row v mm =
     bnd (c_str (mm (sv_account v))) (\<lambda>a. bnd (c_str (mm (sv_password v))) (\<lambda>p.
       Inr (sint (mem_long mm (sv_staticid v)), a, p)))"

partial_function (option) read_fetch :: "'db mysql_lib \<Rightarrow> QueryBind \<Rightarrow> QueryResult \<Rightarrow> stmt_vars \<Rightarrow> stmt_line list \<Rightarrow>
    'db \<Rightarrow> mem \<Rightarrow> (stmt_line list \<times> 'db \<times> mem) result option" where
  "read_fetch L binds qr v rows db mm =
     (case FetchResult_bind L binds qr db mm of
        Inl e \<Rightarrow> Some (Inl e)
      | Inr r \<Rightarrow>
          (case r of (code, db1, mm1) \<Rightarrow>
             if code \<noteq> 0 then Some (Inr (rows, db1, mm1))
             else case stmt_row v mm1 of
                    Inl e \<Rightarrow> Some (Inl e)
                  | Inr row \<Rightarrow> read_fetch L binds qr v (rows @ [row]) db1 mm1))"

definition read_binds :: "stmt_vars \<Rightarrow> QueryBind \<Rightarrow> QueryBind result" where
  "read_binds v b =
     bnd (BindLong (sv_staticid v) b 0) (\<lambda>b. bnd (BindString (sv_account v) 20 b 1) (\<lambda>b.
     bnd (BindString (sv_password v) 33 b 2) (\<lambda>b. BindBlob (sv_buffer v) 1024 b 3)))"

definition READ_QUERY :: string where
  "READ_QUERY = ''select * from Pets where Account = '' @ [CHR 0x27] @ ''TEST'' @ [CHR 0x27] @ '' ''"

definition readMysqlStmt :: "'db mysql_lib \<Rightarrow> stmt_vars \<Rightarrow> MYSQL_BIND \<Rightarrow> nat \<Rightarrow> bool \<Rightarrow> MyQuery \<Rightarrow> 'db \<Rightarrow> mem \<Rightarrow>
    (stmt_line list \<times> MyQuery \<times> 'db \<times> mem) result option" where
  "readMysqlStmt L v jb jl jn q db mm =
     (case ExecuteStmt L (Some READ_QUERY) QueryResult_new Arguments_default q db of
        Inl e \<Rightarrow> Some (Inl e)
      | Inr (code, qr, q1, db1) \<Rightarrow>
          if code \<noteq> 0 then Some (bnd (QueryResult_dtor L qr db1) (\<lambda>db2. Inr ([], q1, db2, mm)))
          else
            (let mm1 = mm(sv_staticid v := replicate 8 0, sv_account v := replicate 20 0, sv_password v := replicate 33 0)
             in case read_binds v (QueryBind_new jb jl jn 4) of
                  Inl e \<Rightarrow> Some (Inl e)
                | Inr binds \<Rightarrow>
                    (case read_fetch L binds (qr\<lparr>qr_binds := Some (GetBind binds)\<rparr>) v [] db1 mm1 of
                       None \<Rightarrow> None
                     | Some r \<Rightarrow> Some (bnd r (\<lambda>(rows, db2, mm2).
                         bnd (QueryResult_dtor L qr db2) (\<lambda>db3. Inr (rows, q1, db3, mm2)))))))"

section \<open>testProcedure\<close>

definition testProcedure :: "'db mysql_lib \<Rightarrow> float_lib \<Rightarrow> (string \<Rightarrow> string \<Rightarrow> string) \<Rightarrow> ('db, 'w) sql_sys \<Rightarrow>
    ('db, 'w) sql_sys result" where
  "testProcedure L F paramlist S =
     ExecuteSentence L F paramlist
       (Some \<lparr>pack_type = SQL_PROCEDURE_TYPE, sentence = Some ''p_test'', pack_union = UAny (Some [SAEmpty]),
              sql_callback = None, paramNums = 1\<rparr>) S"

section \<open>The rows it prints\<close>

text \<open>A statement whose fetches deliver the rows \<open>rest db\<close> one after the other and then fail.\<close>

definition row_feed :: "'db mysql_lib \<Rightarrow> nat \<Rightarrow> stmt_vars \<Rightarrow> ('db \<Rightarrow> stmt_line list) \<Rightarrow> bool" where
  "row_feed L st v rest \<longleftrightarrow>
     (\<forall>b db. mysql_stmt_bind_result L st b db = (0, db)) \<and>
     (\<forall>db mm. case rest db of
        [] \<Rightarrow> fst (mysql_stmt_fetch L st db mm) \<noteq> 0
      | r # rs \<Rightarrow> \<exists>db' mm'. mysql_stmt_fetch L st db mm = (0, db', mm') \<and> rest db' = rs \<and> stmt_row v mm' = Inr r)"

lemma row_feed_fetch:
  "row_feed L st v rest \<Longrightarrow>
    (case rest db of
        [] \<Rightarrow> fst (mysql_stmt_fetch L st db mm) \<noteq> 0
      | r # rs \<Rightarrow> \<exists>db' mm'. mysql_stmt_fetch L st db mm = (0, db', mm') \<and> rest db' = rs \<and> stmt_row v mm' = Inr r)"
  unfolding row_feed_def by blast

lemma read_fetch_rows:
  assumes "row_feed L st v rest" "qr_stmt qr = Some st" "num_fields qr = ucast (m_paramNumbers binds)"
  shows "\<exists>db' mm'. read_fetch L binds qr v rows db mm = Some (Inr (rows @ rest db, db', mm'))"
proof (induction "rest db" arbitrary: db mm rows)
  case Nil
  obtain code db1 mm1 where "mysql_stmt_fetch L st db mm = (code, db1, mm1)" by (cases "mysql_stmt_fetch L st db mm") auto
  moreover have "fst (mysql_stmt_fetch L st db mm) \<noteq> 0"
    using row_feed_fetch [OF assms(1), of db mm] Nil [symmetric] by simp
  ultimately show ?case
    using assms Nil [symmetric]
    by (subst read_fetch.simps) (simp add: FetchResult_bind_def row_feed_def GetParamNumCounter_def)
next
  case (Cons r rs)
  obtain db1 mm1 where f: "mysql_stmt_fetch L st db mm = (0, db1, mm1)" "rest db1 = rs" "stmt_row v mm1 = Inr r"
    using row_feed_fetch [OF assms(1), of db mm] Cons.hyps(2) [symmetric] by auto
  then have "read_fetch L binds qr v rows db mm = read_fetch L binds qr v (rows @ [r]) db1 mm1"
    using assms by (subst read_fetch.simps) (simp add: FetchResult_bind_def row_feed_def GetParamNumCounter_def)
  then show ?case using Cons.hyps(1) [of db1 "rows @ [r]" mm1] f(2) Cons.hyps(2) by (metis append.assoc append_Cons append_Nil)
qed

end
