(* ===== verification/Sql_System.thy ===== *)
theory Sql_System
  imports Sql_Loop Lock_Discipline
begin

text \<open>
  The task queue of \<^verbatim>\<open>MyQuery\<close> as an interleaving: any number of threads call
  \<^verbatim>\<open>Pet::PrepareSQL\<close> (lock, push, unlock, \<^verbatim>\<open>notify_one\<close> after the unlock), and the SQL thread
  \<open>mt\<close> runs \<^verbatim>\<open>MyQuery::MysqlLoop\<close>: it waits on \<^verbatim>\<open>m_cv\<close> for a task, executes all tasks and sleeps
  500 ms, holding \<^verbatim>\<open>m_sqlQueueMtx\<close> from the wait to the end of the sleep. One step is one access
  to the shared state; the execution of a statement is one step, made under the lock. \<open>sq_in\<close>
  and \<open>sq_out\<close> record the packs in the order they are pushed and popped.
\<close>

section \<open>Threads\<close>

datatype ('db, 'w) spc = QIdle | QWant "('db, 'w) SqlPack" | QHeld "('db, 'w) SqlPack" | QPushed | QNotify
  | MTop | MWant | MTest | MSleep | MDrain | MPack "('db, 'w) SqlPack" | MRest | MLeave | MGone

fun s_holds :: "('db, 'w) spc \<Rightarrow> bool" where
  "s_holds (QHeld p) = True"
| "s_holds QPushed = True"
| "s_holds MTest = True"
| "s_holds MDrain = True"
| "s_holds (MPack p) = True"
| "s_holds MRest = True"
| "s_holds MLeave = True"
| "s_holds _ = False"

fun in_loop :: "('db, 'w) spc \<Rightarrow> bool" where
  "in_loop QIdle = False"
| "in_loop (QWant p) = False"
| "in_loop (QHeld p) = False"
| "in_loop QPushed = False"
| "in_loop QNotify = False"
| "in_loop _ = True"

text \<open>Awake in the loop, or with a notification still to make.\<close>

fun s_busy :: "('db, 'w) spc \<Rightarrow> bool" where
  "s_busy QPushed = True"
| "s_busy QNotify = True"
| "s_busy MSleep = False"
| "s_busy p = in_loop p"

fun s_slp :: "('db, 'w) spc \<Rightarrow> bool" where
  "s_slp MSleep = True"
| "s_slp _ = False"

record ('db, 'w) sq_sys =
  sq_obj :: "('db, 'w) sql_sys"
  sq_pc :: "int \<Rightarrow> ('db, 'w) spc"
  sq_in :: "('db, 'w) SqlPack list"
  sq_out :: "('db, 'w) SqlPack list"
  sq_fault :: "fault option"

definition sq_init :: "('db, 'w) sql_sys \<Rightarrow> int \<Rightarrow> ('db, 'w) sq_sys \<Rightarrow> bool" where
  "sq_init S0 mt s \<longleftrightarrow> ss_queue S0 = [] \<and> ss_mtx S0 = MutexLock_new \<and> ss_cv S0 = Condition_new \<and>
     s = \<lparr>sq_obj = S0, sq_pc = (\<lambda>_. QIdle)(mt := MTop), sq_in = [], sq_out = [], sq_fault = None\<rparr>"

definition sq_goto :: "int \<Rightarrow> ('db, 'w) spc \<Rightarrow> ('db, 'w) sql_sys \<Rightarrow> ('db, 'w) sq_sys \<Rightarrow> ('db, 'w) sq_sys" where
  "sq_goto t p S s = s\<lparr>sq_obj := S, sq_pc := (sq_pc s)(t := p)\<rparr>"

inductive sq_step :: "'db mysql_lib \<Rightarrow> float_lib \<Rightarrow> (string \<Rightarrow> string \<Rightarrow> string) \<Rightarrow> ('db, 'w) sq_sys \<Rightarrow> ('db, 'w) sq_sys \<Rightarrow> bool"
  for L F pl where
  sq_call: "sq_fault s = None \<Longrightarrow> sq_pc s t = QIdle \<Longrightarrow> sq_step L F pl s (sq_goto t (QWant pack) (sq_obj s) s)"
| sq_lock: "sq_fault s = None \<Longrightarrow> sq_pc s t = QWant pack \<Longrightarrow> mutex_lock t (ss_mtx (sq_obj s)) = Some m \<Longrightarrow>
    sq_step L F pl s (sq_goto t (QHeld pack) ((sq_obj s)\<lparr>ss_mtx := m\<rparr>) s)"
| sq_put: "sq_fault s = None \<Longrightarrow> sq_pc s t = QHeld pack \<Longrightarrow>
    sq_step L F pl s (sq_goto t QPushed ((sq_obj s)\<lparr>ss_queue := ss_queue (sq_obj s) @ [pack]\<rparr>) (s\<lparr>sq_in := sq_in s @ [pack]\<rparr>))"
| sq_unlock: "sq_fault s = None \<Longrightarrow> sq_pc s t = QPushed \<Longrightarrow> mutex_unlock t (ss_mtx (sq_obj s)) = Inr m \<Longrightarrow>
    sq_step L F pl s (sq_goto t QNotify ((sq_obj s)\<lparr>ss_mtx := m\<rparr>) s)"
| sq_notify: "sq_fault s = None \<Longrightarrow> sq_pc s t = QNotify \<Longrightarrow>
    sq_step L F pl s (sq_goto t QIdle ((sq_obj s)\<lparr>ss_cv := cond_notify pick (ss_cv (sq_obj s))\<rparr>) s)"
| sq_top: "sq_fault s = None \<Longrightarrow> sq_pc s t = MTop \<Longrightarrow> \<not> sql_exitFlag (ss_query (sq_obj s)) \<Longrightarrow>
    sq_step L F pl s (sq_goto t MWant (sq_obj s) s)"
| sq_exit: "sq_fault s = None \<Longrightarrow> sq_pc s t = MTop \<Longrightarrow> sql_exitFlag (ss_query (sq_obj s)) \<Longrightarrow>
    sq_step L F pl s (sq_goto t MGone (sq_obj s) s)"
| sq_mlock: "sq_fault s = None \<Longrightarrow> sq_pc s t = MWant \<Longrightarrow> mutex_lock t (ss_mtx (sq_obj s)) = Some m \<Longrightarrow>
    sq_step L F pl s (sq_goto t MTest ((sq_obj s)\<lparr>ss_mtx := m\<rparr>) s)"
| sq_wait: "sq_fault s = None \<Longrightarrow> sq_pc s t = MTest \<Longrightarrow> ss_queue (sq_obj s) = [] \<Longrightarrow>
    cond_wait_begin t (ss_mtx (sq_obj s)) (ss_cv (sq_obj s)) = Inr (m, c) \<Longrightarrow>
    sq_step L F pl s (sq_goto t MSleep ((sq_obj s)\<lparr>ss_mtx := m, ss_cv := c\<rparr>) s)"
| sq_spurious: "sq_fault s = None \<Longrightarrow> t \<in> set (cond_waiters (ss_cv (sq_obj s))) \<Longrightarrow>
    sq_step L F pl s (s\<lparr>sq_obj := (sq_obj s)\<lparr>ss_cv :=
      (ss_cv (sq_obj s))\<lparr>cond_waiters := remove1 t (cond_waiters (ss_cv (sq_obj s)))\<rparr>\<rparr>\<rparr>)"
| sq_wake: "sq_fault s = None \<Longrightarrow> sq_pc s t = MSleep \<Longrightarrow>
    cond_wait_end t (ss_mtx (sq_obj s)) (ss_cv (sq_obj s)) = Some m \<Longrightarrow>
    sq_step L F pl s (sq_goto t MTest ((sq_obj s)\<lparr>ss_mtx := m\<rparr>) s)"
| sq_ready: "sq_fault s = None \<Longrightarrow> sq_pc s t = MTest \<Longrightarrow> ss_queue (sq_obj s) \<noteq> [] \<Longrightarrow>
    sq_step L F pl s (sq_goto t MDrain (sq_obj s) s)"
| sq_get: "sq_fault s = None \<Longrightarrow> sq_pc s t = MDrain \<Longrightarrow> GetSqlPack (sq_obj s) = (Some pack, S) \<Longrightarrow>
    sq_step L F pl s (sq_goto t (MPack pack) S (s\<lparr>sq_out := sq_out s @ [pack]\<rparr>))"
| sq_empty: "sq_fault s = None \<Longrightarrow> sq_pc s t = MDrain \<Longrightarrow> ss_queue (sq_obj s) = [] \<Longrightarrow>
    sq_step L F pl s (sq_goto t MRest (sq_obj s) s)"
| sq_skip: "sq_fault s = None \<Longrightarrow> sq_pc s t = MPack pack \<Longrightarrow> union_null (pack_union pack) \<Longrightarrow>
    sq_step L F pl s (sq_goto t MDrain (sq_obj s) s)"
| sq_exec: "sq_fault s = None \<Longrightarrow> sq_pc s t = MPack pack \<Longrightarrow> \<not> union_null (pack_union pack) \<Longrightarrow>
    ExecuteSentence L F pl (Some pack) (sq_obj s) = Inr S \<Longrightarrow>
    sq_step L F pl s (sq_goto t MDrain (S\<lparr>ss_freed := ss_freed S @ release_pack pack\<rparr>) s)"
| sq_exec_fault: "sq_fault s = None \<Longrightarrow> sq_pc s t = MPack pack \<Longrightarrow> \<not> union_null (pack_union pack) \<Longrightarrow>
    ExecuteSentence L F pl (Some pack) (sq_obj s) = Inl e \<Longrightarrow> sq_step L F pl s (s\<lparr>sq_fault := Some e\<rparr>)"
| sq_rest: "sq_fault s = None \<Longrightarrow> sq_pc s t = MRest \<Longrightarrow> sq_step L F pl s (sq_goto t MLeave (sq_obj s) s)"
| sq_leave: "sq_fault s = None \<Longrightarrow> sq_pc s t = MLeave \<Longrightarrow> mutex_unlock t (ss_mtx (sq_obj s)) = Inr m \<Longrightarrow>
    sq_step L F pl s (sq_goto t MTop ((sq_obj s)\<lparr>ss_mtx := m\<rparr>) s)"

interpretation sqp: lock_places s_holds QIdle
  by unfold_locales simp

interpretation sqw: wait_class s_holds QIdle s_busy s_slp
proof
  fix p :: "('a, 'b) spc"
  show "s_busy p \<Longrightarrow> \<not> s_slp p" by (cases p) simp_all
  show "s_slp p \<Longrightarrow> \<not> s_holds p" by (cases p) simp_all
qed simp_all

section \<open>The sequential execution\<close>

definition run_one :: "'db mysql_lib \<Rightarrow> float_lib \<Rightarrow> (string \<Rightarrow> string \<Rightarrow> string) \<Rightarrow> ('db, 'w) SqlPack \<Rightarrow> ('db, 'w) sql_sys \<Rightarrow>
    ('db, 'w) sql_sys result" where
  "run_one L F pl pack S =
     (if union_null (pack_union pack) then Inr S
      else bnd (ExecuteSentence L F pl (Some pack) S) (\<lambda>S1. Inr (S1\<lparr>ss_freed := ss_freed S1 @ release_pack pack\<rparr>)))"

fun run_seq :: "'db mysql_lib \<Rightarrow> float_lib \<Rightarrow> (string \<Rightarrow> string \<Rightarrow> string) \<Rightarrow> ('db, 'w) SqlPack list \<Rightarrow> ('db, 'w) sql_sys \<Rightarrow>
    ('db, 'w) sql_sys result" where
  "run_seq L F pl [] S = Inr S"
| "run_seq L F pl (pack # ps) S = bnd (run_one L F pl pack S) (run_seq L F pl ps)"

lemma run_seq_append: "run_seq L F pl (ps @ qs) S = bnd (run_seq L F pl ps S) (run_seq L F pl qs)"
  by (induction ps arbitrary: S) (auto simp: bnd_def split: sum.split)

text \<open>What a statement does depends on neither the queue, the lock nor the condition variable.\<close>

definition with_sync :: "('db, 'w) SqlPack list \<Rightarrow> MutexLock \<Rightarrow> Condition \<Rightarrow> ('db, 'w) sql_sys \<Rightarrow> ('db, 'w) sql_sys" where
  "with_sync q m c S = S\<lparr>ss_queue := q, ss_mtx := m, ss_cv := c\<rparr>"

definition synced :: "('db, 'w) SqlPack list \<Rightarrow> MutexLock \<Rightarrow> Condition \<Rightarrow> ('db, 'w) sql_sys result \<Rightarrow> ('db, 'w) sql_sys result" where
  "synced q m c r = bnd r (\<lambda>S. Inr (with_sync q m c S))"

lemma run_callback_sync:
  "run_callback pack qr (with_sync q m c S) = bnd (run_callback pack qr S) (\<lambda>(qr, S'). Inr (qr, with_sync q m c S'))"
  by (auto simp: run_callback_def with_sync_def bnd_def split: option.split sum.split)

lemma clear_helper_sync: "clear_helper L p (with_sync q m c S) = synced q m c (clear_helper L p S)"
  by (auto simp: clear_helper_def with_sync_def synced_def bnd_def split: sum.split)

lemma with_sync_upd [simp]:
  "(with_sync q m c S)\<lparr>ss_db := d\<rparr> = with_sync q m c (S\<lparr>ss_db := d\<rparr>)"
  "(with_sync q m c S)\<lparr>ss_query := y\<rparr> = with_sync q m c (S\<lparr>ss_query := y\<rparr>)"
  "(with_sync q m c S)\<lparr>ss_helper := h\<rparr> = with_sync q m c (S\<lparr>ss_helper := h\<rparr>)"
  "(with_sync q m c S)\<lparr>ss_freed := f\<rparr> = with_sync q m c (S\<lparr>ss_freed := f\<rparr>)"
  "ss_db (with_sync q m c S) = ss_db S" "ss_query (with_sync q m c S) = ss_query S" "ss_helper (with_sync q m c S) = ss_helper S"
  "ss_freed (with_sync q m c S) = ss_freed S" "ss_queue (with_sync q m c S) = q" "ss_mtx (with_sync q m c S) = m"
  "ss_cv (with_sync q m c S) = c" "with_sync q m c (with_sync q' m' c' S) = with_sync q m c S"
  by (simp_all add: with_sync_def)

lemma bnd_if: "bnd (if b then x else y) g = (if b then bnd x g else bnd y g)"
  by simp

lemmas sync_simps = bnd_assoc bnd_if case_prod_unfold clear_helper_sync run_callback_sync synced_def

lemma ExecuteProcedure_sync:
  "ExecuteProcedure L F pl pack (with_sync q m c S) =
     bnd (ExecuteProcedure L F pl pack S) (\<lambda>(b, S'). Inr (b, with_sync q m c S'))"
  by (simp add: ExecuteProcedure_def Let_def sync_simps cong: if_cong option.case_cong)

lemma ExecuteSentence_sync:
  "ExecuteSentence L F pl pk (with_sync q m c S) = synced q m c (ExecuteSentence L F pl pk S)"
  by (simp add: ExecuteSentence_def Let_def ExecuteProcedure_sync sync_simps cong: if_cong option.case_cong
      split: option.split sql_union.split SQL_PACK_TYPE.split)

lemma ExecuteSentence_cv:
  assumes "ExecuteSentence L F pl pk S = Inr S'"
  shows "ss_cv S' = ss_cv S"
proof -
  have "S = with_sync (ss_queue S) (ss_mtx S) (ss_cv S) S" by (simp add: with_sync_def)
  then have "\<exists>S''. S' = with_sync (ss_queue S) (ss_mtx S) (ss_cv S) S''"
    using assms ExecuteSentence_sync [of L F pl pk "ss_queue S" "ss_mtx S" "ss_cv S" S] by (auto simp: synced_def bnd_eq_Inr)
  then show ?thesis by auto
qed

abbreviation core :: "('db, 'w) sql_sys \<Rightarrow> ('db, 'w) sql_sys" where
  "core S \<equiv> with_sync [] MutexLock_new Condition_new S"

lemma run_one_core:
  assumes "run_one L F pl pack S = Inr S'"
  shows "run_one L F pl pack (core S) = Inr (core S')"
  using assms by (auto simp: run_one_def ExecuteSentence_sync synced_def bnd_eq_Inr)

text \<open>The sequential drain of \<open>Sql_Loop\<close> is this execution.\<close>

lemma run_one_queue: "run_one L F pl pack (S\<lparr>ss_queue := q\<rparr>) = bnd (run_one L F pl pack S) (\<lambda>S'. Inr (S'\<lparr>ss_queue := q\<rparr>))"
proof -
  have "with_sync q (ss_mtx S) (ss_cv S) S = S\<lparr>ss_queue := q\<rparr>" by (simp add: with_sync_def)
  moreover have "with_sync q (ss_mtx S) (ss_cv S) S' = S'\<lparr>ss_queue := q\<rparr>" if "ExecuteSentence L F pl pk S = Inr S'" for pk S'
    using ExecuteSentence_frame [OF that] ExecuteSentence_cv [OF that] by (simp add: with_sync_def)
  ultimately show ?thesis
    using ExecuteSentence_sync [of L F pl "Some pack" q "ss_mtx S" "ss_cv S" S]
    by (cases "ExecuteSentence L F pl (Some pack) S") (simp_all add: run_one_def synced_def)
qed

lemma run_seq_queue: "run_seq L F pl ps (S\<lparr>ss_queue := q\<rparr>) = bnd (run_seq L F pl ps S) (\<lambda>S'. Inr (S'\<lparr>ss_queue := q\<rparr>))"
proof (induction ps arbitrary: S)
  case (Cons pack ps)
  then show ?case by (cases "run_one L F pl pack S") (simp_all add: run_one_queue)
qed simp

lemma run_packs_seq:
  "run_packs L F pl ps S = bnd (run_seq L F pl ps S) (\<lambda>S'. Inr (if ps = [] then S' else S'\<lparr>ss_queue := []\<rparr>))"
proof (induction ps arbitrary: S)
  case (Cons pack ps)
  have "run_packs L F pl (pack # ps) S = bnd (run_one L F pl pack (S\<lparr>ss_queue := ps\<rparr>)) (run_packs L F pl ps)"
    by (simp add: run_one_def Let_def bnd_assoc)
  also have "\<dots> = bnd (run_one L F pl pack S) (\<lambda>S'. run_packs L F pl ps (S'\<lparr>ss_queue := ps\<rparr>))"
    by (simp add: run_one_queue bnd_assoc)
  also have "\<dots> = bnd (run_one L F pl pack S) (\<lambda>S'. bnd (run_seq L F pl ps S') (\<lambda>S''. Inr (S''\<lparr>ss_queue := []\<rparr>)))"
    by (simp add: Cons.IH run_seq_queue bnd_assoc) (cases ps; simp)
  finally show ?case by (simp add: bnd_assoc)
qed simp

text \<open>Nothing the SQL thread runs sets the exit flag.\<close>

lemma LogMsg_exit: "LogMsg msg q = Inr q' \<Longrightarrow> sql_exitFlag q' = sql_exitFlag q"
  by (auto simp: LogMsg_def split: if_splits)

lemma ExecuteSQL_exit: "ExecuteSQL L sql qr q db = Inr (code, qr', q', db') \<Longrightarrow> sql_exitFlag q' = sql_exitFlag q"
  by (auto simp: ExecuteSQL_def Let_def bnd_eq_Inr split: option.splits prod.splits if_splits dest: LogMsg_exit)

lemma ExecuteStmt_exit: "ExecuteStmt L sql qr args q db = Inr (code, qr', q', db') \<Longrightarrow> sql_exitFlag q' = sql_exitFlag q"
  by (auto simp: ExecuteStmt_def Let_def bnd_eq_Inr split: option.splits prod.splits if_splits dest: LogMsg_exit)

lemma Prepare_exit: "Prepare L pl sent p q db = Inr (code, p', q', db') \<Longrightarrow> sql_exitFlag q' = sql_exitFlag q"
  by (auto simp: Prepare_def Let_def bnd_eq_Inr case_prod_unfold split: option.splits if_splits list.splits dest: ExecuteSQL_exit)

lemma Execute_outputs_exit: "Execute_outputs L F sel p q db = Inr (code, p', q', db') \<Longrightarrow> sql_exitFlag q' = sql_exitFlag q"
  by (auto simp: Execute_outputs_def Let_def bnd_eq_Inr case_prod_unfold split: option.splits if_splits list.splits dest: ExecuteSQL_exit)

lemma Execute_statements_exit: "Execute_statements L F x p q db = Inr (code, p', q', db') \<Longrightarrow> sql_exitFlag q' = sql_exitFlag q"
  by (auto simp: Execute_statements_def Let_def bnd_eq_Inr split: if_splits dest!: ExecuteSQL_exit Execute_outputs_exit)

lemma Execute_exit:
  assumes "Execute L F p q db = Inr (code, p', q', db')"
  shows "sql_exitFlag q' = sql_exitFlag q"
proof -
  obtain r where "(case r of Inl code \<Rightarrow> Inr (code, p, q, db) | Inr x \<Rightarrow> Execute_statements L F x p q db) =
      Inr (code, p', q', db')"
    using assms by (auto simp: Execute_def bnd_eq_Inr simp del: sum.case)
  then show ?thesis by (cases r) (auto dest: Execute_statements_exit)
qed

lemma ExecuteProcedure_exit:
  "ExecuteProcedure L F pl pack S = Inr (b, S') \<Longrightarrow> sql_exitFlag (ss_query S') = sql_exitFlag (ss_query S)"
  by (auto simp: ExecuteProcedure_def Let_def bnd_eq_Inr split: if_splits
      dest!: clear_helper_frame run_callback_frame Prepare_exit Execute_exit)

lemma ExecuteSentence_exit:
  "ExecuteSentence L F pl pk S = Inr S' \<Longrightarrow> sql_exitFlag (ss_query S') = sql_exitFlag (ss_query S)"
  by (auto simp: ExecuteSentence_def Let_def bnd_eq_Inr
      split: option.splits SQL_PACK_TYPE.splits sql_union.splits if_splits
      dest!: ExecuteProcedure_exit run_callback_frame ExecuteSQL_exit ExecuteStmt_exit)

section \<open>The invariant\<close>

fun doing :: "('db, 'w) spc \<Rightarrow> ('db, 'w) SqlPack list" where
  "doing (MPack p) = [p]"
| "doing _ = []"

definition sq_ran :: "'db mysql_lib \<Rightarrow> float_lib \<Rightarrow> (string \<Rightarrow> string \<Rightarrow> string) \<Rightarrow> ('db, 'w) sql_sys \<Rightarrow>
    ('db, 'w) SqlPack list \<Rightarrow> ('db, 'w) SqlPack list \<Rightarrow> ('db, 'w) sql_sys \<Rightarrow> bool" where
  "sq_ran L F pl S0 taken open_packs S \<longleftrightarrow>
     (\<exists>ran. taken = ran @ open_packs \<and> run_seq L F pl ran S0 = Inr (core S))"

definition sq_inv :: "'db mysql_lib \<Rightarrow> float_lib \<Rightarrow> (string \<Rightarrow> string \<Rightarrow> string) \<Rightarrow> ('db, 'w) sql_sys \<Rightarrow> int \<Rightarrow>
    ('db, 'w) sq_sys \<Rightarrow> bool" where
  "sq_inv L F pl S0 mt s \<longleftrightarrow>
     sqp.lock_inv (sq_pc s) (ss_mtx (sq_obj s)) \<and>
     sqw.wake_inv (sq_pc s) (ss_cv (sq_obj s)) (length (ss_queue (sq_obj s))) \<and>
     sq_in s = sq_out s @ ss_queue (sq_obj s) \<and> (\<forall>t. in_loop (sq_pc s t) \<longleftrightarrow> t = mt) \<and>
     sq_ran L F pl S0 (sq_out s) (doing (sq_pc s mt)) (sq_obj s)"

lemma doing_in_loop: "doing p \<noteq> [] \<Longrightarrow> in_loop p"
  by (cases p) simp_all

lemma sq_inv_init: "sq_init S0 mt s \<Longrightarrow> sq_inv L F pl S0 mt s"
proof -
  assume init: "sq_init S0 mt s"
  have "sqp.lock_inv (\<lambda>_. QIdle) MutexLock_new" by (rule sqp.lock_inv_init) (simp_all add: MutexLock_new_def mutex_ok_def)
  then have "sqp.lock_inv ((\<lambda>_. QIdle)(mt := MTop)) MutexLock_new" by (rule sqp.lock_inv_stay) simp
  moreover have "sqw.wake_inv ((\<lambda>_. QIdle)(mt := MTop)) Condition_new 0"
    by (auto simp: sqw.wake_inv_def sqw.wakers_def Condition_new_def)
  moreover have "core S0 = S0" using init by (auto simp: sq_init_def with_sync_def)
  ultimately show ?thesis using init by (auto simp: sq_init_def sq_inv_def sq_ran_def)
qed

lemma sq_inv_parts:
  assumes "sq_inv L F pl S0 mt s"
  shows "sqp.lock_inv (sq_pc s) (ss_mtx (sq_obj s))"
    "sqw.wake_inv (sq_pc s) (ss_cv (sq_obj s)) (length (ss_queue (sq_obj s)))"
    "sq_in s = sq_out s @ ss_queue (sq_obj s)" "in_loop (sq_pc s t) \<Longrightarrow> t = mt" "in_loop (sq_pc s mt)"
    "sq_ran L F pl S0 (sq_out s) (doing (sq_pc s mt)) (sq_obj s)"
  using assms by (auto simp: sq_inv_def)

text \<open>Steps that keep the queue and what has been executed.\<close>

lemma sq_inv_goto:
  assumes "sq_inv L F pl S0 mt s" "sqp.lock_inv ((sq_pc s)(t := p)) (ss_mtx S)"
    "sqw.wake_inv ((sq_pc s)(t := p)) (ss_cv S) (length (ss_queue S))"
    "ss_queue S = ss_queue (sq_obj s)" "core S = core (sq_obj s)"
    "in_loop p = in_loop (sq_pc s t)" "doing p = doing (sq_pc s t)"
  shows "sq_inv L F pl S0 mt (sq_goto t p S s)"
  using assms by (auto simp: sq_inv_def sq_goto_def sq_ran_def)

text \<open>Moves of a thread that is awake: staying on its side of the lock, taking it, releasing it.\<close>

lemma sq_wake_move:
  assumes "sq_inv L F pl S0 mt s" "\<not> s_slp (sq_pc s t)" "s_busy (sq_pc s t) \<longrightarrow> s_busy p"
  shows "sqw.wake_inv ((sq_pc s)(t := p)) (ss_cv (sq_obj s)) (length (ss_queue (sq_obj s)))"
proof -
  note W = sq_inv_parts(2) [OF assms(1)]
  have "t \<in> sqw.wakers (sq_pc s) (ss_cv (sq_obj s)) \<longrightarrow> s_busy p \<or> s_slp p"
    using assms(2,3) by (auto simp: sqw.wakers_def)
  then show ?thesis by (intro sqw.wake_inv_move [OF W sqw.wake_inv_awake [OF W assms(2)]])
qed

lemma sq_inv_stay:
  assumes "sq_inv L F pl S0 mt s" "\<not> s_slp (sq_pc s t)" "s_busy (sq_pc s t) \<longrightarrow> s_busy p"
    "s_holds (sq_pc s t) = s_holds p" "in_loop p = in_loop (sq_pc s t)" "doing p = doing (sq_pc s t)"
  shows "sq_inv L F pl S0 mt (sq_goto t p (sq_obj s) s)"
  using sq_wake_move [OF assms(1-3)] sqp.lock_inv_stay [OF sq_inv_parts(1) [OF assms(1)] assms(4)]
  by (intro sq_inv_goto [OF assms(1)]) (simp_all add: assms)

lemma sq_inv_lock:
  assumes "sq_inv L F pl S0 mt s" "\<not> s_slp (sq_pc s t)" "s_busy (sq_pc s t) \<longrightarrow> s_busy p" "s_holds p"
    "in_loop p = in_loop (sq_pc s t)" "doing p = doing (sq_pc s t)" "mutex_lock t (ss_mtx (sq_obj s)) = Some m"
  shows "sq_inv L F pl S0 mt (sq_goto t p ((sq_obj s)\<lparr>ss_mtx := m\<rparr>) s)"
  using sq_wake_move [OF assms(1-3)]
    sqp.lock_inv_acquire [OF sq_inv_parts(1) [OF assms(1)] mutex_lock_ok [OF assms(7)] assms(4)]
  by (intro sq_inv_goto [OF assms(1)]) (simp_all add: assms with_sync_def)

lemma sq_inv_unlock:
  assumes "sq_inv L F pl S0 mt s" "\<not> s_slp (sq_pc s t)" "s_busy (sq_pc s t) \<longrightarrow> s_busy p" "\<not> s_holds p"
    "in_loop p = in_loop (sq_pc s t)" "doing p = doing (sq_pc s t)" "mutex_unlock t (ss_mtx (sq_obj s)) = Inr m"
  shows "sq_inv L F pl S0 mt (sq_goto t p ((sq_obj s)\<lparr>ss_mtx := m\<rparr>) s)"
  using sq_wake_move [OF assms(1-3)]
    sqp.lock_inv_release [OF sq_inv_parts(1) [OF assms(1)] mutex_unlock_ok [OF assms(7)] assms(4)]
  by (intro sq_inv_goto [OF assms(1)]) (simp_all add: assms with_sync_def)

text \<open>The queue operations.\<close>

lemma sq_inv_put:
  assumes inv: "sq_inv L F pl S0 mt s" and pc: "sq_pc s t = QHeld pack"
  shows "sq_inv L F pl S0 mt (sq_goto t QPushed ((sq_obj s)\<lparr>ss_queue := ss_queue (sq_obj s) @ [pack]\<rparr>) (s\<lparr>sq_in := sq_in s @ [pack]\<rparr>))"
proof -
  note W = sq_inv_parts(2) [OF inv]
  have "sqw.wake_inv ((sq_pc s)(t := QPushed)) (ss_cv (sq_obj s)) (Suc (length (ss_queue (sq_obj s))))"
    using pc sqw.wake_inv_awake [OF W, of t] by (intro sqw.wake_inv_gain [OF W]) (simp_all add: sqw.wakers_def)
  moreover have "sqp.lock_inv ((sq_pc s)(t := QPushed)) (ss_mtx (sq_obj s))"
    using pc by (intro sqp.lock_inv_stay [OF sq_inv_parts(1) [OF inv]]) simp
  moreover have "t \<noteq> mt" using sq_inv_parts(5) [OF inv] pc by auto
  ultimately show ?thesis
    using inv pc by (auto simp: sq_inv_def sq_goto_def sq_ran_def with_sync_def)
qed

lemma sq_inv_get:
  assumes inv: "sq_inv L F pl S0 mt s" and pc: "sq_pc s t = MDrain" and q: "ss_queue (sq_obj s) = pack # rest"
  shows "sq_inv L F pl S0 mt (sq_goto t (MPack pack) ((sq_obj s)\<lparr>ss_queue := rest\<rparr>) (s\<lparr>sq_out := sq_out s @ [pack]\<rparr>))"
proof -
  note W = sq_inv_parts(2) [OF inv]
  have "sqw.wake_inv ((sq_pc s)(t := MPack pack)) (ss_cv (sq_obj s)) (length rest)"
    using pc q sqw.wake_inv_awake [OF W, of t] by (intro sqw.wake_inv_lose [OF W]) simp_all
  moreover have "sqp.lock_inv ((sq_pc s)(t := MPack pack)) (ss_mtx (sq_obj s))"
    using pc by (intro sqp.lock_inv_stay [OF sq_inv_parts(1) [OF inv]]) simp
  moreover have "t = mt" using sq_inv_parts(4) [OF inv] pc by simp
  ultimately show ?thesis
    using inv pc q by (auto simp: sq_inv_def sq_goto_def sq_ran_def with_sync_def)
qed

lemma sq_inv_ran:
  assumes inv: "sq_inv L F pl S0 mt s" and pc: "sq_pc s t = MPack pack" and run: "run_one L F pl pack (sq_obj s) = Inr S"
    and same: "ss_queue S = ss_queue (sq_obj s)" "ss_mtx S = ss_mtx (sq_obj s)" "ss_cv S = ss_cv (sq_obj s)"
  shows "sq_inv L F pl S0 mt (sq_goto t MDrain S s)"
proof -
  have t: "t = mt" using sq_inv_parts(4) [OF inv] pc by simp
  obtain ran where ran: "sq_out s = ran @ [pack]" "run_seq L F pl ran S0 = Inr (core (sq_obj s))"
    using sq_inv_parts(6) [OF inv] pc t by (auto simp: sq_ran_def)
  have "run_seq L F pl (sq_out s) S0 = Inr (core S)"
    using ran run_one_core [OF run] by (simp add: run_seq_append)
  then have "sq_ran L F pl S0 (sq_out s) [] S" by (simp add: sq_ran_def)
  moreover have "sqw.wake_inv ((sq_pc s)(t := MDrain)) (ss_cv (sq_obj s)) (length (ss_queue (sq_obj s)))"
    by (rule sq_wake_move [OF inv]) (simp_all add: pc)
  moreover have "sqp.lock_inv ((sq_pc s)(t := MDrain)) (ss_mtx (sq_obj s))"
    using pc by (intro sqp.lock_inv_stay [OF sq_inv_parts(1) [OF inv]]) simp
  ultimately show ?thesis using inv t same by (auto simp: sq_inv_def sq_goto_def)
qed

text \<open>Sleeping and waking.\<close>

lemma sq_inv_wait:
  assumes inv: "sq_inv L F pl S0 mt s" and pc: "sq_pc s t = MTest" and q: "ss_queue (sq_obj s) = []"
    and w: "cond_wait_begin t (ss_mtx (sq_obj s)) (ss_cv (sq_obj s)) = Inr (m, c)"
  shows "sq_inv L F pl S0 mt (sq_goto t MSleep ((sq_obj s)\<lparr>ss_mtx := m, ss_cv := c\<rparr>) s)"
proof -
  note W = sq_inv_parts(2) [OF inv] and w' = cond_wait_begin_ok [OF w]
  have "t \<notin> set (cond_waiters (ss_cv (sq_obj s)))" by (rule sqw.wake_inv_awake [OF W]) (simp add: pc)
  then have "sqw.wake_inv ((sq_pc s)(t := MSleep)) c 0"
    using w' W by (intro sqw.wake_inv_none [OF W]) (auto simp: sqw.wake_inv_def)
  moreover have "sqp.lock_inv ((sq_pc s)(t := MSleep)) m"
    by (rule sqp.lock_inv_release [OF sq_inv_parts(1) [OF inv] w' [THEN conjunct1]]) simp
  ultimately show ?thesis using pc q by (intro sq_inv_goto [OF inv]) (simp_all add: with_sync_def)
qed

lemma sq_inv_wake:
  assumes inv: "sq_inv L F pl S0 mt s" and pc: "sq_pc s t = MSleep"
    and w: "cond_wait_end t (ss_mtx (sq_obj s)) (ss_cv (sq_obj s)) = Some m"
  shows "sq_inv L F pl S0 mt (sq_goto t MTest ((sq_obj s)\<lparr>ss_mtx := m\<rparr>) s)"
proof -
  note W = sq_inv_parts(2) [OF inv] and w' = cond_wait_end_ok [OF w]
  have "sqw.wake_inv ((sq_pc s)(t := MTest)) (ss_cv (sq_obj s)) (length (ss_queue (sq_obj s)))"
    using w' by (intro sqw.wake_inv_move [OF W]) simp_all
  moreover have "sqp.lock_inv ((sq_pc s)(t := MTest)) m"
    by (rule sqp.lock_inv_acquire [OF sq_inv_parts(1) [OF inv] w' [THEN conjunct1]]) simp
  ultimately show ?thesis using pc by (intro sq_inv_goto [OF inv]) (simp_all add: with_sync_def)
qed

lemma sq_inv_notify:
  assumes inv: "sq_inv L F pl S0 mt s" and pc: "sq_pc s t = QNotify"
  shows "sq_inv L F pl S0 mt (sq_goto t QIdle ((sq_obj s)\<lparr>ss_cv := cond_notify pick (ss_cv (sq_obj s))\<rparr>) s)"
proof -
  note W = sq_inv_parts(2) [OF inv]
  have "sqw.wake_inv ((sq_pc s)(t := QIdle)) (cond_notify pick (ss_cv (sq_obj s))) (length (ss_queue (sq_obj s)))"
    using sqw.wake_inv_awake [OF W, of t] pc by (intro sqw.wake_inv_notify [OF W]) simp_all
  moreover have "sqp.lock_inv ((sq_pc s)(t := QIdle)) (ss_mtx (sq_obj s))"
    using pc by (intro sqp.lock_inv_stay [OF sq_inv_parts(1) [OF inv]]) simp
  ultimately show ?thesis using pc by (intro sq_inv_goto [OF inv]) (simp_all add: with_sync_def)
qed

lemma sq_inv_spurious:
  assumes "sq_inv L F pl S0 mt s" "t \<in> set (cond_waiters (ss_cv (sq_obj s)))"
  shows "sq_inv L F pl S0 mt (s\<lparr>sq_obj := (sq_obj s)\<lparr>ss_cv :=
    (ss_cv (sq_obj s))\<lparr>cond_waiters := remove1 t (cond_waiters (ss_cv (sq_obj s)))\<rparr>\<rparr>\<rparr>)"
  using assms sqw.wake_inv_remove(1) [OF sq_inv_parts(2) [OF assms(1)] assms(2)]
  by (simp add: sq_inv_def sq_ran_def with_sync_def)

lemma sq_inv_step:
  assumes inv: "sq_inv L F pl S0 mt s" and step: "sq_step L F pl s s'"
  shows "sq_inv L F pl S0 mt s'"
  using step
proof cases
  case (sq_get t pack S)
  then obtain rest where "ss_queue (sq_obj s) = pack # rest" "S = (sq_obj s)\<lparr>ss_queue := rest\<rparr>"
    by (auto simp: GetSqlPack_def split: list.splits)
  then show ?thesis using sq_inv_get [OF inv sq_get(3)] sq_get(1) by simp
next
  case (sq_skip t pack)
  then show ?thesis using sq_inv_ran [OF inv sq_skip(3)] by (simp add: run_one_def)
next
  case (sq_exec t pack S)
  then show ?thesis
    using sq_inv_ran [OF inv sq_exec(3), of "S\<lparr>ss_freed := ss_freed S @ release_pack pack\<rparr>"] ExecuteSentence_frame [OF sq_exec(5)]
      ExecuteSentence_cv [OF sq_exec(5)]
    by (simp add: run_one_def)
next
  case (sq_exec_fault t pack e)
  then show ?thesis using inv by (simp add: sq_inv_def)
qed (use inv in \<open>auto intro: sq_inv_stay sq_inv_lock sq_inv_unlock sq_inv_put sq_inv_wait sq_inv_wake sq_inv_notify sq_inv_spurious\<close>)

interpretation sqlsys: invariant_system "sq_init S0 mt" "sq_step L F pl" "sq_inv L F pl S0 mt" for S0 mt L F pl
  by unfold_locales (auto intro: sq_inv_init sq_inv_step)

text \<open>While the SQL thread waits and there are tasks, a pusher has still to notify.\<close>

lemma sq_owes_notify:
  assumes inv: "sq_inv L F pl S0 mt s" and mt: "mt \<in> set (cond_waiters (ss_cv (sq_obj s)))" and some: "ss_queue (sq_obj s) \<noteq> []"
  shows "\<exists>t. sq_pc s t = QPushed \<or> sq_pc s t = QNotify"
proof -
  note W = sq_inv_parts(2) [OF inv]
  have "sqw.wakers (sq_pc s) (ss_cv (sq_obj s)) \<noteq> {}"
    using mt some by (intro sqw.wake_inv_progress [OF W]) auto
  then obtain t where t: "s_busy (sq_pc s t) \<or> s_slp (sq_pc s t) \<and> t \<notin> set (cond_waiters (ss_cv (sq_obj s)))"
    by (auto simp: sqw.wakers_def)
  have "s_slp (sq_pc s mt)" using W mt by (simp add: sqw.wake_inv_def)
  then have "\<not> s_busy (sq_pc s mt)" by (cases "sq_pc s mt") simp_all
  then have "t \<noteq> mt" using t mt by auto
  then have "\<not> in_loop (sq_pc s t)" using sq_inv_parts(4) [OF inv, of t] by auto
  then show ?thesis using t by (intro exI [of _ t]) (cases "sq_pc s t"; simp)
qed

text \<open>The loop never ends: no step sets the exit flag.\<close>

definition sq_on :: "('db, 'w) sq_sys \<Rightarrow> bool" where
  "sq_on s \<longleftrightarrow> \<not> sql_exitFlag (ss_query (sq_obj s)) \<and> (\<forall>t. sq_pc s t \<noteq> MGone)"

lemma sq_on_step: "sq_on s \<Longrightarrow> sq_step L F pl s s' \<Longrightarrow> sq_on s'"
  by (erule sq_step.cases)
    (auto simp: sq_on_def sq_goto_def GetSqlPack_def split: list.splits if_splits dest: ExecuteSentence_exit)

interpretation sqlon: invariant_system "\<lambda>s. sq_init S0 mt s \<and> \<not> sql_exitFlag (ss_query S0)" "sq_step L F pl" sq_on for S0 mt L F pl
proof
  show "sq_init S0 mt s \<and> \<not> sql_exitFlag (ss_query S0) \<Longrightarrow> sq_on s" for s
    by (auto simp: sq_init_def sq_on_def)
qed (rule sq_on_step)

end
