(* ===== verification/Conn_Race.thy ===== *)
theory Conn_Race
  imports Pets_Server
begin

text \<open>
  \<^verbatim>\<open>PetsServer::onConnection\<close> on several I/O threads. The table of connections has no lock: a
  thread looks for a free id (\<^verbatim>\<open>GreateDnid\<close>) and stores its entry later, and other threads run
  in between. Each access to the table is one step here, so the data race inside \<^verbatim>\<open>std::map\<close> is
  left out: what is shown fails even if every access is atomic. \<^verbatim>\<open>GreateDnid\<close> seeds the generator
  with \<^verbatim>\<open>time(0)\<close>, so that the threads of one second draw the same numbers: \<open>tm\<close> and \<open>rnd\<close> are
  the readings every call of that second makes.
\<close>

datatype race_pc = RIdle | RDrawn nat DNID

record race_sys =
  rc_srv :: PetsServer
  rc_pc :: "int \<Rightarrow> race_pc"
  rc_live :: "nat \<rightharpoonup> DNID"

definition race_init :: "race_sys \<Rightarrow> bool" where
  "race_init s \<longleftrightarrow> connections (rc_srv s) = [] \<and> rc_pc s = (\<lambda>_. RIdle) \<and> rc_live s = Map.empty"

text \<open>The two halves of \<^verbatim>\<open>onConnection\<close> for a connection that is up, and its other branch.\<close>

inductive race_step :: "(nat \<Rightarrow> int) \<Rightarrow> (nat \<Rightarrow> nat) \<Rightarrow> race_sys \<Rightarrow> race_sys \<Rightarrow> bool" for tm rnd where
  race_draw: "rc_pc s t = RIdle \<Longrightarrow> rc_live s c = None \<Longrightarrow> GreateDnid tm rnd (rc_srv s) = Some d \<Longrightarrow>
    race_step tm rnd s (s\<lparr>rc_pc := (rc_pc s)(t := RDrawn c d)\<rparr>)"
| race_store: "rc_pc s t = RDrawn c d \<Longrightarrow>
    race_step tm rnd s (s\<lparr>rc_srv := (rc_srv s)\<lparr>connections := map_put (connections (rc_srv s)) d (Connection_of c)\<rparr>,
      rc_pc := (rc_pc s)(t := RIdle), rc_live := (rc_live s)(c \<mapsto> d)\<rparr>)"
| race_down: "rc_pc s t = RIdle \<Longrightarrow> rc_live s c = Some d \<Longrightarrow>
    race_step tm rnd s (s\<lparr>rc_srv := (rc_srv s)\<lparr>connections := map_erase (connections (rc_srv s)) d\<rparr>,
      rc_live := (rc_live s)(c := None)\<rparr>)"

text \<open>With no other thread in between, the two halves are the whole call.\<close>

lemma race_halves:
  assumes "connected conn" "rc_pc s t = RIdle" "rc_live s c = None"
    "onConnection tm rnd c conn (rc_srv s) = Inr (conn', srv')"
  shows "\<exists>d. (race_step tm rnd)\<^sup>*\<^sup>* s (s\<lparr>rc_srv := srv', rc_live := (rc_live s)(c \<mapsto> d)\<rparr>) \<and> getContext conn' = AnyDnid d"
proof -
  obtain d where d: "GreateDnid tm rnd (rc_srv s) = Some d" "getContext conn' = AnyDnid d"
    "srv' = (rc_srv s)\<lparr>connections := map_put (connections (rc_srv s)) d (Connection_of c)\<rparr>"
    using assms(1,4) by (auto simp: onConnection_def setContext_def getContext_def Connection_default_def Connection_of_def Let_def
        split: option.splits)
  let ?s1 = "s\<lparr>rc_pc := (rc_pc s)(t := RDrawn c d)\<rparr>"
  have "race_step tm rnd s ?s1" by (rule race_draw [OF assms(2,3) d(1)])
  moreover have "race_step tm rnd ?s1 (?s1\<lparr>rc_srv := srv', rc_pc := (rc_pc ?s1)(t := RIdle), rc_live := (rc_live ?s1)(c \<mapsto> d)\<rparr>)"
    using race_store [of ?s1 t c d tm rnd] d(3) by simp
  moreover have "(rc_pc ?s1)(t := RIdle) = rc_pc s" using assms(2) by (simp add: fun_upd_idem)
  ultimately show ?thesis using d(2) by (auto intro!: exI [of _ d] converse_rtranclp_into_rtranclp [of "race_step tm rnd"])
qed

text \<open>Two threads that look before either stores: both connections have one id and one entry.\<close>

lemma race_same_id:
  assumes init: "race_init s0" and draw: "GreateDnid tm rnd (rc_srv s0) = Some d"
  shows "\<exists>s. reach race_init (race_step tm rnd) s \<and> rc_pc s = (\<lambda>_. RIdle) \<and> rc_live s = [1 \<mapsto> d, 2 \<mapsto> d] \<and>
    connections (rc_srv s) = [(d, Connection_of 2)]"
proof -
  let ?R = "reach race_init (race_step tm rnd)"
  have s0: "connections (rc_srv s0) = []" "rc_pc s0 = (\<lambda>_. RIdle)" "rc_live s0 = Map.empty"
    using init by (simp_all add: race_init_def)
  define s1 where "s1 = s0\<lparr>rc_pc := (\<lambda>_. RIdle)(1 := RDrawn 1 d)\<rparr>"
  define s2 where "s2 = s0\<lparr>rc_pc := (\<lambda>_. RIdle)(1 := RDrawn 1 d, 2 := RDrawn 2 d)\<rparr>"
  define s3 where "s3 = s0\<lparr>rc_srv := (rc_srv s0)\<lparr>connections := [(d, Connection_of 1)]\<rparr>,
    rc_pc := (\<lambda>_. RIdle)(2 := RDrawn 2 d), rc_live := [1 \<mapsto> d]\<rparr>"
  define s4 where "s4 = s0\<lparr>rc_srv := (rc_srv s0)\<lparr>connections := [(d, Connection_of 2)]\<rparr>,
    rc_pc := (\<lambda>_. RIdle), rc_live := [1 \<mapsto> d, 2 \<mapsto> d]\<rparr>"
  have r0: "?R s0" by (rule reach_init) (rule init)
  have r1: "?R s1"
    using reach_step [OF r0 race_draw [of s0 1 1 tm rnd d]] s0 draw by (simp add: s1_def)
  have r2: "?R s2"
    using reach_step [OF r1 race_draw [of s1 2 2 tm rnd d]] s0 draw by (simp add: s1_def s2_def)
  have r3: "?R s3"
    using reach_step [OF r2 race_store [of s2 1 1 d]] s0 by (simp add: s2_def s3_def fun_upd_twist fun_upd_idem)
  have "?R s4"
    using reach_step [OF r3 race_store [of s3 2 2 d]] s0 by (simp add: s3_def s4_def fun_upd_idem)
  then show ?thesis by (intro exI [of _ s4]) (simp add: s4_def)
qed

text \<open>When the first of them goes down, the second is up without an entry.\<close>

lemma race_lost_entry:
  assumes "race_init s0" "GreateDnid tm rnd (rc_srv s0) = Some d"
  shows "\<exists>s. reach race_init (race_step tm rnd) s \<and> rc_live s = [2 \<mapsto> d] \<and> connections (rc_srv s) = []"
proof -
  obtain s where s: "reach race_init (race_step tm rnd) s" "rc_pc s = (\<lambda>_. RIdle)" "rc_live s = [1 \<mapsto> d, 2 \<mapsto> d]"
    "connections (rc_srv s) = [(d, Connection_of 2)]"
    using race_same_id [OF assms] by blast
  define s' where "s' = s\<lparr>rc_srv := (rc_srv s)\<lparr>connections := map_erase (connections (rc_srv s)) d\<rparr>,
    rc_live := (rc_live s)(1 := None)\<rparr>"
  have "race_step tm rnd s s'" unfolding s'_def using s by (intro race_down [where t = 0]) simp_all
  then have "reach race_init (race_step tm rnd) s'" by (rule reach_step [OF s(1)])
  moreover have "rc_live s' = [2 \<mapsto> d]" "connections (rc_srv s') = []"
    using s by (auto simp: s'_def fun_eq_iff)
  ultimately show ?thesis by blast
qed

end
