(* ===== verification/Rpc_Message.thy ===== *)
theory Rpc_Message
  imports Net_Messages Tcp_Net
begin

unbundle bit_operations_syntax

text \<open>
  The inline accessors of \<^verbatim>\<open>muduo/net/protorpc/rpc.pb.h\<close>, the message of the RPC protocol: a word
  of presence bits, an id, two enumerations and four strings. \<^verbatim>\<open>ArenaStringPtr\<close> is code of the
  protobuf library: its operations are the parameter \<open>arena_lib\<close> over the type \<open>'s\<close> of such
  pointers, with \<open>arena_laws\<close> what its documentation promises. \<^verbatim>\<open>MessageType_IsValid\<close> and
  \<^verbatim>\<open>ErrorCode_IsValid\<close> have no body in the sources and are arguments. A pointer that a caller
  writes through is the change it makes. The locale \<open>optional_field\<close> is the contract of an optional
  string field; each of the four fields interprets it.
\<close>

section \<open>Data\<close>

datatype MessageType = REQUEST | RESPONSE | MT_ERROR

fun MessageType_num :: "MessageType \<Rightarrow> int" where
  "MessageType_num REQUEST = 1" | "MessageType_num RESPONSE = 2" | "MessageType_num MT_ERROR = 3"

datatype ErrorCode = NO_ERROR | WRONG_PROTO | NO_SERVICE | NO_METHOD | INVALID_REQUEST | INVALID_RESPONSE | TIMEOUT

fun ErrorCode_num :: "ErrorCode \<Rightarrow> int" where
  "ErrorCode_num NO_ERROR = 0" | "ErrorCode_num WRONG_PROTO = 1" | "ErrorCode_num NO_SERVICE = 2"
| "ErrorCode_num NO_METHOD = 3" | "ErrorCode_num INVALID_REQUEST = 4" | "ErrorCode_num INVALID_RESPONSE = 5"
| "ErrorCode_num TIMEOUT = 6"

record 's arena_lib =
  GetNoArena :: "'s \<Rightarrow> BYTE list"
  SetNoArena :: "BYTE list \<Rightarrow> 's \<Rightarrow> 's"
  ClearToEmptyNoArena :: "'s \<Rightarrow> 's"
  MutableNoArena :: "(BYTE list \<Rightarrow> BYTE list) \<Rightarrow> 's \<Rightarrow> 's"
  ReleaseNoArena :: "'s \<Rightarrow> BYTE list option \<times> 's"
  SetAllocatedNoArena :: "BYTE list option \<Rightarrow> 's \<Rightarrow> 's"

definition arena_laws :: "'s arena_lib \<Rightarrow> bool" where
  "arena_laws L \<longleftrightarrow> (\<forall>v p. GetNoArena L (SetNoArena L v p) = v) \<and> (\<forall>p. GetNoArena L (ClearToEmptyNoArena L p) = []) \<and>
     (\<forall>f p. GetNoArena L (MutableNoArena L f p) = f (GetNoArena L p)) \<and>
     (\<forall>v p. fst (ReleaseNoArena L (SetNoArena L v p)) = Some v) \<and> (\<forall>p. GetNoArena L (snd (ReleaseNoArena L p)) = []) \<and>
     (\<forall>s p. GetNoArena L (SetAllocatedNoArena L s p) = (case s of None \<Rightarrow> [] | Some v \<Rightarrow> v))"

record 's RpcMessage =
  has_bits :: DWORD
  cached_size :: int
  rm_id :: QWORD
  rm_service :: 's
  rm_method :: 's
  rm_type :: int
  rm_error :: int
  rm_request :: 's
  rm_response :: 's

definition GetCachedSize :: "'s RpcMessage \<Rightarrow> int" where
  "GetCachedSize m = cached_size m"

text \<open>\<^verbatim>\<open>std::string(value)\<close> of a C string, and \<^verbatim>\<open>std::string(value, size)\<close>.\<close>

definition std_string :: "BYTE list option \<Rightarrow> BYTE list result" where
  "std_string value = (case value of None \<Rightarrow> Inl LogicError | Some bs \<Rightarrow> bnd (strlen value) (\<lambda>n. Inr (take n bs)))"

definition string_n :: "BYTE list \<Rightarrow> nat \<Rightarrow> BYTE list result" where
  "string_n value sz = get_field value 0 sz"

section \<open>Accessors\<close>

definition has_type :: "'s RpcMessage \<Rightarrow> bool" where
  "has_type m \<longleftrightarrow> has_bits m AND 0x01 \<noteq> 0"

definition set_has_type :: "'s RpcMessage \<Rightarrow> 's RpcMessage" where
  "set_has_type m = m\<lparr>has_bits := has_bits m OR 0x01\<rparr>"

definition clear_has_type :: "'s RpcMessage \<Rightarrow> 's RpcMessage" where
  "clear_has_type m = m\<lparr>has_bits := has_bits m AND NOT 0x01\<rparr>"

definition clear_type :: "'s RpcMessage \<Rightarrow> 's RpcMessage" where
  "clear_type m = clear_has_type (m\<lparr>rm_type := 1\<rparr>)"

definition get_type :: "'s RpcMessage \<Rightarrow> int" where
  "get_type m = rm_type m"

definition set_type :: "(int \<Rightarrow> bool) \<Rightarrow> int \<Rightarrow> 's RpcMessage \<Rightarrow> 's RpcMessage result" where
  "set_type valid value m = bnd (assert_c (valid value)) (\<lambda>_. Inr ((set_has_type m)\<lparr>rm_type := value\<rparr>))"

definition has_id :: "'s RpcMessage \<Rightarrow> bool" where
  "has_id m \<longleftrightarrow> has_bits m AND 0x02 \<noteq> 0"

definition set_has_id :: "'s RpcMessage \<Rightarrow> 's RpcMessage" where
  "set_has_id m = m\<lparr>has_bits := has_bits m OR 0x02\<rparr>"

definition clear_has_id :: "'s RpcMessage \<Rightarrow> 's RpcMessage" where
  "clear_has_id m = m\<lparr>has_bits := has_bits m AND NOT 0x02\<rparr>"

definition clear_id :: "'s RpcMessage \<Rightarrow> 's RpcMessage" where
  "clear_id m = clear_has_id (m\<lparr>rm_id := 0\<rparr>)"

definition get_id :: "'s RpcMessage \<Rightarrow> QWORD" where
  "get_id m = rm_id m"

definition set_id :: "QWORD \<Rightarrow> 's RpcMessage \<Rightarrow> 's RpcMessage" where
  "set_id value m = (set_has_id m)\<lparr>rm_id := value\<rparr>"

definition has_service :: "'s RpcMessage \<Rightarrow> bool" where
  "has_service m \<longleftrightarrow> has_bits m AND 0x04 \<noteq> 0"

definition set_has_service :: "'s RpcMessage \<Rightarrow> 's RpcMessage" where
  "set_has_service m = m\<lparr>has_bits := has_bits m OR 0x04\<rparr>"

definition clear_has_service :: "'s RpcMessage \<Rightarrow> 's RpcMessage" where
  "clear_has_service m = m\<lparr>has_bits := has_bits m AND NOT 0x04\<rparr>"

definition clear_service :: "'s arena_lib \<Rightarrow> 's RpcMessage \<Rightarrow> 's RpcMessage" where
  "clear_service L m = clear_has_service (m\<lparr>rm_service := ClearToEmptyNoArena L (rm_service m)\<rparr>)"

definition get_service :: "'s arena_lib \<Rightarrow> 's RpcMessage \<Rightarrow> BYTE list" where
  "get_service L m = GetNoArena L (rm_service m)"

definition set_service :: "'s arena_lib \<Rightarrow> BYTE list \<Rightarrow> 's RpcMessage \<Rightarrow> 's RpcMessage" where
  "set_service L value m = (set_has_service m)\<lparr>rm_service := SetNoArena L value (rm_service m)\<rparr>"

definition set_service_cstr :: "'s arena_lib \<Rightarrow> BYTE list option \<Rightarrow> 's RpcMessage \<Rightarrow> 's RpcMessage result" where
  "set_service_cstr L value m =
     bnd (std_string value) (\<lambda>s. Inr ((set_has_service m)\<lparr>rm_service := SetNoArena L s (rm_service m)\<rparr>))"

definition set_service_n :: "'s arena_lib \<Rightarrow> BYTE list \<Rightarrow> nat \<Rightarrow> 's RpcMessage \<Rightarrow> 's RpcMessage result" where
  "set_service_n L value sz m =
     bnd (string_n value sz) (\<lambda>s. Inr ((set_has_service m)\<lparr>rm_service := SetNoArena L s (rm_service m)\<rparr>))"

definition mutable_service :: "'s arena_lib \<Rightarrow> (BYTE list \<Rightarrow> BYTE list) \<Rightarrow> 's RpcMessage \<Rightarrow> 's RpcMessage" where
  "mutable_service L upd m = (set_has_service m)\<lparr>rm_service := MutableNoArena L upd (rm_service m)\<rparr>"

definition release_service :: "'s arena_lib \<Rightarrow> 's RpcMessage \<Rightarrow> BYTE list option \<times> 's RpcMessage" where
  "release_service L m = (case ReleaseNoArena L (rm_service m) of (s, p) \<Rightarrow> (s, (clear_has_service m)\<lparr>rm_service := p\<rparr>))"

definition set_allocated_service :: "'s arena_lib \<Rightarrow> BYTE list option \<Rightarrow> 's RpcMessage \<Rightarrow> 's RpcMessage" where
  "set_allocated_service L s m = (if s \<noteq> None then set_has_service m else clear_has_service m)\<lparr>rm_service := SetAllocatedNoArena L s (rm_service m)\<rparr>"

definition has_method :: "'s RpcMessage \<Rightarrow> bool" where
  "has_method m \<longleftrightarrow> has_bits m AND 0x08 \<noteq> 0"

definition set_has_method :: "'s RpcMessage \<Rightarrow> 's RpcMessage" where
  "set_has_method m = m\<lparr>has_bits := has_bits m OR 0x08\<rparr>"

definition clear_has_method :: "'s RpcMessage \<Rightarrow> 's RpcMessage" where
  "clear_has_method m = m\<lparr>has_bits := has_bits m AND NOT 0x08\<rparr>"

definition clear_method :: "'s arena_lib \<Rightarrow> 's RpcMessage \<Rightarrow> 's RpcMessage" where
  "clear_method L m = clear_has_method (m\<lparr>rm_method := ClearToEmptyNoArena L (rm_method m)\<rparr>)"

definition get_method :: "'s arena_lib \<Rightarrow> 's RpcMessage \<Rightarrow> BYTE list" where
  "get_method L m = GetNoArena L (rm_method m)"

definition set_method :: "'s arena_lib \<Rightarrow> BYTE list \<Rightarrow> 's RpcMessage \<Rightarrow> 's RpcMessage" where
  "set_method L value m = (set_has_method m)\<lparr>rm_method := SetNoArena L value (rm_method m)\<rparr>"

definition set_method_cstr :: "'s arena_lib \<Rightarrow> BYTE list option \<Rightarrow> 's RpcMessage \<Rightarrow> 's RpcMessage result" where
  "set_method_cstr L value m =
     bnd (std_string value) (\<lambda>s. Inr ((set_has_method m)\<lparr>rm_method := SetNoArena L s (rm_method m)\<rparr>))"

definition set_method_n :: "'s arena_lib \<Rightarrow> BYTE list \<Rightarrow> nat \<Rightarrow> 's RpcMessage \<Rightarrow> 's RpcMessage result" where
  "set_method_n L value sz m =
     bnd (string_n value sz) (\<lambda>s. Inr ((set_has_method m)\<lparr>rm_method := SetNoArena L s (rm_method m)\<rparr>))"

definition mutable_method :: "'s arena_lib \<Rightarrow> (BYTE list \<Rightarrow> BYTE list) \<Rightarrow> 's RpcMessage \<Rightarrow> 's RpcMessage" where
  "mutable_method L upd m = (set_has_method m)\<lparr>rm_method := MutableNoArena L upd (rm_method m)\<rparr>"

definition release_method :: "'s arena_lib \<Rightarrow> 's RpcMessage \<Rightarrow> BYTE list option \<times> 's RpcMessage" where
  "release_method L m = (case ReleaseNoArena L (rm_method m) of (s, p) \<Rightarrow> (s, (clear_has_method m)\<lparr>rm_method := p\<rparr>))"

definition set_allocated_method :: "'s arena_lib \<Rightarrow> BYTE list option \<Rightarrow> 's RpcMessage \<Rightarrow> 's RpcMessage" where
  "set_allocated_method L s m = (if s \<noteq> None then set_has_method m else clear_has_method m)\<lparr>rm_method := SetAllocatedNoArena L s (rm_method m)\<rparr>"

definition has_request :: "'s RpcMessage \<Rightarrow> bool" where
  "has_request m \<longleftrightarrow> has_bits m AND 0x10 \<noteq> 0"

definition set_has_request :: "'s RpcMessage \<Rightarrow> 's RpcMessage" where
  "set_has_request m = m\<lparr>has_bits := has_bits m OR 0x10\<rparr>"

definition clear_has_request :: "'s RpcMessage \<Rightarrow> 's RpcMessage" where
  "clear_has_request m = m\<lparr>has_bits := has_bits m AND NOT 0x10\<rparr>"

definition clear_request :: "'s arena_lib \<Rightarrow> 's RpcMessage \<Rightarrow> 's RpcMessage" where
  "clear_request L m = clear_has_request (m\<lparr>rm_request := ClearToEmptyNoArena L (rm_request m)\<rparr>)"

definition get_request :: "'s arena_lib \<Rightarrow> 's RpcMessage \<Rightarrow> BYTE list" where
  "get_request L m = GetNoArena L (rm_request m)"

definition set_request :: "'s arena_lib \<Rightarrow> BYTE list \<Rightarrow> 's RpcMessage \<Rightarrow> 's RpcMessage" where
  "set_request L value m = (set_has_request m)\<lparr>rm_request := SetNoArena L value (rm_request m)\<rparr>"

definition set_request_cstr :: "'s arena_lib \<Rightarrow> BYTE list option \<Rightarrow> 's RpcMessage \<Rightarrow> 's RpcMessage result" where
  "set_request_cstr L value m =
     bnd (std_string value) (\<lambda>s. Inr ((set_has_request m)\<lparr>rm_request := SetNoArena L s (rm_request m)\<rparr>))"

definition set_request_n :: "'s arena_lib \<Rightarrow> BYTE list \<Rightarrow> nat \<Rightarrow> 's RpcMessage \<Rightarrow> 's RpcMessage result" where
  "set_request_n L value sz m =
     bnd (string_n value sz) (\<lambda>s. Inr ((set_has_request m)\<lparr>rm_request := SetNoArena L s (rm_request m)\<rparr>))"

definition mutable_request :: "'s arena_lib \<Rightarrow> (BYTE list \<Rightarrow> BYTE list) \<Rightarrow> 's RpcMessage \<Rightarrow> 's RpcMessage" where
  "mutable_request L upd m = (set_has_request m)\<lparr>rm_request := MutableNoArena L upd (rm_request m)\<rparr>"

definition release_request :: "'s arena_lib \<Rightarrow> 's RpcMessage \<Rightarrow> BYTE list option \<times> 's RpcMessage" where
  "release_request L m = (case ReleaseNoArena L (rm_request m) of (s, p) \<Rightarrow> (s, (clear_has_request m)\<lparr>rm_request := p\<rparr>))"

definition set_allocated_request :: "'s arena_lib \<Rightarrow> BYTE list option \<Rightarrow> 's RpcMessage \<Rightarrow> 's RpcMessage" where
  "set_allocated_request L s m = (if s \<noteq> None then set_has_request m else clear_has_request m)\<lparr>rm_request := SetAllocatedNoArena L s (rm_request m)\<rparr>"

definition has_response :: "'s RpcMessage \<Rightarrow> bool" where
  "has_response m \<longleftrightarrow> has_bits m AND 0x20 \<noteq> 0"

definition set_has_response :: "'s RpcMessage \<Rightarrow> 's RpcMessage" where
  "set_has_response m = m\<lparr>has_bits := has_bits m OR 0x20\<rparr>"

definition clear_has_response :: "'s RpcMessage \<Rightarrow> 's RpcMessage" where
  "clear_has_response m = m\<lparr>has_bits := has_bits m AND NOT 0x20\<rparr>"

definition clear_response :: "'s arena_lib \<Rightarrow> 's RpcMessage \<Rightarrow> 's RpcMessage" where
  "clear_response L m = clear_has_response (m\<lparr>rm_response := ClearToEmptyNoArena L (rm_response m)\<rparr>)"

definition get_response :: "'s arena_lib \<Rightarrow> 's RpcMessage \<Rightarrow> BYTE list" where
  "get_response L m = GetNoArena L (rm_response m)"

definition set_response :: "'s arena_lib \<Rightarrow> BYTE list \<Rightarrow> 's RpcMessage \<Rightarrow> 's RpcMessage" where
  "set_response L value m = (set_has_response m)\<lparr>rm_response := SetNoArena L value (rm_response m)\<rparr>"

definition set_response_cstr :: "'s arena_lib \<Rightarrow> BYTE list option \<Rightarrow> 's RpcMessage \<Rightarrow> 's RpcMessage result" where
  "set_response_cstr L value m =
     bnd (std_string value) (\<lambda>s. Inr ((set_has_response m)\<lparr>rm_response := SetNoArena L s (rm_response m)\<rparr>))"

definition set_response_n :: "'s arena_lib \<Rightarrow> BYTE list \<Rightarrow> nat \<Rightarrow> 's RpcMessage \<Rightarrow> 's RpcMessage result" where
  "set_response_n L value sz m =
     bnd (string_n value sz) (\<lambda>s. Inr ((set_has_response m)\<lparr>rm_response := SetNoArena L s (rm_response m)\<rparr>))"

definition mutable_response :: "'s arena_lib \<Rightarrow> (BYTE list \<Rightarrow> BYTE list) \<Rightarrow> 's RpcMessage \<Rightarrow> 's RpcMessage" where
  "mutable_response L upd m = (set_has_response m)\<lparr>rm_response := MutableNoArena L upd (rm_response m)\<rparr>"

definition release_response :: "'s arena_lib \<Rightarrow> 's RpcMessage \<Rightarrow> BYTE list option \<times> 's RpcMessage" where
  "release_response L m = (case ReleaseNoArena L (rm_response m) of (s, p) \<Rightarrow> (s, (clear_has_response m)\<lparr>rm_response := p\<rparr>))"

definition set_allocated_response :: "'s arena_lib \<Rightarrow> BYTE list option \<Rightarrow> 's RpcMessage \<Rightarrow> 's RpcMessage" where
  "set_allocated_response L s m = (if s \<noteq> None then set_has_response m else clear_has_response m)\<lparr>rm_response := SetAllocatedNoArena L s (rm_response m)\<rparr>"

definition has_error :: "'s RpcMessage \<Rightarrow> bool" where
  "has_error m \<longleftrightarrow> has_bits m AND 0x40 \<noteq> 0"

definition set_has_error :: "'s RpcMessage \<Rightarrow> 's RpcMessage" where
  "set_has_error m = m\<lparr>has_bits := has_bits m OR 0x40\<rparr>"

definition clear_has_error :: "'s RpcMessage \<Rightarrow> 's RpcMessage" where
  "clear_has_error m = m\<lparr>has_bits := has_bits m AND NOT 0x40\<rparr>"

definition clear_error :: "'s RpcMessage \<Rightarrow> 's RpcMessage" where
  "clear_error m = clear_has_error (m\<lparr>rm_error := 0\<rparr>)"

definition get_error :: "'s RpcMessage \<Rightarrow> int" where
  "get_error m = rm_error m"

definition set_error :: "(int \<Rightarrow> bool) \<Rightarrow> int \<Rightarrow> 's RpcMessage \<Rightarrow> 's RpcMessage result" where
  "set_error valid value m = bnd (assert_c (valid value)) (\<lambda>_. Inr ((set_has_error m)\<lparr>rm_error := value\<rparr>))"

section \<open>The presence bits\<close>

lemmas service_defs = has_service_def set_has_service_def clear_has_service_def clear_service_def get_service_def set_service_def mutable_service_def
  release_service_def set_allocated_service_def

lemmas method_defs = has_method_def set_has_method_def clear_has_method_def clear_method_def get_method_def set_method_def mutable_method_def
  release_method_def set_allocated_method_def

lemmas request_defs = has_request_def set_has_request_def clear_has_request_def clear_request_def get_request_def set_request_def mutable_request_def
  release_request_def set_allocated_request_def

lemmas response_defs = has_response_def set_has_response_def clear_has_response_def clear_response_def get_response_def set_response_def mutable_response_def
  release_response_def set_allocated_response_def

lemmas type_defs = has_type_def set_has_type_def clear_has_type_def clear_type_def get_type_def set_type_def

lemmas id_defs = has_id_def set_has_id_def clear_has_id_def clear_id_def get_id_def set_id_def

lemmas error_defs = has_error_def set_has_error_def clear_has_error_def clear_error_def get_error_def set_error_def

lemma or_and_self: "(w OR k) AND k = k" for w :: "'a::len word"
  by (auto simp: bit_eq_iff bit_simps)

lemmas rpc_bits = or_and_self word_and_or_disjoint(1) and.assoc

section \<open>Optional fields\<close>

locale optional_field =
  fixes has_f :: "'m \<Rightarrow> bool"
    and get_f :: "'m \<Rightarrow> BYTE list"
    and put_f :: "BYTE list \<Rightarrow> 'm \<Rightarrow> 'm"
    and clear_f :: "'m \<Rightarrow> 'm"
    and mutable_f :: "(BYTE list \<Rightarrow> BYTE list) \<Rightarrow> 'm \<Rightarrow> 'm"
    and release_f :: "'m \<Rightarrow> BYTE list option \<times> 'm"
    and adopt_f :: "BYTE list option \<Rightarrow> 'm \<Rightarrow> 'm"
  assumes put: "has_f (put_f v m)" "get_f (put_f v m) = v"
    and clear: "\<not> has_f (clear_f m)" "get_f (clear_f m) = []"
    and mutable: "has_f (mutable_f upd m)" "get_f (mutable_f upd m) = upd (get_f m)"
    and release: "\<not> has_f (snd (release_f m))" "get_f (snd (release_f m)) = []" "fst (release_f (put_f v m)) = Some v"
    and adopt: "has_f (adopt_f s m) \<longleftrightarrow> s \<noteq> None" "get_f (adopt_f s m) = (case s of None \<Rightarrow> [] | Some v \<Rightarrow> v)"
begin

text \<open>Ownership of a string moves from one message to another without loss.\<close>

lemma move_field:
  assumes "release_f (put_f v m) = (s, m')"
  shows "has_f (adopt_f s k) \<and> get_f (adopt_f s k) = v \<and> \<not> has_f m' \<and> get_f m' = []"
  using release(1,2) [of "put_f v m"] release(3) [of v m] assms by (simp add: adopt)

lemma append_field: "get_f (mutable_f (\<lambda>s. s @ w) (put_f v m)) = v @ w"
  by (simp add: mutable put)

lemma field_absent_empty: "\<not> has_f (adopt_f None m) \<and> get_f (adopt_f None m) = get_f (clear_f k)"
  by (simp add: adopt clear)

end

text \<open>Any library that keeps the laws gives four such fields.\<close>

locale arena =
  fixes L :: "'s arena_lib"
  assumes laws: "arena_laws L"
begin

lemma get_after_set: "GetNoArena L (SetNoArena L v p) = v"
  using laws by (simp add: arena_laws_def)

end

sublocale arena \<subseteq> service_field: optional_field "has_service" "get_service L" "set_service L" "clear_service L" "mutable_service L" "release_service L"
  "set_allocated_service L"
  by unfold_locales (use laws in \<open>auto simp: service_defs rpc_bits arena_laws_def split_beta split: option.split\<close>)

sublocale arena \<subseteq> method_field: optional_field "has_method" "get_method L" "set_method L" "clear_method L" "mutable_method L" "release_method L"
  "set_allocated_method L"
  by unfold_locales (use laws in \<open>auto simp: method_defs rpc_bits arena_laws_def split_beta split: option.split\<close>)

sublocale arena \<subseteq> request_field: optional_field "has_request" "get_request L" "set_request L" "clear_request L" "mutable_request L" "release_request L"
  "set_allocated_request L"
  by unfold_locales (use laws in \<open>auto simp: request_defs rpc_bits arena_laws_def split_beta split: option.split\<close>)

sublocale arena \<subseteq> response_field: optional_field "has_response" "get_response L" "set_response L" "clear_response L" "mutable_response L" "release_response L"
  "set_allocated_response L"
  by unfold_locales (use laws in \<open>auto simp: response_defs rpc_bits arena_laws_def split_beta split: option.split\<close>)

text \<open>The documented behaviour: the pointer is at the shared empty string or at an owned string.\<close>

definition ptr_arena :: "BYTE list option arena_lib" where
  "ptr_arena = \<lparr>GetNoArena = (\<lambda>p. case p of None \<Rightarrow> [] | Some s \<Rightarrow> s), SetNoArena = (\<lambda>v p. Some v),
     ClearToEmptyNoArena = (\<lambda>p. map_option (\<lambda>_. []) p),
     MutableNoArena = (\<lambda>f p. Some (f (case p of None \<Rightarrow> [] | Some s \<Rightarrow> s))), ReleaseNoArena = (\<lambda>p. (p, None)),
     SetAllocatedNoArena = (\<lambda>s p. s)\<rparr>"

lemma ptr_arena_laws: "arena_laws ptr_arena"
  by (simp add: arena_laws_def ptr_arena_def split: option.split)

interpretation ptr: arena ptr_arena
  by unfold_locales (rule ptr_arena_laws)

section \<open>Fields do not disturb each other\<close>

lemma fields_apart:
  "has_method (set_service L v m) = has_method m" "get_method L' (set_service L v m) = get_method L' m"
  "has_request (set_method L v m) = has_request m" "get_request L' (set_method L v m) = get_request L' m"
  "has_response (set_request L v m) = has_response m" "get_response L' (set_request L v m) = get_response L' m"
  "has_service (clear_response L m) = has_service m" "get_service L' (clear_response L m) = get_service L' m"
  by (simp_all add: service_defs method_defs request_defs response_defs rpc_bits)

lemma scalars:
  "has_id (set_id v m)" "get_id (set_id v m) = v" "\<not> has_id (clear_id m)" "get_id (clear_id m) = 0"
  "valid t \<Longrightarrow> \<exists>m'. set_type valid t m = Inr m' \<and> has_type m' \<and> get_type m' = t \<and> has_id m' = has_id m \<and> get_id m' = get_id m"
  "\<not> valid t \<Longrightarrow> set_type valid t m = Inl AssertFail"
  "valid e \<Longrightarrow> \<exists>m'. set_error valid e m = Inr m' \<and> has_error m' \<and> get_error m' = e \<and> has_type m' = has_type m"
  "\<not> has_type (clear_type m)" "get_type (clear_type m) = MessageType_num REQUEST"
  "\<not> has_error (clear_error m)" "get_error (clear_error m) = ErrorCode_num NO_ERROR"
  by (simp_all add: id_defs type_defs error_defs rpc_bits assert_c_def)

end
