(* ===== verification/Spec2Isabelle.thy ===== *)
theory Spec2Isabelle
  imports Server_Threads Packet_Queue Buffer_Spec Bounded_Queue Muduo_Base Proto_Rpc Sql_Tests Sql_System Conn_Race Rpc_Message
begin

text \<open>
  PetsServer: a game server on top of the muduo network library. This development models the
  server's own code (\<^verbatim>\<open>src/*.cpp\<close>, \<^verbatim>\<open>NetMsg\<close>, \<^verbatim>\<open>ObjectModule\<close>, \<^verbatim>\<open>MySqlModule\<close>) and the code
  that the muduo headers under \<^verbatim>\<open>muduo/include\<close> hold, and proves what makes them correct, or
  where and how they fail.

  \<^bold>\<open>The program.\<close> Twenty I/O threads run muduo event loops. A connection that comes up is given
  an id and an entry in the connection table (\<^verbatim>\<open>PetsServer::onConnection\<close>, \<^verbatim>\<open>GreateDnid\<close>). Its
  input buffer (\<^verbatim>\<open>muduo::net::Buffer\<close>) is cut into frames of a 4-byte big-endian length and a
  body (\<^verbatim>\<open>Codec::onMessage\<close>); every frame becomes a packet in the queue of the
  \<^verbatim>\<open>Dispatcher\<close>. The logic thread (\<^verbatim>\<open>PetsServer::ServerLoop\<close>, 20 frames a second) drains the
  queue (\<^verbatim>\<open>DispatchMsg\<close>) and calls the handler bound to the first byte of a packet
  (\<^verbatim>\<open>PetsManager::OnDispatch*\<close>), then lets the object manager remove released objects
  (\<^verbatim>\<open>CObjectManager::Run\<close>). \<^verbatim>\<open>PetsServer::start\<close> queues two SQL tasks
  (\<^verbatim>\<open>Pet::PrepareSQL\<close>, \<^verbatim>\<open>MyQuery::PushSqlPack\<close>; the call in the login handler is commented out) that the SQL
  thread (\<^verbatim>\<open>MysqlLoop\<close>) runs: plain statements, prepared statements and stored procedures
  (\<^verbatim>\<open>ProcedureHelper\<close>).

  \<^bold>\<open>The theories\<close>, in the order of their dependence:
  \<^item> \<open>Pets_Prelude\<close>: the integer types of \<^verbatim>\<open>Define.hpp\<close>, the faults a run can end in, the bind of
    fallible steps, \<^verbatim>\<open>size_t\<close> arithmetic, C strings, \<^verbatim>\<open>std::search\<close>, \<^verbatim>\<open>memchr\<close>, \<^verbatim>\<open>memcmp\<close>.
  \<^item> \<open>Std_Map\<close>: \<^verbatim>\<open>std::map\<close> as a sorted association list; locale \<open>finite_store\<close>.
  \<^item> \<open>Transition\<close>, \<open>Lock_Discipline\<close>: reachable states, the locale \<open>invariant_system\<close> and its
    extension \<open>simulation\<close>, a refinement mapping between two step relations; the locales \<open>lock_places\<close> and \<open>wait_class\<close>, the disciplines of a mutex and of a condition variable.
    The interleavings below interpret them.
  \<^item> \<open>Endian\<close>, \<open>String_Piece\<close>, \<open>Net_Buffer\<close>: the muduo headers of these names; locale
    \<open>byte_buffer\<close> is what the codec relies on.
  \<^item> \<open>C_Strings\<close>, \<open>Timing\<close>, \<open>Sync\<close>: number printing, \<^verbatim>\<open>CELLTimestamp\<close>, \<^verbatim>\<open>Timestamp\<close>, \<^verbatim>\<open>Date\<close>, the
    thread primitives of \<^verbatim>\<open>muduo/base\<close>.
  \<^item> \<open>Net_Messages\<close>: the message structs of \<^verbatim>\<open>NetMsg\<close> and their memory images.
  \<^item> \<open>Objects\<close>: \<^verbatim>\<open>ObjectManager\<close>, \<^verbatim>\<open>Object\<close>, \<^verbatim>\<open>Pet\<close>'s data, over an explicit heap.
  \<^item> \<open>Tcp_Net\<close>: connections, servers, channels and loops as far as the headers have code.
  \<^item> \<open>Dispatch\<close>, \<open>Packet_Queue\<close>, \<open>Packet_Codec\<close>: \<^verbatim>\<open>Dispatcher\<close>, the interleaving of its threads,
    \<^verbatim>\<open>Codec\<close>.
  \<^item> \<open>Sql_Query\<close>, \<open>Sql_Procedure\<close>, \<open>Sql_Loop\<close>: \<^verbatim>\<open>MyQuery\<close>, \<^verbatim>\<open>ProcedureHelper\<close>, the SQL thread.
  \<^item> \<open>Pets\<close>, \<open>Pets_Server\<close>, \<open>Sql_Tests\<close>: the handlers, the server with \<^verbatim>\<open>main\<close>, and the rest of
    \<^verbatim>\<open>MysqlQuery.cpp\<close>.
  \<^item> \<open>Server_System\<close>: the running server, an interleaving of connections that open and close,
    bytes that arrive, turns of \<^verbatim>\<open>onMessage\<close> and the statements of \<^verbatim>\<open>ServerLoop\<close>, over the state of
    \<open>Pets_Server\<close>, with histories of bytes, packets and handler calls.
  \<^item> \<open>Atomic_Queue\<close>: the contract of a queue that threads share, each operation one step. \<open>simulation\<close>
    maps the packet queue and both blocking queues to it.
  \<^item> \<open>Server_Threads\<close>: the running server with the lock, \<^verbatim>\<open>PushPack\<close> and \<^verbatim>\<open>GetPack\<close> taken apart into
    their statements; \<open>simulation\<close> maps it to \<open>Server_System\<close>.
  \<^item> \<open>Sql_System\<close>: \<^verbatim>\<open>PrepareSQL\<close> on any number of threads with the SQL thread, step by step, and the
    sequential execution it amounts to. \<open>Conn_Race\<close>: \<^verbatim>\<open>onConnection\<close> on several I/O threads.
  \<^item> \<open>Buffer_Spec\<close>: the abstract byte queue that \<open>Net_Buffer\<close> refines.
  \<^item> \<open>Blocking_Queue\<close>, \<open>Bounded_Queue\<close>: the blocking queues of \<^verbatim>\<open>muduo/base\<close> as whole calls and as
    interleavings.
  \<^item> \<open>Log_Stream\<close>, \<open>Muduo_Base\<close>, \<open>Http\<close>, \<open>Proto_Rpc\<close>, \<open>Rpc_Message\<close>: the remaining muduo headers
    and the accessors of the generated \<^verbatim>\<open>rpc.pb.h\<close>, with locales for an optional field and for the
    arena string.

  \<^bold>\<open>How code becomes definitions.\<close> A class is a record, its members are fields, its member
  functions definitions with the object as argument and result; names are those of the source, with
  a prefix where two classes or HOL use the name. A step that can fault has type \<open>'a result\<close>, a
  sum of \<open>fault\<close> and value: a failed assertion, an access out of bounds, a null dereference, a
  double free, a call of an empty function, a function left without its return statement.
  Integers are words of their width. Time, random numbers and uninitialised memory are
  arguments. Functions of the C++ library are defined where the code uses them. The MySQL
  client, zlib, \<^verbatim>\<open>boost::circular_buffer\<close>, the bodies of muduo functions that are not in headers and
  the printing of floating-point numbers are parameters.

  \<^bold>\<open>Loops.\<close> Loops over a list are structural recursion. Loops that the code does not bound
  (\<^verbatim>\<open>onMessage\<close>, \<^verbatim>\<open>GreateDnid\<close>, the loop of \<^verbatim>\<open>Parse\<close>, the fetch loop of the login callback) are
  partial functions into \<open>option\<close>, where \<open>None\<close> is a call that does not return; C1,
  C16, C19 and C34 include that they return. \<^verbatim>\<open>DispatchMsg\<close> recurses over the queue and the batches of packets
  that arrive while it runs. The frame loop and the SQL thread run for as long as the process
  does: one frame and one turn are definitions, and the loops iterate them over a finite list of
  turns. The only fuel is that of \<open>sql_drain\<close>, the inner loop of a turn: the turn gives it the length
  of the queue, which the held lock bounds, and C26 shows that it never runs out.

  \<^bold>\<open>The properties.\<close> C1 to C3: decoding of the
  input stream against the frame format, whatever the fragmentation, and sending. C4 to
  C8: the running server, from the bytes of a connection to the effect of the handlers,
  with turns as steps and with the threads anywhere inside their turns.
  C9 to C12: dispatch, and the packet queue under interleaving.
  C13 and C14: the buffer as a byte queue, and messages from the sender's struct
  to the receiver's queue. C15 to C17: connection ids.
  C18 to C25: handlers, object manager, start, frame, shutdown.
  C26 to C34: the SQL thread alone and among the others, stored procedures,
  statements, login. C35 to C40: blocking queues under interleaving, log lines,
  string comparison, file handles.
  Where the code fails, the property states the failure: C7, C17,
  C22, C25, C29, C31
  and parts of C18, C26 and C33. Lemmas beside them
  show other failures: messages too long for the receiver, output parameters (\<^verbatim>\<open>Execute\<close> never returns 0), blobs
  that overrun the statement buffer, two consumers of the packet queue, the entry a pet leaves in the table, a task without parameters, an \<^verbatim>\<open>INOUT\<close> value, the port.

  \<^bold>\<open>Not modelled.\<close> Member functions that the muduo headers only declare have no bodies in the
  sources; where modelled code calls them they are parameters. Of the generated \<^verbatim>\<open>rpc.pb.h\<close> the
  functions that go through the protobuf runtime (parsing, printing, descriptors) are left out. In
  \<open>Server_System\<close> one turn of \<^verbatim>\<open>onMessage\<close> or of \<^verbatim>\<open>DispatchMsg\<close> is one step, which C8
  justifies. \<^verbatim>\<open>onConnection\<close> is one step in both; \<open>Conn_Race\<close> takes it apart and shows that this loses
  behaviour. The callbacks
  of one connection run one after another on its thread, so it does not close inside a turn. Torn reads and writes inside \<^verbatim>\<open>std::map\<close> and \<^verbatim>\<open>std::queue\<close>, which
  C++ leaves undefined, have no model.
\<close>

section \<open>Sample states for the witnesses\<close>

definition sample_addr :: InetAddress where
  "sample_addr = InetAddress_of_in 2 0x901F 0"

definition sample_conn :: "StateE \<Rightarrow> conn_any \<Rightarrow> (conn_any, srv_cb) TcpConnection" where
  "sample_conn st ctx =
     \<lparr>tc_loop = 0, tc_name = ''c'', tc_state = st, tc_reading = True, tc_localAddr = sample_addr,
      tc_peerAddr = sample_addr, tc_connectionCallback = Some CbOnConnection,
      tc_messageCallback = Some CbOnMessage, tc_writeCompleteCallback = None,
      tc_highWaterMarkCallback = None, tc_closeCallback = None, tc_highWaterMark = 65536,
      tc_inputBuffer = \<lparr>buffer = [], readerIndex = 0, writerIndex = 0\<rparr>,
      tc_outputBuffer = \<lparr>buffer = [], readerIndex = 0, writerIndex = 0\<rparr>, tc_context = ctx\<rparr>"

text \<open>A buffer with the eight bytes of prepend space and the given content.\<close>

definition sample_buffer :: "BYTE list \<Rightarrow> Buffer" where
  "sample_buffer bs = \<lparr>buffer = replicate 8 0 @ bs, readerIndex = 8, writerIndex = 8 + length bs\<rparr>"

definition sample_codec :: "unit Codec" where
  "sample_codec = Codec_new 0"

lemma sample_buffer_ok:
  "length bs \<le> 1000 \<Longrightarrow> buffer_ok (sample_buffer bs)" "content (sample_buffer bs) = bs"
  by (simp_all add: sample_buffer_def buffer_ok_def content_def buf_range_def kCheapPrepend_def vec_max_def)

lemma sample_codec_ok: "codec_ok sample_codec"
  by (simp add: sample_codec_def Codec_new_def InitCodecMem_def codec_ok_def Dispatcher_new_def lock_free_def
      MutexLock_new_def mutex_ok_def)

lemma sample_conn_simps [simp]:
  "getContext (sample_conn st ctx) = ctx" "connected (sample_conn st ctx) \<longleftrightarrow> st = kConnected"
  by (simp_all add: sample_conn_def getContext_def connected_def)

section \<open>Decoding and encoding of frames\<close>

text \<open>
  C1: on a well-formed buffer \<^verbatim>\<open>Codec::onMessage\<close> returns, queues exactly the complete frames at
  the front of the buffer, in order and with the context of the connection, leaves the
  incomplete rest in the buffer, and shuts the connection down exactly when a header announces a
  length outside 0 to 65536.
\<close>

theorem onMessage_refines_decode:
  assumes "buffer_ok b" "codec_ok c" "getContext conn \<noteq> AnyEmpty" "decode (content b) = (fs, rest, bad)"
  shows "\<exists>b'. onMessage t conn b ts c =
      Some (Inr (b', with_queue (codec_queue c @ map (ctx_pack (getContext conn)) fs) c,
        if bad then [CallShutdown] else [])) \<and> buffer_ok b' \<and> content b' = rest"
  using onMessage_loop_decode [OF assms, of t "[]"] by (auto simp: onMessage_def)

theorem onMessage_refines_decode_witness:
  "\<exists>b'. onMessage 1 (sample_conn kConnected (AnyDnid 7)) (sample_buffer [0, 0, 0, 2, 0x66, 0, 0, 0]) Timestamp_default
      sample_codec =
    Some (Inr (b', with_queue [\<lparr>pack_dnid = 7, pack_buffer = Some [0x66, 0], pack_context = None\<rparr>] sample_codec, [])) \<and>
    buffer_ok b' \<and> content b' = [0, 0]"
proof -
  have "decode [0, 0, 0, 2, 0x66, 0, 0, 0] = ([[0x66, 0]], [0, 0], False)" by code_simp
  then show ?thesis
    using onMessage_refines_decode [of "sample_buffer [0, 0, 0, 2, 0x66, 0, 0, 0]" sample_codec
        "sample_conn kConnected (AnyDnid 7)" "[[0x66, 0]]" "[0, 0]" False 1 Timestamp_default]
    by (simp add: sample_buffer_ok sample_codec_ok ctx_pack_def)
      (simp add: sample_codec_def Codec_new_def InitCodecMem_def codec_queue_def Dispatcher_new_def)
qed

text \<open>
  C2: cutting the input stream at another place changes nothing. When a call of
  \<^verbatim>\<open>onMessage\<close> did not shut down, appending the next bytes to what it left and calling it
  again gives the same queue, the same calls and the same rest as one call on all the bytes.
\<close>

theorem onMessage_fragmentation:
  assumes ok: "buffer_ok b" "codec_ok c" "getContext conn \<noteq> AnyEmpty"
    and first: "onMessage t conn b ts c = Some (Inr (b1, c1, []))"
    and room: "writerIndex b + length d \<le> vec_max" "writerIndex b1 + length d \<le> vec_max"
    and app: "Buffer_append b1 d = Inr b2" "Buffer_append b d = Inr b3"
  shows "\<exists>b4 b5 c' calls. onMessage t conn b2 ts c1 = Some (Inr (b4, c', calls)) \<and>
    onMessage t conn b3 ts c = Some (Inr (b5, c', calls)) \<and> content b4 = content b5"
proof -
  obtain fs rest bad where d1: "decode (content b) = (fs, rest, bad)" by (cases "decode (content b)") auto
  let ?P = "ctx_pack (getContext conn)"
  have r1: "\<not> bad" "c1 = with_queue (codec_queue c @ map ?P fs) c" "buffer_ok b1" "content b1 = rest"
    using onMessage_loop_decode [OF ok d1, of t "[]"] first by (auto simp: onMessage_def split: if_splits)
  have b2: "buffer_ok b2" "content b2 = rest @ d" using Buffer_append_ok [OF r1(3) room(2)] app(1) r1(4) by auto
  have b3: "buffer_ok b3" "content b3 = content b @ d" using Buffer_append_ok [OF ok(1) room(1)] app(2) by auto
  obtain fs' r' bad' where d2: "decode (rest @ d) = (fs', r', bad')" by (cases "decode (rest @ d)") auto
  have d3: "decode (content b3) = (fs @ fs', r', bad')"
    using decode_append [of "content b" fs rest d] d1 d2 r1(1) by (simp add: b3(2))
  show ?thesis
    using onMessage_loop_decode [OF b2(1) _ ok(3), of c1 fs' r' bad' t "[]"] d2 ok(2)
      onMessage_loop_decode [OF b3(1) ok(2,3) d3, of t "[]"]
    by (fastforce simp: onMessage_def b2(2) r1(2))
qed

theorem onMessage_fragmentation_witness:
  "\<exists>b1 c1 b2 b3 b4 b5 c' calls.
     onMessage 1 (sample_conn kConnected (AnyDnid 7)) (sample_buffer [0, 0]) Timestamp_default sample_codec =
       Some (Inr (b1, c1, [])) \<and> Buffer_append b1 [0, 1, 0x66] = Inr b2 \<and>
     Buffer_append (sample_buffer [0, 0]) [0, 1, 0x66] = Inr b3 \<and>
     onMessage 1 (sample_conn kConnected (AnyDnid 7)) b2 Timestamp_default c1 = Some (Inr (b4, c', calls)) \<and>
     onMessage 1 (sample_conn kConnected (AnyDnid 7)) b3 Timestamp_default sample_codec = Some (Inr (b5, c', calls)) \<and>
     content b4 = content b5"
proof -
  let ?b = "sample_buffer [0, 0]" and ?k = "sample_conn kConnected (AnyDnid 7)"
  have ok: "buffer_ok ?b" by (rule sample_buffer_ok) simp
  have first: "onMessage 1 ?k ?b Timestamp_default sample_codec = Some (Inr (?b, sample_codec, []))"
    unfolding onMessage_def
    by (subst onMessage_loop.simps) (simp add: sample_buffer_def readableBytes_def HEADMSGLEN_def)
  have room: "writerIndex ?b + length [0, 1, 0x66 :: BYTE] \<le> vec_max" by (simp add: sample_buffer_def vec_max_def)
  then obtain b2 where b2: "Buffer_append ?b [0, 1, 0x66] = Inr b2"
    using Buffer_append_ok [OF ok] by blast
  have "getContext ?k \<noteq> AnyEmpty" by simp
  from onMessage_fragmentation [OF ok sample_codec_ok this first room room b2 b2] first b2 show ?thesis
    by blast
qed

text \<open>
  C3: the receiving side gets back what \<^verbatim>\<open>Codec::SendMsg\<close> sends, whatever follows on the stream,
  for messages of up to 65536 bytes.
\<close>

theorem SendMsg_decode:
  assumes "unat sz \<le> length data" "unat sz \<le> 65536"
  shows "\<exists>bytes. SendMsg data sz = Inr [CallSend bytes] \<and>
    decode (bytes @ rest) = (case decode rest of (fs, r, bad) \<Rightarrow> (take (unat sz) data # fs, r, bad))"
  using SendMsg_ok [OF assms(1)] decode_encode [of "take (unat sz) data" rest] assms by simp

theorem SendMsg_decode_witness:
  "\<exists>bytes. SendMsg [0x64, 0, 65, 0] 3 = Inr [CallSend bytes] \<and> decode (bytes @ [9]) = ([[0x64, 0, 65]], [9], False)"
proof -
  have "decode [9] = ([], [9], False)" by code_simp
  then show ?thesis using SendMsg_decode [of 3 "[0x64, 0, 65, 0]" "[9]"] by simp
qed

text \<open>
  \<^verbatim>\<open>SendMsg\<close> does not check the limit of the decoder: a message of more than 65536 bytes is
  sent, and the receiving side takes no frame from it and stops.
\<close>

lemma SendMsg_too_long:
  assumes "unat sz \<le> length data" "65536 < unat sz"
  shows "\<exists>bytes. SendMsg data sz = Inr [CallSend bytes] \<and> decode (bytes @ rest) = ([], bytes @ rest, True)"
proof -
  let ?e = "encode (take (unat sz) data)"
  have "take 4 (?e @ rest) = take 4 ?e" by (simp add: encode_def)
  then have len: "header_len (take 4 (?e @ rest)) = sint sz"
    using header_len_send [OF assms(1)] by (simp only:)
  have "sint sz > 65536 \<or> sint sz < 0"
  proof (rule ccontr)
    assume "\<not> ?thesis"
    then have range: "0 \<le> sint sz" "sint sz \<le> 65536" by simp_all
    have "uint sz = sint sz mod 2 ^ LENGTH(32)"
      using uint_word_of_int [of "sint sz", where 'a = 32] by (simp only: of_int_sint scast_id)
    also have "\<dots> = sint sz" using range by simp
    finally have "int (unat sz) = sint sz" by simp
    then show False using assms(2) range(2) by linarith
  qed
  moreover have "4 \<le> length (?e @ rest)" by (simp add: encode_def)
  ultimately have "decode (?e @ rest) = ([], ?e @ rest, True)" by (intro decode_bad) (simp_all only: len)
  then show ?thesis using SendMsg_ok [OF assms(1)] by auto
qed

section \<open>Dispatching packets\<close>

text \<open>
  C9: what \<^verbatim>\<open>Dispatcher::DispatchMsg\<close> does when it returns. Of the packets that were queued or
  arrived it takes a front part and runs the handlers on it, one after the other in queue
  order; it deletes the packets that carry a message, counts them, keeps the callback table, and
  leaves packets behind only when more than 1000 ms have passed since it began.
\<close>

theorem DispatchMsg_handles_prefix:
  assumes "DispatchMsg t clock arr d w = Inr r"
  shows "\<exists>handled. m_MsgQueue d @ concat arr = handled @ m_MsgQueue (dr_disp r) @ concat (dr_arr r) \<and>
    handle_packs (m_callBackMap d) handled w = Inr (dr_world r) \<and>
    dr_freed r = filter has_buffer handled \<and> msgCounter r = int (length (filter has_buffer handled)) \<and>
    m_callBackMap (dr_disp r) = m_callBackMap d \<and>
    (m_MsgQueue (dr_disp r) = [] \<or>
     1000 < elapsed_ms (word_of_int (getCurrentTimeStampMiliSec (clock 0))) (clock (dr_clock r - 1)))"
  using dispatch_loop_post [OF assms [unfolded DispatchMsg_def]] by (simp add: dispatch_post_def)

definition sample_packet :: "BYTE list \<Rightarrow> SPacket" where
  "sample_packet bs = \<lparr>pack_dnid = 7, pack_buffer = Some bs, pack_context = None\<rparr>"

text \<open>A dispatcher with the server's handlers and the given queue.\<close>

definition sample_disp :: "SPacket list \<Rightarrow> CObjectManager Dispatcher" where
  "sample_disp q = (bind_handlers (Dispatcher_new 0))\<lparr>m_MsgQueue := q\<rparr>"

definition sample_manager :: CObjectManager where
  "sample_manager = \<lparr>m_lMaxSize = 0, m_ObjectMap = [(3, None), (5, Some 1)], m_RemoveList = []\<rparr>"

lemma sample_disp_ok: "lock_free (sample_disp q)" "m_MsgQueue (sample_disp q) = q"
  by (simp_all add: sample_disp_def bind_handlers_def BindCB_def Dispatcher_new_def lock_free_def MutexLock_new_def
      mutex_ok_def)

lemma sample_disp_callbacks:
  "map_find (m_callBackMap (sample_disp q)) (ucast k) =
    (if k = KKDD_LOGIN_MESSAGE_BASE then Some (Some (as_callback OnDispatchLoginMsg))
     else if k = KKDD_MOVE_MESSAGE_BASE then Some (Some (as_callback OnDispatchMoveMsg))
     else if k = KKDD_CHAT_MESSAGE_BASE then Some (Some (as_callback OnDispatchChatMsg)) else None)" for k :: BYTE
  using bind_handlers_find [of "Dispatcher_new 0" k] by (simp add: sample_disp_def Dispatcher_new_def)

lemma sample_chat: "handle_pack (m_callBackMap (sample_disp q)) (sample_packet [0x66, 0]) w = Inr w"
  by (simp add: handle_pack_def sample_packet_def read_byte_def sample_disp_callbacks KKDD_CHAT_MESSAGE_BASE_def
      KKDD_LOGIN_MESSAGE_BASE_def KKDD_MOVE_MESSAGE_BASE_def as_callback_def OnDispatchChatMsg_ok)

lemma elapsed_ms_same [simp]: "elapsed_ms (word_of_int (getCurrentTimeStampMiliSec c)) c = 0"
  by (simp add: elapsed_ms_def)

text \<open>
  C10: within the second, \<^verbatim>\<open>DispatchMsg\<close> handles the whole queue: it returns when every handler
  does, with an empty queue and the state the handlers leave, and it ends in the first fault
  otherwise.
\<close>

theorem DispatchMsg_complete:
  assumes "lock_free d" "\<And>i. elapsed_ms (word_of_int (getCurrentTimeStampMiliSec (clock 0))) (clock i) \<le> 1000"
  shows "case handle_packs (m_callBackMap d) (m_MsgQueue d) w of
      Inl e \<Rightarrow> DispatchMsg t clock [] d w = Inl e
    | Inr w' \<Rightarrow> \<exists>r. DispatchMsg t clock [] d w = Inr r \<and> m_MsgQueue (dr_disp r) = [] \<and> dr_world r = w' \<and>
        dr_freed r = filter has_buffer (m_MsgQueue d) \<and> msgCounter r = int (length (filter has_buffer (m_MsgQueue d)))"
  using dispatch_loop_all [where clock = clock and w = w and t = t and i = 1 and cnt = 0 and freed = "[]",
      OF assms(2,1)]
  by (cases "handle_packs (m_callBackMap d) (m_MsgQueue d) w") (simp_all add: DispatchMsg_def)

theorem DispatchMsg_complete_witness:
  "\<exists>r. DispatchMsg 1 (\<lambda>_. 0) [] (sample_disp [sample_packet [0x66, 0]]) sample_manager = Inr r \<and>
    m_MsgQueue (dr_disp r) = [] \<and> dr_world r = sample_manager \<and> dr_freed r = [sample_packet [0x66, 0]] \<and> msgCounter r = 1"
  using DispatchMsg_complete [where d = "sample_disp [sample_packet [0x66, 0]]" and clock = "\<lambda>_. 0" and
      w = sample_manager and t = 1]
  by (simp add: sample_disp_ok sample_chat) (simp add: sample_packet_def)

theorem DispatchMsg_handles_prefix_witness:
  "\<exists>r handled. DispatchMsg 1 (\<lambda>_. 0) [] (sample_disp [sample_packet [0x66, 0]]) sample_manager = Inr r \<and>
    [sample_packet [0x66, 0]] = handled @ m_MsgQueue (dr_disp r) @ concat (dr_arr r) \<and>
    msgCounter r = int (length (filter has_buffer handled))"
proof -
  obtain r where r: "DispatchMsg 1 (\<lambda>_. 0) [] (sample_disp [sample_packet [0x66, 0]]) sample_manager = Inr r"
    using dispatch_loop_all [where beginTS = 0 and clock = "\<lambda>_. 0" and d = "sample_disp [sample_packet [0x66, 0]]" and
        w = sample_manager and t = 1 and i = 1 and cnt = 0 and freed = "[]"]
    by (auto simp: DispatchMsg_def sample_disp_ok sample_chat elapsed_ms_def getCurrentTimeStampMiliSec_def)
  from DispatchMsg_handles_prefix [OF this] show ?thesis
    using r by (auto simp: sample_disp_ok)
qed

text \<open>
  A client can end the logic thread with one packet. With the handlers the server binds, a
  frame without bytes is read out of bounds, and a frame whose first byte is not one of the
  three bound types (the defined fight type included) calls an empty function.
\<close>

lemma DispatchMsg_unknown_type:
  assumes "lock_free d" "m_callBackMap d = m_callBackMap (bind_handlers (Dispatcher_new now))"
    "m_MsgQueue d = p # ps" "pack_buffer p = Some msg"
    "msg = [] \<or> hd msg \<notin> {KKDD_LOGIN_MESSAGE_BASE, KKDD_MOVE_MESSAGE_BASE, KKDD_CHAT_MESSAGE_BASE}"
    "\<And>i. elapsed_ms (word_of_int (getCurrentTimeStampMiliSec (clock 0))) (clock i) \<le> 1000"
  shows "DispatchMsg t clock [] d w = Inl (if msg = [] then OutOfBounds else BadFunctionCall)"
  using dispatch_loop_all [where clock = clock and w = w and t = t and i = 1 and cnt = 0 and freed = "[]",
      OF assms(6,1)] handle_unbound [OF assms(4,5), of now w]
  by (simp add: DispatchMsg_def assms(2,3))

text \<open>
  C11: the packet queue with any number of pushing threads and one consumer. In every reachable
  interleaving packets come out in the order they went in, none is lost or doubled, at most
  one thread is inside the critical section, and \<^verbatim>\<open>front\<close> and \<^verbatim>\<open>pop\<close> never meet an empty queue.
\<close>

theorem packet_queue_safe:
  assumes "reach q_init (q_step {c}) s"
  shows "qs_pushed s = qs_popped s @ qs_queue s \<and> \<not> qs_fault s \<and>
    (\<forall>t u. holds_lock (qs_pc s t) \<and> holds_lock (qs_pc s u) \<longrightarrow> t = u) \<and>
    (\<forall>t. qs_pc s t = GetHeld \<longrightarrow> qs_queue s \<noteq> [])"
proof -
  note inv = packq.reach_inv [OF assms, unfolded q_inv_def]
  have "qs_queue s \<noteq> []" if held: "qs_pc s t = GetHeld" for t
  proof -
    have "got_some (qs_pc s t)" by (simp add: held)
    then show ?thesis using inv by (auto simp: when_at_def)
  qed
  moreover have "t = u" if "holds_lock (qs_pc s t)" "holds_lock (qs_pc s u)" for t u
    using pqp.lock_inv_only [OF inv [THEN conjunct1] that(2,1)] .
  ultimately show ?thesis using inv by blast
qed

definition sample_queue :: qsys where
  "sample_queue = \<lparr>qs_queue = [], qs_mtx = MutexLock_new, qs_pc = (\<lambda>_. Idle), qs_fault = False,
     qs_pushed = [], qs_popped = []\<rparr>"

theorem packet_queue_safe_witness:
  "qs_pushed (sample_queue\<lparr>qs_pc := (qs_pc sample_queue)(2 := PushWant (sample_packet [0x66, 0]))\<rparr>) = [] \<and>
   \<not> qs_fault (sample_queue\<lparr>qs_pc := (qs_pc sample_queue)(2 := PushWant (sample_packet [0x66, 0]))\<rparr>)"
proof -
  have "reach q_init (q_step {1}) sample_queue" by (rule reach_init) (simp add: q_init_def sample_queue_def)
  then have r: "reach q_init (q_step {1})
      (sample_queue\<lparr>qs_pc := (qs_pc sample_queue)(2 := PushWant (sample_packet [0x66, 0]))\<rparr>)"
    by (rule reach_step) (rule push_call, simp add: sample_queue_def)
  from packet_queue_safe [OF r] show ?thesis by (simp add: sample_queue_def)
qed

text \<open>
  With two consumers the same code is not safe, because \<^verbatim>\<open>GetPack\<close> looks at
  \<^verbatim>\<open>m_MsgQueue.empty()\<close> before it takes the lock: a run exists in which the second consumer
  calls \<^verbatim>\<open>front\<close> and \<^verbatim>\<open>pop\<close> on an empty queue.
\<close>

lemma packet_queue_two_consumers: "\<exists>s. reach q_init (q_step {1, 2}) s \<and> qs_fault s"
  by (rule two_consumers_run)

section \<open>The queues as atomic objects\<close>

text \<open>
  C12: with one consumer the packet queue of the dispatcher is an atomic queue. Mapped to the place
  of each thread outside, before or after the effect of its call, every reachable state is a
  reachable state of the atomic queue, and every step is a call, an effect or a return there, or
  is invisible: the effect of \<^verbatim>\<open>PushPack\<close> and \<^verbatim>\<open>GetPack\<close> is the queue operation under the lock,
  which is why the running server can take each of them as one step.
\<close>

theorem packet_queue_atomic:
  assumes "reach q_init (q_step {c}) s"
  shows "reach aq_init (aq_step None) (q_abs s) \<and>
    (\<forall>s'. q_step {c} s s' \<longrightarrow> q_abs s' = q_abs s \<or> aq_step None (q_abs s) (q_abs s'))"
  using packatomic.abs_reach [OF assms] packatomic.abs_step_reach [OF assms] by blast

theorem packet_queue_atomic_witness:
  "reach aq_init (aq_step None) (q_abs (sample_queue\<lparr>qs_pc := (\<lambda>_. Idle)(1 := PushWant (sample_packet [7]))\<rparr>)) \<and>
    aq_phase (q_abs (sample_queue\<lparr>qs_pc := (\<lambda>_. Idle)(1 := PushWant (sample_packet [7]))\<rparr>)) 1 = Calling (OpPut (sample_packet [7]))"
proof -
  have "reach q_init (q_step {0}) sample_queue" by (rule reach_init) (simp add: q_init_def sample_queue_def)
  moreover have "q_step {0} sample_queue (sample_queue\<lparr>qs_pc := (qs_pc sample_queue)(1 := PushWant (sample_packet [7]))\<rparr>)"
    by (rule push_call) (simp add: sample_queue_def)
  ultimately have "reach q_init (q_step {0}) (sample_queue\<lparr>qs_pc := (qs_pc sample_queue)(1 := PushWant (sample_packet [7]))\<rparr>)"
    by (rule reach_step)
  from packet_queue_atomic [OF this, THEN conjunct1] show ?thesis
    by (simp add: sample_queue_def) (simp add: q_abs_def aq_of_def)
qed

section \<open>Buffers and messages\<close>

text \<open>
  C13: a \<^verbatim>\<open>muduo::net::Buffer\<close> is a queue of bytes. Every sequence of appends, integer writes and
  reads, retrievals and \<^verbatim>\<open>unwrite\<close>s on a new buffer returns the values, and fails in the
  assertions, that the same sequence returns on a byte list, with integers most significant byte
  first, as long as the bytes written fit the vector's maximal size.
\<close>

theorem Buffer_refines_queue:
  assumes "kCheapPrepend + initialSize \<le> vec_max" "kCheapPrepend + sum_list (map op_bytes ops) \<le> vec_max"
  shows "\<exists>b0. Buffer_new initialSize = Inr b0 \<and>
    (case run_all queue_run ops [] of
       Inl e \<Rightarrow> run_all buf_run ops b0 = Inl e
     | Inr (outs, q) \<Rightarrow> \<exists>b. run_all buf_run ops b0 = Inr (outs, b) \<and> buffer_ok b \<and> content b = q)"
proof -
  obtain b0 where b0: "Buffer_new initialSize = Inr b0" "sim kCheapPrepend b0 []" using Buffer_new_sim [OF assms(1)] by blast
  show ?thesis
    using buf_run_all [OF b0(2) order_refl assms(2)] b0(1)
    by (cases "run_all queue_run ops []") (auto simp: sim_def split: prod.splits)
qed

theorem Buffer_refines_queue_witness:
  "\<exists>b0 b. Buffer_new 1024 = Inr b0 \<and>
    run_all buf_run [OpAppend32 0x01020304, OpRead8, OpRead16] b0 = Inr ([OutNone, Out8 1, Out16 0x0203], b) \<and> content b = [4]"
proof -
  have "run_all queue_run [OpAppend32 0x01020304, OpRead8, OpRead16] [] = Inr ([OutNone, Out8 1, Out16 0x0203], [4])"
    by code_simp
  then show ?thesis
    using Buffer_refines_queue [of 1024 "[OpAppend32 0x01020304, OpRead8, OpRead16]"]
    by (auto simp: kCheapPrepend_def vec_max_def)
qed

text \<open>
  C14: a game message survives the way from the sender's struct to the receiver's handler. When the
  bytes that \<^verbatim>\<open>SendMsg\<close> puts on the connection for a move, whisper or room message are in the
  receiver's buffer, \<^verbatim>\<open>onMessage\<close> queues one packet that holds the struct's memory image, and
  reading the image gives the struct back.
\<close>

theorem messages_end_to_end:
  assumes "buffer_ok b" "codec_ok c" "getContext conn \<noteq> AnyEmpty"
    "img \<in> {SQMoveMsg_image pad mv, SQChatWhisperMsg_image pad wh, SQChatRoomMsg_image pad rm}" "length img \<le> 65536"
    "SendMsg img (word_of_nat (length img)) = Inr [CallSend (content b)]"
  shows "(\<exists>b'. onMessage t conn b ts c =
      Some (Inr (b', with_queue (codec_queue c @ [ctx_pack (getContext conn) img]) c, [])) \<and> content b' = []) \<and>
    (img = SQMoveMsg_image pad mv \<longrightarrow> SQMoveMsg_read img = Inr mv) \<and>
    (img = SQChatWhisperMsg_image pad wh \<longrightarrow> SQChatWhisperMsg_read img = Inr wh) \<and>
    (img = SQChatRoomMsg_image pad rm \<longrightarrow> SQChatRoomMsg_read img = Inr rm)"
proof -
  have n: "unat (word_of_nat (length img) :: DWORD) = length img"
    using assms(5) by (simp add: unat_of_nat)
  have "content b = encode img" using SendMsg_ok [of "word_of_nat (length img)" img] assms(6) n by simp
  then have "decode (content b) = ([img], [], False)"
    using decode_encode [OF assms(5), of "[]"] decode_short [of "[]"] by simp
  from onMessage_loop_decode [OF assms(1-3) this, of t "[]"] show ?thesis
    by (auto simp: onMessage_def SQMoveMsg_roundtrip SQChatWhisperMsg_roundtrip SQChatRoomMsg_roundtrip)
qed

definition sample_room :: SQChatRoomMsg where
  "sample_room = \<lparr>smsg_protocol = KKDD_CHAT_MESSAGE_BASE, chat_protocol = KKDD_CHATMSG_ROOM, chat_roomID = 7,
     roomData = [72, 105, 0]\<rparr>"

theorem messages_end_to_end_witness:
  "\<exists>b'. onMessage 1 (sample_conn kConnected (AnyDnid 7)) (sample_buffer (encode (SQChatRoomMsg_image 0 sample_room)))
      Timestamp_default sample_codec =
    Some (Inr (b', with_queue [sample_packet (SQChatRoomMsg_image 0 sample_room)] sample_codec, [])) \<and> content b' = []"
proof -
  let ?img = "SQChatRoomMsg_image 0 sample_room"
  have len: "length ?img = 7" by (simp add: SQChatRoomMsg_image_split sample_room_def)
  have send: "SendMsg ?img 7 = Inr [CallSend (encode ?img)]"
    using SendMsg_ok [of 7 ?img] by (simp add: len)
  have "buffer_ok (sample_buffer (encode ?img))" by (rule sample_buffer_ok) (simp add: encode_def len)
  then show ?thesis
    using messages_end_to_end [of "sample_buffer (encode ?img)" sample_codec "sample_conn kConnected (AnyDnid 7)" ?img 0
        undefined undefined sample_room 1 Timestamp_default]
    by (simp add: sample_buffer_ok sample_codec_ok send len ctx_pack_def sample_packet_def)
      (simp add: sample_codec_def Codec_new_def InitCodecMem_def codec_queue_def Dispatcher_new_def)
qed

section \<open>Connections\<close>

text \<open>
  In every reachable state of the server the connection table is a well-formed map that
  holds an entry for exactly the connections that are up, each under the id in its context and
  with a time to live of 3; two connections never share an id.
\<close>

lemma connection_table_exact:
  assumes "reach conn_init conn_step s"
  shows "map_ok (connections (cs_srv s)) \<and>
    (\<forall>d con. map_find (connections (cs_srv s)) d = Some con \<longleftrightarrow>
      (\<exists>c. con = \<lparr>sc_conn = c, sc_ttl = 3\<rparr> \<and> cs_live s c = Some d)) \<and>
    (\<forall>c c' d. cs_live s c = Some d \<and> cs_live s c' = Some d \<longrightarrow> c = c')"
proof -
  have inv: "conn_inv s" using conntab.reach_inv [OF assms] .
  have "c = c'" if "cs_live s c = Some d" "cs_live s c' = Some d" for c c' d
  proof -
    have "map_find (connections (cs_srv s)) d = Some (Connection_of c)"
      "map_find (connections (cs_srv s)) d = Some (Connection_of c')"
      using inv that unfolding conn_inv_def by blast+
    then show ?thesis by (simp add: Connection_of_def)
  qed
  then show ?thesis using inv by (auto simp: conn_inv_def Connection_of_def)
qed

definition sample_pool :: EventLoopThreadPool where
  "sample_pool = \<lparr>pool_baseLoop = 0, pool_name = ''PetsServer'', pool_started = False, pool_numThreads = 0,
     pool_next = 0, pool_loops = []\<rparr>"

definition sample_server :: PetsServer where
  "sample_server = PetsServer_new 0
     \<lparr>ts_loop = 0, ts_ipPort = '''', ts_name = ''PetsServer'', ts_threadPool = sample_pool, ts_connectionCallback = None,
      ts_messageCallback = None, ts_writeCompleteCallback = None, ts_threadInitCallback = None,
      ts_started = AtomicIntegerT_new, ts_nextConnId = 1, ts_connections = Map.empty\<rparr> 0"

lemma sample_server_connections [simp]: "connections sample_server = []"
  by (simp add: sample_server_def PetsServer_new_def)

lemma sample_up:
  "onConnection (\<lambda>_. 0) (\<lambda>_. 5) 9 (sample_conn kConnected AnyEmpty) sample_server =
    Inr (sample_conn kConnected (AnyDnid (dnid_of 0 5)),
      sample_server\<lparr>connections := [(dnid_of 0 5, Connection_of 9)]\<rparr>)"
proof -
  have "GreateDnid (\<lambda>_. 0) (\<lambda>_. 5) sample_server = Some (dnid_of 0 5)"
    unfolding GreateDnid_def by (subst greate_loop.simps) simp
  then show ?thesis
    by (simp add: onConnection_def Connection_default_def Connection_of_def)
      (simp add: sample_conn_def setContext_def)
qed

text \<open>
  C15: an id that \<^verbatim>\<open>GreateDnid\<close> returns is not in the table, is not the id \<open>0xFFFFFFFF\<close> that marks
  a pet without connection, and carries a 16-bit time stamp in its high half and a number below
  \<open>0xFFFF\<close> in its low half.
\<close>

theorem GreateDnid_fresh:
  assumes "GreateDnid tm rnd s = Some d"
  shows "map_find (connections s) d = None \<and> d \<noteq> m_dnid Pet_new \<and>
    (\<exists>j. take_bit 16 d = word_of_nat (rnd j mod 0xFFFF) \<and> drop_bit 16 d = take_bit 16 (word_of_int (tm j)))"
proof -
  obtain j where d: "d = dnid_of (tm j) (rnd j)" and free: "map_find (connections s) d = None"
    using greate_loop_result [OF assms [unfolded GreateDnid_def]] by blast
  then show ?thesis
    using dnid_of_not_default [of "tm j" "rnd j"] dnid_of_bits [of "tm j" "rnd j"] by (auto simp: Pet_new_def)
qed

theorem GreateDnid_fresh_witness:
  "GreateDnid (\<lambda>_. 0) (\<lambda>_. 5) sample_server = Some (dnid_of 0 5) \<and> dnid_of 0 5 \<noteq> m_dnid Pet_new"
proof -
  have "GreateDnid (\<lambda>_. 0) (\<lambda>_. 5) sample_server = Some (dnid_of 0 5)"
    unfolding GreateDnid_def by (subst greate_loop.simps) simp
  then show ?thesis using GreateDnid_fresh [of "\<lambda>_. 0" "\<lambda>_. 5" sample_server] by blast
qed



text \<open>
  A connection that comes up and goes down again leaves the server as it was.
\<close>

lemma onConnection_up_down:
  assumes "map_ok (connections s)" "connected conn" "onConnection tm rnd c conn s = Inr (conn1, s1)"
  shows "onConnection tm' rnd' c (setState kDisconnected conn1) s1 = Inr (setState kDisconnected conn1, s)"
proof -
  obtain d where d: "getContext conn1 = AnyDnid d" "map_find (connections s) d = None"
    "s1 = s\<lparr>connections := map_put (connections s) d (Connection_of c)\<rparr>"
    using onConnection_up [OF assms] by blast
  have "\<not> connected (setState kDisconnected conn1)" "getContext (setState kDisconnected conn1) = AnyDnid d"
    using d(1) by (simp_all add: connected_def setState_def getContext_def)
  note down = onConnection_down_dnid [OF this, of tm' rnd' c s1]
  have "map_erase (connections s1) d = connections s"
    using smap.erase_put [OF assms(1) d(2), of "Connection_of c"] by (simp add: d(3))
  then show ?thesis using down by (simp add: d(3))
qed

text \<open>
  When the context of a closed connection is a pet, \<^verbatim>\<open>onConnection\<close> erases the id stored in
  the pet. No code stores one, so the id is the default one, which no connection has: the
  entry of the connection stays in the table.
\<close>

lemma onConnection_down_pet_leaks:
  assumes "\<not> connected conn" "getContext conn = AnyPet p" "GetDnid p = GetDnid Pet_new"
    "map_find (connections s) (GetDnid Pet_new) = None" "Locate (m_petsManager s) (GetDnid Pet_new) = None"
  shows "onConnection tm rnd c conn s = Inr (conn, s)"
proof -
  have "GetDnid Pet_new = 0xFFFFFFFF" by (simp add: GetDnid_def Pet_new_def)
  moreover have "RealseObject (srv_heap s) (m_petsManager s) (GetDnid Pet_new) = Inr (False, srv_heap s, m_petsManager s)"
    using assms(5) by (intro RealseObject_absent) (auto simp: Locate_def split: option.splits)
  ultimately show ?thesis
    using assms by (simp add: onConnection_def any_cast_pet_def map_erase_absent)
qed

section \<open>Handlers of the game logic\<close>

text \<open>
  C18: what the login handler does with any message. A message of one byte is read out of
  bounds; another login sub-type changes nothing; a login message without a terminating NUL is
  read past its end; with an account text of at most one character nothing happens; with every
  longer text, that is with every real account and password, control runs off the end of
  \<^verbatim>\<open>Pet::Parse\<close>, which has no return statement there.
\<close>

theorem OnDispatchLoginMsg_outcome:
  "OnDispatchLoginMsg dnid msg pet w =
    (if length msg \<le> 1 then Inl OutOfBounds
     else if msg ! 1 \<noteq> KKDD_LOGINMSG_LOGIN then Inr (False, w)
     else if 0 \<notin> set (drop 2 msg) then Inl OutOfBounds
     else if length (takeWhile (\<lambda>b. b \<noteq> 0) (drop 2 msg)) \<le> 1 then Inr (False, w)
     else Inl MissingReturn)"
proof (cases "2 \<le> length msg \<and> msg ! 1 = KKDD_LOGINMSG_LOGIN")
  case False
  then show ?thesis
    by (cases "length msg \<le> 1") (auto simp: handler_short OnDispatchLoginMsg_other)
next
  case True
  then have run: "OnDispatchLoginMsg dnid msg pet w = bnd (OnNetLoginMsg msg) (\<lambda>_. Inr (False, w))"
    by (simp add: OnDispatchLoginMsg_def read_byte_def)
  show ?thesis
  proof (cases "0 \<in> set (drop 2 msg)")
    case False
    then show ?thesis using True run by (simp add: OnNetLoginMsg_cases c_str_no_nul)
  next
    case nul: True
    obtain pre rest where split: "drop 2 msg = pre @ 0 # rest" "0 \<notin> set pre" using split_list_first [OF nul] by blast
    then have "takeWhile (\<lambda>b. b \<noteq> 0) (drop 2 msg) = pre" by (auto simp: takeWhile_append2 takeWhile_tail)
    then show ?thesis using True run nul split c_str_append_nul [OF split(2), of rest] by (simp add: OnNetLoginMsg_cases)
  qed
qed

text \<open>
  C19: the loop of \<^verbatim>\<open>Pet::Parse\<close> ends for every text and one-character delimiter, and what it
  collects is the text cut at the delimiter: no part holds the delimiter and joining the parts
  gives the text back.
\<close>

theorem parse_loop_splits:
  "\<exists>ws. parse_loop [d] (s @ [d]) [] = Some ws \<and> join_with d ws = s \<and> list_all (\<lambda>w. d \<notin> set w) ws"
  using parse_loop_split [of d s "[]"] join_split_at [of d s] split_at_free [of d s] by auto



section \<open>Objects\<close>

text \<open>
  C21: releasing an object of a manager that owns its objects frees exactly that object and
  keeps the ownership invariant; the object can no longer be located, a second release does
  nothing, and the next \<^verbatim>\<open>Run\<close> removes its entry and no entry of a live object.
\<close>

theorem RealseObject_then_Run:
  assumes "om_ok h m" "Locate m k = Some a"
  shows "\<exists>h' m'. RealseObject h m k = Inr (True, h', m') \<and> om_ok h' m' \<and>
    (\<forall>b. map_find h' b = (if b = a then None else map_find h b)) \<and>
    Locate m' k = None \<and> RealseObject h' m' k = Inr (False, h', m') \<and> om_ok h' (snd (Run m')) \<and>
    map_find (m_ObjectMap (snd (Run m'))) k = None \<and>
    (\<forall>k' b. k' \<noteq> k \<and> Locate m k' = Some b \<longrightarrow> Locate (snd (Run m')) k' = Some b)"
proof -
  have find: "map_find (m_ObjectMap m) k = Some (Some a)" using assms(2) by (auto simp: Locate_def split: option.splits)
  let ?h = "map_erase h a" and ?m = "m\<lparr>m_ObjectMap := map_put (m_ObjectMap m) k None\<rparr>"
  note rel = RealseObject_live [OF assms(1) find]
  have ok: "map_ok h" "map_ok (m_ObjectMap ?m)" "m_RemoveList ?m = []" using assms(1) by (simp_all add: om_ok_def)
  have run: "map_find (m_ObjectMap (snd (Run ?m))) k' =
      (case map_find (m_ObjectMap ?m) k' of Some (Some b) \<Rightarrow> Some (Some b) | _ \<Rightarrow> None)" for k'
    using Run_eq [OF ok(2,3)] map_find_filter_live [OF ok(2), of k'] by simp
  have again: "RealseObject ?h ?m k = Inr (False, ?h, ?m)" by (rule RealseObject_absent) simp
  have "Locate (snd (Run ?m)) k' = Some b" if "k' \<noteq> k" "Locate m k' = Some b" for k' b
    using that run [of k'] by (auto simp: Locate_def split: option.splits)
  then show ?thesis
    using rel again ok(1) Run_ok [OF rel(2)] run [of k] by (intro exI [of _ ?h] exI [of _ ?m]) (simp add: Locate_def)
qed

definition sample_heap :: obj_heap where
  "sample_heap = [(1, PetObj Pet_new)]"

lemma sample_manager_ok: "om_ok sample_heap sample_manager"
  by (simp add: om_ok_def sample_heap_def sample_manager_def live_ptrs_def)

theorem RealseObject_then_Run_witness:
  "\<exists>h' m'. RealseObject sample_heap sample_manager 5 = Inr (True, h', m') \<and> map_find h' 1 = None \<and>
    map_find (m_ObjectMap (snd (Run m'))) 5 = None"
  using RealseObject_then_Run [OF sample_manager_ok, of 5 1] by (auto simp: Locate_def sample_manager_def)



section \<open>The frame loop\<close>





section \<open>The running server\<close>

text \<open>
  C4: the server as a whole, under every interleaving of the I/O threads and the logic thread.
  The packets that were pushed are, in order, those the logic thread has handled and those still
  queued; the object manager is the result of the handlers run on them in that order; and the
  packets of each connection are, in order and under its id, the frames the decoder cuts from
  the bytes it received: none is lost, doubled or mixed up with another connection, and the
  frames still to come are those of its input buffer.
\<close>

theorem server_delivers:
  assumes "reach (sv_init m0) (sv_step fl) s"
  shows "map snd (sv_pushed s) = handled_of (sv_acts s) @ server_queue (sv_srv s) \<and>
    run_acts (sv_acts s) m0 = Inr (m_petsManager (sv_srv s)) \<and>
    (\<forall>c. \<exists>fs. packs_of c s = map (ctx_pack (AnyDnid (sv_id s c))) fs \<and> prefix fs (fst (decode (sv_recv s c)))) \<and>
    (\<forall>c conn. sv_place s c = Up conn \<longrightarrow>
      (\<exists>fs. packs_of c s = map (ctx_pack (AnyDnid (sv_id s c))) fs \<and>
        decode (sv_recv s c) = prefix_frames fs (decode (content (tc_inputBuffer conn)))))"
proof -
  note inv = serversys.reach_inv [OF assms]
  have "\<exists>fs. packs_of c s = map (ctx_pack (AnyDnid (sv_id s c))) fs \<and> prefix fs (fst (decode (sv_recv s c)))" for c
    using stream_frames [OF sv_inv_stream [OF inv, of c]] .
  moreover have "\<exists>fs. packs_of c s = map (ctx_pack (AnyDnid (sv_id s c))) fs \<and>
      decode (sv_recv s c) = prefix_frames fs (decode (content (tc_inputBuffer conn)))" if "sv_place s c = Up conn" for c conn
    using that sv_inv_stream [OF inv, of c] by (auto dest: consumed_decode)
  ultimately show ?thesis using inv unfolding sv_inv_def by blast
qed

text \<open>A started server with one connection that has received the given bytes.\<close>

definition sample_booted :: PetsServer where
  "sample_booted = sample_server\<lparr>codec := Some \<lparr>m_dispc = Some (bind_handlers (Dispatcher_new 0))\<rparr>,
     m_mainThread := True, m_mysqlThread := True, m_petsManager := sample_manager\<rparr>"

definition sample_input :: "BYTE list \<Rightarrow> Buffer" where
  "sample_input bs = \<lparr>buffer = replicate 8 0 @ bs @ replicate (1024 - length bs) 0, readerIndex = 8, writerIndex = 8 + length bs\<rparr>"

definition sample_live :: "BYTE list \<Rightarrow> server_sys" where
  "sample_live bs = \<lparr>sv_srv = sample_booted\<lparr>connections := [(dnid_of 0 5, Connection_of 9)]\<rparr>,
     sv_place = (\<lambda>_. NotYet)(9 := Up ((sample_conn kConnected (AnyDnid (dnid_of 0 5)))\<lparr>tc_inputBuffer := sample_input bs\<rparr>)),
     sv_id = (\<lambda>_. 0)(9 := dnid_of 0 5), sv_recv = (\<lambda>_. [])(9 := bs), sv_calls = (\<lambda>_. []), sv_pushed = [], sv_acts = [],
     sv_logic = LTop, sv_fault = None\<rparr>"

lemma sample_input_new: "Buffer_new kInitialSize = Inr (sample_input [])"
  by (simp add: Buffer_new_def sample_input_def kInitialSize_def kCheapPrepend_def Let_def sz_add_def vec_max_def assert_c_def
      readableBytes_def writableBytes_def prependableBytes_def sz_sub_def size_max_def flip: replicate_add)

lemma sample_input_append: "length bs \<le> 1024 \<Longrightarrow> Buffer_append (sample_input []) bs = Inr (sample_input bs)"
  by (simp add: Buffer_append_def sample_input_def ensureWritableBytes_def hasWritten_def assert_c_def writableBytes_def sz_sub_def
      sz_add_def size_max_def write_at_def beginWrite_def)

lemma sample_input_content: "length bs \<le> 1024 \<Longrightarrow> content (sample_input bs) = bs"
  by (simp add: sample_input_def content_def buf_range_def)

lemma sample_live_up:
  "onConnection (\<lambda>_. 0) (\<lambda>_. 5) 9 ((sample_conn kConnected AnyEmpty)\<lparr>tc_inputBuffer := b\<rparr>) sample_booted =
    Inr ((sample_conn kConnected (AnyDnid (dnid_of 0 5)))\<lparr>tc_inputBuffer := b\<rparr>,
      sample_booted\<lparr>connections := [(dnid_of 0 5, Connection_of 9)]\<rparr>)"
proof -
  have conns: "connections sample_booted = []" by (simp add: sample_booted_def)
  have "GreateDnid (\<lambda>_. 0) (\<lambda>_. 5) sample_booted = Some (dnid_of 0 5)"
    unfolding GreateDnid_def by (subst greate_loop.simps) (simp add: conns)
  then show ?thesis
    by (simp add: onConnection_def Connection_default_def Connection_of_def conns connected_def)
      (simp add: sample_conn_def setContext_def)
qed

lemma sample_live_reach:
  assumes "length bs \<le> 1024"
  shows "reach (sv_init sample_manager) (sv_step fl) (sample_live bs)"
proof -
  let ?conn = "(sample_conn kConnected AnyEmpty)\<lparr>tc_inputBuffer := sample_input []\<rparr>"
  define s0 where "s0 = \<lparr>sv_srv = sample_booted, sv_place = (\<lambda>_. NotYet), sv_id = (\<lambda>_. 0), sv_recv = (\<lambda>_. []),
    sv_calls = (\<lambda>_. []), sv_pushed = [], sv_acts = [], sv_logic = LTop, sv_fault = None\<rparr>"
  have "server_booted sample_manager sample_booted"
    by (auto simp: server_booted_def sample_booted_def sample_server_def PetsServer_new_def)
  then have r0: "reach (sv_init sample_manager) (sv_step fl) s0" by (intro reach_init) (auto simp: sv_init_def s0_def)
  have "sv_step fl s0 (sample_live [])"
    using sv_up [of s0 9 ?conn "\<lambda>_. 0" "\<lambda>_. 5" "(sample_conn kConnected (AnyDnid (dnid_of 0 5)))\<lparr>tc_inputBuffer := sample_input []\<rparr>"
        "sample_booted\<lparr>connections := [(dnid_of 0 5, Connection_of 9)]\<rparr>" "dnid_of 0 5" fl] sample_live_up [of "sample_input []"]
    by (simp add: s0_def sample_live_def sample_input_new set_conn_def connected_def sample_conn_def getContext_def fun_upd_idem)
  then have r1: "reach (sv_init sample_manager) (sv_step fl) (sample_live [])" by (rule reach_step [OF r0])
  have "sv_step fl (sample_live []) (sample_live bs)"
    using sv_bytes [of "sample_live []" 9 "(sample_conn kConnected (AnyDnid (dnid_of 0 5)))\<lparr>tc_inputBuffer := sample_input []\<rparr>" bs
        "sample_input bs" fl] sample_input_append [OF assms] assms
    by (simp add: sample_live_def set_conn_def) (simp add: sample_input_def vec_max_def)
  then show ?thesis by (rule reach_step [OF r1])
qed

lemma sample_live_simps [simp]:
  "sv_recv (sample_live bs) 9 = bs" "sv_fault (sample_live bs) = None" "sv_id (sample_live bs) 9 = dnid_of 0 5"
  "sv_place (sample_live bs) 9 = Up ((sample_conn kConnected (AnyDnid (dnid_of 0 5)))\<lparr>tc_inputBuffer := sample_input bs\<rparr>)"
  "server_queue (sv_srv (sample_live bs)) = []" "packs_of 9 (sample_live bs) = []" "sv_pushed (sample_live bs) = []"
  "sv_acts (sample_live bs) = []"
  by (simp_all add: sample_live_def sample_booted_def server_queue_def server_disp_def GetDispatcher_def bind_handlers_def
      BindCB_def Dispatcher_new_def packs_of_def)

lemma decode_one: "length data \<le> 65536 \<Longrightarrow> decode (encode data) = ([data], [], False)"
  using decode_encode [of data "[]"] by (simp add: decode_short)

theorem server_delivers_witness:
  "\<exists>s. reach (sv_init sample_manager) (sv_step id) s \<and> sv_recv s 9 = encode [0x66, 0] \<and>
    server_queue (sv_srv s) = [ctx_pack (AnyDnid (dnid_of 0 5)) [0x66, 0]] \<and> m_petsManager (sv_srv s) = sample_manager"
proof -
  have short: "length (encode [0x66, 0]) \<le> 1024" by (simp add: encode_def)
  note start = sample_live_reach [OF short, of id]
  obtain s where s: "(sv_step id)\<^sup>*\<^sup>* (sample_live (encode [0x66, 0])) s" "sv_recv s = sv_recv (sample_live (encode [0x66, 0]))"
    "sv_acts s = []" "sv_pushed s = [(9, ctx_pack (AnyDnid (dnid_of 0 5)) [0x66, 0])]"
    using sv_push_all [OF serversys.reach_inv [OF start], of 9] decode_one [of "[0x66, 0]"]
    by (fastforce simp: sample_input_content [OF short])
  have reached: "reach (sv_init sample_manager) (sv_step id) s" by (rule reach_run [OF s(1) start])
  have "server_queue (sv_srv s) = [ctx_pack (AnyDnid (dnid_of 0 5)) [0x66, 0]]" "m_petsManager (sv_srv s) = sample_manager"
    using server_delivers [OF reached, THEN conjunct1] server_delivers [OF reached, THEN conjunct2, THEN conjunct1] s(3,4) by simp_all
  then show ?thesis using reached s(2) by auto
qed



text \<open>
  C6: no packet has to wait for good. From every reachable state in which no fault has happened,
  when the queued packets and the complete frames of a connection are packets the handlers take,
  there is a continuation without a fault after which every complete frame that the connection
  has received, and every other packet pushed, has been handled.
\<close>

theorem server_can_deliver:
  assumes "reach (sv_init m0) (sv_step fl) s" "sv_fault s = None" "fl 0 = 0" "sv_place s c = Up conn"
    "list_all pack_fine (server_queue (sv_srv s) @ map (ctx_pack (AnyDnid (sv_id s c))) (fst (decode (content (tc_inputBuffer conn)))))"
  shows "\<exists>s'. (sv_step fl)\<^sup>*\<^sup>* s s' \<and> sv_fault s' = None \<and> sv_recv s' = sv_recv s \<and>
    packs_of c s' = map (ctx_pack (AnyDnid (sv_id s c))) (fst (decode (sv_recv s c))) \<and>
    handled_of (sv_acts s') = map snd (sv_pushed s') \<and> server_queue (sv_srv s') = []"
proof -
  note inv = serversys.reach_inv [OF assms(1)]
  obtain fs rest bad where dec: "decode (content (tc_inputBuffer conn)) = (fs, rest, bad)"
    by (cases "decode (content (tc_inputBuffer conn))")
  obtain gs where gs: "packs_of c s = map (ctx_pack (AnyDnid (sv_id s c))) gs"
    "decode (sv_recv s c) = prefix_frames gs (fs, rest, bad)"
    using sv_inv_stream [OF inv, of c] assms(4) dec by (auto dest: consumed_decode)
  show ?thesis
    using sv_deliver [where fl = fl and qs = "[]", OF inv assms(2-4) dec] assms(5) gs by (force simp: dec prefix_frames_def)
qed

lemma sample_fine: "pack_fine (ctx_pack (AnyDnid d) [0x66, 0])"
  by (simp add: pack_fine_def ctx_pack_def KKDD_CHAT_MESSAGE_BASE_def KKDD_LOGIN_MESSAGE_BASE_def)

theorem server_can_deliver_witness:
  "\<exists>s'. (sv_step id)\<^sup>*\<^sup>* (sample_live (encode [0x66, 0])) s' \<and> sv_fault s' = None \<and>
    handled_of (sv_acts s') = map snd (sv_pushed s') \<and> packs_of 9 s' = [ctx_pack (AnyDnid (dnid_of 0 5)) [0x66, 0]]"
proof -
  have short: "length (encode [0x66, 0]) \<le> 1024" by (simp add: encode_def)
  show ?thesis
    using server_can_deliver [OF sample_live_reach [OF short, of id], where c = 9] decode_one [of "[0x66, 0]"]
    by (auto simp: sample_input_content [OF short] sample_fine)
qed

text \<open>
  C7: one frame of a client ends the server. Whenever a connection is up and its input buffer is
  empty, a frame whose single byte is the defined fight type leads, after the packets queued
  before it, to a call of an empty function in the logic thread, which ends the process.
\<close>

theorem one_frame_stops_server:
  assumes "reach (sv_init m0) (sv_step fl) s" "sv_fault s = None" "fl 0 = 0" "sv_place s c = Up conn"
    "content (tc_inputBuffer conn) = []" "writerIndex (tc_inputBuffer conn) + 5 \<le> vec_max"
    "list_all pack_fine (server_queue (sv_srv s))"
  shows "\<exists>s'. (sv_step fl)\<^sup>*\<^sup>* s s' \<and> sv_fault s' = Some BadFunctionCall \<and>
    sv_recv s' c = sv_recv s c @ encode [KKDD_FIGHT_MESSAGE_BASE]"
  using sv_one_frame [where fl = fl, OF serversys.reach_inv [OF assms(1)] assms(2-7)] .

theorem one_frame_stops_server_witness:
  "\<exists>s'. (sv_step id)\<^sup>*\<^sup>* (sample_live []) s' \<and> sv_fault s' = Some BadFunctionCall \<and> sv_recv s' 9 = encode [KKDD_FIGHT_MESSAGE_BASE]"
  using one_frame_stops_server [OF sample_live_reach [of "[]" id], where c = 9]
  by (simp add: sample_input_content) (simp add: sample_input_def vec_max_def)

section \<open>The running server with its lock\<close>

text \<open>
  C8: the server with \<^verbatim>\<open>PushPack\<close> and \<^verbatim>\<open>GetPack\<close> taken apart into their statements, every
  I/O thread and the logic thread anywhere inside a turn. It refines the server whose turns are
  single steps: each of its steps is one of those steps or invisible. At most one thread is
  inside the locked part, the queue is not empty where the logic thread takes its front, no
  packet is lost on the way from the push through the hand of the logic thread, the handlers run
  in that order, and each connection's packets are the frames of its bytes.
\<close>

theorem threads_refine_server:
  assumes "reach (ft_init m0) (ft_step fl) s"
  shows "reach (sv_init m0) (sv_step fl) (ft_abs s) \<and>
    (\<forall>s'. ft_step fl s s' \<longrightarrow> ft_abs s' = ft_abs s \<or> sv_step fl (ft_abs s) (ft_abs s')) \<and>
    (\<forall>t u. ft_holds (ft_pc s t) \<longrightarrow> ft_holds (ft_pc s u) \<longrightarrow> u = t) \<and>
    (\<forall>t. ft_got (ft_pc s t) \<longrightarrow> t = -1 \<and> server_queue (sv_srv (ft_sv s)) \<noteq> []) \<and>
    map snd (sv_pushed (ft_sv s)) = handled_of (sv_acts (ft_sv s)) @ taken (ft_pc s (-1)) @ server_queue (sv_srv (ft_sv s)) \<and>
    run_acts (sv_acts (ft_sv s)) m0 = Inr (m_petsManager (sv_srv (ft_sv s))) \<and>
    (\<forall>c. \<exists>fs. packs_of c (ft_sv s) = map (ctx_pack (AnyDnid (sv_id (ft_sv s) c))) fs \<and>
      prefix fs (fst (decode (sv_recv (ft_sv s) c))))"
proof -
  note inv = ft_inv_parts(1) [OF threads.reach_inv [OF assms]]
  have "run_acts (sv_acts (ft_sv s)) m0 = Inr (m_petsManager (sv_srv (ft_sv s)))" using inv by (simp add: sv_inv_def)
  moreover have "\<exists>fs. packs_of c (ft_sv s) = map (ctx_pack (AnyDnid (sv_id (ft_sv s) c))) fs \<and>
      prefix fs (fst (decode (sv_recv (ft_sv s) c)))" for c
    using stream_frames [OF sv_inv_stream [OF inv, of c]] by (simp add: packs_of_def)
  ultimately show ?thesis
    using threads.abs_reach [OF assms] threads.abs_step_reach [OF assms] ft_flow [OF assms] by blast
qed

text \<open>A run of the I/O thread of connection 9 into the locked part of \<^verbatim>\<open>PushPack\<close>.\<close>

lemma sample_threads_live:
  assumes "length bs \<le> 1024"
  shows "reach (ft_init sample_manager) (ft_step fl) \<lparr>ft_sv = sample_live bs, ft_pc = (\<lambda>_. FIdle)\<rparr>"
proof -
  let ?conn = "(sample_conn kConnected AnyEmpty)\<lparr>tc_inputBuffer := sample_input []\<rparr>"
  define s0 where "s0 = \<lparr>sv_srv = sample_booted, sv_place = (\<lambda>_. NotYet), sv_id = (\<lambda>_. 0), sv_recv = (\<lambda>_. []),
    sv_calls = (\<lambda>_. []), sv_pushed = [], sv_acts = [], sv_logic = LTop, sv_fault = None\<rparr>"
  have "server_booted sample_manager sample_booted"
    by (auto simp: server_booted_def sample_booted_def sample_server_def PetsServer_new_def)
  then have r0: "reach (ft_init sample_manager) (ft_step fl) \<lparr>ft_sv = s0, ft_pc = (\<lambda>_. FIdle)\<rparr>"
    by (intro reach_init) (auto simp: ft_init_def sv_init_def s0_def)
  have "ft_step fl \<lparr>ft_sv = s0, ft_pc = (\<lambda>_. FIdle)\<rparr> \<lparr>ft_sv = sample_live [], ft_pc = (\<lambda>_. FIdle)\<rparr>"
    using ft_up [of "\<lparr>ft_sv = s0, ft_pc = (\<lambda>_. FIdle)\<rparr>" s0 9 ?conn "\<lambda>_. 0" "\<lambda>_. 5"
        "(sample_conn kConnected (AnyDnid (dnid_of 0 5)))\<lparr>tc_inputBuffer := sample_input []\<rparr>"
        "sample_booted\<lparr>connections := [(dnid_of 0 5, Connection_of 9)]\<rparr>" "dnid_of 0 5" fl] sample_live_up [of "sample_input []"]
    by (simp add: s0_def sample_live_def sample_input_new set_conn_def connected_def sample_conn_def getContext_def fun_upd_idem)
  then have r1: "reach (ft_init sample_manager) (ft_step fl) \<lparr>ft_sv = sample_live [], ft_pc = (\<lambda>_. FIdle)\<rparr>"
    by (rule reach_step [OF r0])
  have "ft_step fl \<lparr>ft_sv = sample_live [], ft_pc = (\<lambda>_. FIdle)\<rparr> \<lparr>ft_sv = sample_live bs, ft_pc = (\<lambda>_. FIdle)\<rparr>"
    using ft_bytes [of "\<lparr>ft_sv = sample_live [], ft_pc = (\<lambda>_. FIdle)\<rparr>" "sample_live []" 9
        "(sample_conn kConnected (AnyDnid (dnid_of 0 5)))\<lparr>tc_inputBuffer := sample_input []\<rparr>" bs "sample_input bs" fl]
      sample_input_append [OF assms] assms
    by (simp add: sample_live_def set_conn_def) (simp add: sample_input_def vec_max_def)
  then show ?thesis by (rule reach_step [OF r1])
qed

lemma sample_begin:
  "\<exists>n b. onMessage_begin (AnyDnid (dnid_of 0 5)) (sample_input (encode [0x66, 0])) =
    Inr (BeginFrame (ctx_pack (AnyDnid (dnid_of 0 5)) [0x66, 0]) n b)"
proof -
  let ?c = "\<lparr>m_dispc = Some (bind_handlers (Dispatcher_new 0))\<rparr>"
  have short: "length (encode [0x66, 0]) \<le> 1024" by (simp add: encode_def)
  have "buffer_ok (sample_input (encode [0x66, 0]))" by (simp add: sample_input_def buffer_ok_def encode_def kCheapPrepend_def vec_max_def)
  moreover have "codec_ok ?c"
    by (simp add: codec_ok_def bind_handlers_def BindCB_def Dispatcher_new_def lock_free_def MutexLock_new_def mutex_ok_def)
  ultimately obtain b c where "onMessage_turn 0 (AnyDnid (dnid_of 0 5)) (sample_input (encode [0x66, 0])) ?c =
      Inr (OmPushed (ctx_pack (AnyDnid (dnid_of 0 5)) [0x66, 0]) b c)"
    using onMessage_turn_frame [of "sample_input (encode [0x66, 0])" ?c "AnyDnid (dnid_of 0 5)" "[0x66, 0]" "[]" "[]" False 0]
      decode_one [of "[0x66, 0]"] by (auto simp: sample_input_content [OF short])
  then show ?thesis
    by (cases "onMessage_begin (AnyDnid (dnid_of 0 5)) (sample_input (encode [0x66, 0]))")
      (auto simp: onMessage_turn_begin bnd_eq_Inr bnd_def split: om_begin.splits sum.splits)
qed

theorem threads_refine_server_witness:
  "\<exists>s. reach (ft_init sample_manager) (ft_step id) s \<and> ft_holds (ft_pc s 9) \<and> \<not> ft_holds (ft_pc s (-1)) \<and>
    reach (sv_init sample_manager) (sv_step id) (ft_abs s) \<and>
    server_queue (sv_srv (ft_sv s)) = [ctx_pack (AnyDnid (dnid_of 0 5)) [0x66, 0]]"
proof -
  let ?bs = "encode [0x66, 0]" and ?p = "ctx_pack (AnyDnid (dnid_of 0 5)) [0x66, 0]"
  let ?d = "bind_handlers (Dispatcher_new 0)"
  have short: "length ?bs \<le> 1024" by (simp add: encode_def)
  note r1 = sample_threads_live [OF short, of id]
  obtain n b where begin_: "onMessage_begin (AnyDnid (dnid_of 0 5)) (sample_input ?bs) = Inr (BeginFrame ?p n b)"
    using sample_begin by blast
  define s1 where "s1 = \<lparr>ft_sv = sample_live ?bs, ft_pc = (\<lambda>_. FIdle)\<rparr>"
  let ?conn = "(sample_conn kConnected (AnyDnid (dnid_of 0 5)))\<lparr>tc_inputBuffer := sample_input ?bs\<rparr>"
  define s2 where "s2 = ft_goto (int 9) (IoWant (sample_input ?bs) ?p n) (set_conn 9 (Up (?conn\<lparr>tc_inputBuffer := b\<rparr>)) (ft_sv s1)) s1"
  have "ft_step id s1 s2"
    using ft_begin [of s1 "ft_sv s1" 9 ?conn ?p n b id] begin_ by (simp add: s1_def s2_def getContext_def sample_conn_def)
  then have r2: "reach (ft_init sample_manager) (ft_step id) s2" using reach_step [OF r1] by (simp add: s1_def)
  have d: "server_disp (sv_srv (ft_sv s2)) = Some ?d"
    by (simp add: s2_def s1_def ft_goto_def set_conn_def sample_live_def sample_booted_def server_disp_def GetDispatcher_def)
  define s3 where "s3 = ft_goto (int 9) (IoHeld (sample_input ?bs) ?p n)
    (sv_disp (?d\<lparr>m_msgQueueMtx := \<lparr>mx_owner = Some 9, holder = 9\<rparr>\<rparr>) (ft_sv s2)) s2"
  have at2: "sv_fault (ft_sv s2) = None" "ft_pc s2 9 = IoWant (sample_input ?bs) ?p n"
    by (simp_all add: s2_def s1_def ft_goto_def set_conn_def)
  have "ft_step id s2 s3"
    using ft_lock [of s2 "ft_sv s2" 9 "sample_input ?bs" ?p n ?d "\<lparr>mx_owner = Some 9, holder = 9\<rparr>" id] at2 d
    by (simp add: s3_def) (simp add: mutex_lock_def assignHolder_def bind_handlers_def BindCB_def Dispatcher_new_def MutexLock_new_def)
  then have r3: "reach (ft_init sample_manager) (ft_step id) s3" by (rule reach_step [OF r2])
  have at3: "sv_fault (ft_sv s3) = None" "ft_pc s3 9 = IoHeld (sample_input ?bs) ?p n" "ft_pc s3 (-1) = FIdle"
    "server_disp (sv_srv (ft_sv s3)) = Some (?d\<lparr>m_msgQueueMtx := \<lparr>mx_owner = Some 9, holder = 9\<rparr>\<rparr>)"
    "sv_pushed (ft_sv s3) = []" "sv_acts (ft_sv s3) = []"
    using at2 d by (simp_all add: s3_def ft_goto_def sv_disp_def) (simp_all add: s2_def s1_def ft_goto_def set_conn_def)
  obtain s4 where s4: "ft_step id s3 s4" "ft_pc s4 9 = IoPut n" "ft_pc s4 (-1) = FIdle" "sv_pushed (ft_sv s4) = [(9, ?p)]"
    "sv_acts (ft_sv s4) = []"
    using ft_push [of s3 "ft_sv s3" 9 "sample_input ?bs" ?p n _ id] at3 by (fastforce simp: ft_goto_def sv_disp_def)
  have r4: "reach (ft_init sample_manager) (ft_step id) s4" by (rule reach_step [OF r3 s4(1)])
  have "reach (sv_init sample_manager) (sv_step id) (ft_abs s4)" "server_queue (sv_srv (ft_sv s4)) = [?p]"
    using threads_refine_server [OF r4] s4 by simp_all
  then show ?thesis using r4 s4 by (intro exI [of _ s4]) simp
qed

section \<open>The SQL thread\<close>

text \<open>
  C26: a turn of \<^verbatim>\<open>MyQuery::MysqlLoop\<close> with tasks in the queue always ends, runs the packs one
  after the other in the order of the queue, and when no pack faults it leaves the queue empty
  and the lock free. It never deletes a bind: the \<^verbatim>\<open>else\<close> that should do so belongs to the inner
  \<^verbatim>\<open>if\<close>.
\<close>

theorem MysqlLoop_turn_order:
  assumes "mutex_ok (ss_mtx S)" "mx_owner (ss_mtx S) = None" "ss_queue S \<noteq> []"
  shows "MysqlLoop_turn L F pl t S =
      Some (bnd (run_packs L F pl (ss_queue S) (S\<lparr>ss_mtx := \<lparr>mx_owner = Some t, holder = t\<rparr>\<rparr>))
        (\<lambda>S1. Inr (S1\<lparr>ss_mtx := ss_mtx S\<rparr>))) \<and>
    (\<forall>S1. MysqlLoop_turn L F pl t S = Some (Inr S1) \<longrightarrow> ss_queue S1 = [] \<and> mx_owner (ss_mtx S1) = None \<and>
      (\<exists>ev. ss_freed S1 = ss_freed S @ ev \<and> (\<forall>b. FreeBind b \<notin> set ev)))"
proof -
  let ?S = "S\<lparr>ss_mtx := \<lparr>mx_owner = Some t, holder = t\<rparr>\<rparr>"
  have turn: "MysqlLoop_turn L F pl t S = Some (bnd (run_packs L F pl (ss_queue S) ?S) (\<lambda>S1. Inr (S1\<lparr>ss_mtx := ss_mtx S\<rparr>)))"
  proof (cases "run_packs L F pl (ss_queue S) ?S")
    case (Inl e)
    have "mutex_lock t (ss_mtx S) = Some \<lparr>mx_owner = Some t, holder = t\<rparr>"
      using assms(2) by (cases "ss_mtx S") (simp add: mutex_lock_def assignHolder_def)
    then show ?thesis using assms(3) sql_drain_runs [of ?S "ss_queue S"] Inl by (simp add: MysqlLoop_turn_def)
  next
    case (Inr S1)
    then show ?thesis using MysqlLoop_turn_runs [OF assms Inr] by simp
  qed
  have "ss_queue S1 = [] \<and> mx_owner (ss_mtx S1) = None \<and> (\<exists>ev. ss_freed S1 = ss_freed S @ ev \<and> (\<forall>b. FreeBind b \<notin> set ev))"
    if run: "MysqlLoop_turn L F pl t S = Some (Inr S1)" for S1
  proof -
    obtain S2 where S2: "run_packs L F pl (ss_queue S) ?S = Inr S2" "S1 = S2\<lparr>ss_mtx := ss_mtx S\<rparr>"
      using run turn by (auto simp: bnd_eq_Inr)
    then show ?thesis using run_packs_frame [OF S2(1)] assms(2,3) by auto
  qed
  then show ?thesis using turn by blast
qed

text \<open>A library whose state is the list of freed result sets and the ids a fetch still delivers.\<close>

definition sample_lib :: "int \<Rightarrow> (nat list \<times> QWORD list) mysql_lib" where
  "sample_lib code =
     \<lparr>mysql_init = \<lambda>db. (Some 1, db), mysql_real_connect = \<lambda>h ip u p n port db. (True, db),
      mysql_error = \<lambda>h db. ''error'', mysql_close = \<lambda>h db. db, mysql_real_query = \<lambda>h s db. (code, db),
      mysql_store_result = \<lambda>h db. (Some 4, db), mysql_affected_rows = \<lambda>h db. 1, mysql_num_rows = \<lambda>r db. 1,
      mysql_num_fields = \<lambda>r db. 1, mysql_fetch_row = \<lambda>r db. (Some [Some ''in a int''], db),
      mysql_fetch_lengths = \<lambda>r db. Some [8],
      mysql_free_result = \<lambda>r db. if r \<in> set (fst db) then Inl DoubleFree else Inr (r # fst db, snd db),
      mysql_stmt_init = \<lambda>h db. (Some 2, db), mysql_stmt_error = \<lambda>st db. ''error'', mysql_stmt_close = \<lambda>st db. db,
      mysql_stmt_prepare = \<lambda>st s db. (0, db), mysql_stmt_bind_param = \<lambda>st b db. (0, db),
      mysql_stmt_execute = \<lambda>st db. (0, db), mysql_stmt_store_result = \<lambda>st db. (0, db),
      mysql_stmt_result_metadata = \<lambda>st db. (Some 3, db), mysql_stmt_affected_rows = \<lambda>st db. 1,
      mysql_stmt_free_result = \<lambda>st db. db, mysql_stmt_bind_result = \<lambda>st b db. (0, db),
      mysql_stmt_fetch = \<lambda>st db mm. (case snd db of [] \<Rightarrow> (100, db, mm)
        | i # is \<Rightarrow> (0, (fst db, is), mm(9 := store_le 8 i)))\<rparr>"

definition sample_float :: float_lib where
  "sample_float = \<lparr>fmt_f = (\<lambda>_. ''0.000000''), strtof = (\<lambda>_. 0), strtod = (\<lambda>_. 0)\<rparr>"

definition sample_query :: MyQuery where
  "sample_query = MyQuery_new\<lparr>m_pMysql := Some 1, m_pMysqlStmt := Some 2\<rparr>"

definition sample_pack :: "SQL_PACK_TYPE \<Rightarrow> string \<Rightarrow> sql_union \<Rightarrow> (nat list \<times> QWORD list, unit) SqlPack" where
  "sample_pack ty s u = \<lparr>pack_type = ty, sentence = Some s, pack_union = u, sql_callback = Some TESTFUNC, paramNums = 0\<rparr>"

definition sample_sql :: "(nat list \<times> QWORD list, unit) SqlPack list \<Rightarrow> (nat list \<times> QWORD list, unit) sql_sys" where
  "sample_sql q = \<lparr>ss_query = sample_query, ss_queue = q, ss_mtx = MutexLock_new, ss_cv = Condition_new, ss_helper = None, ss_db = ([], []),
     ss_mem = (\<lambda>_. []), ss_world = (), ss_freed = []\<rparr>"

definition sample_bind :: QueryBind where
  "sample_bind = QueryBind_new \<lparr>buffer_type = MYSQL_TYPE_LONG, bind_buffer = 0, buffer_length = 0, is_null_ptr = None,
     length_ptr = None\<rparr> 0 False 1"

lemma sample_sql_simps:
  "mutex_ok (ss_mtx (sample_sql q))" "mx_owner (ss_mtx (sample_sql q)) = None" "ss_queue (sample_sql q) = q"
  by (simp_all add: sample_sql_def MutexLock_new_def mutex_ok_def)

theorem MysqlLoop_turn_order_witness:
  "\<exists>S1. MysqlLoop_turn (sample_lib 0) sample_float (\<lambda>_ _. '''') 5
      (sample_sql [sample_pack SQL_COMMON_TYPE ''select 1'' (UBind (Some sample_bind))]) = Some (Inr S1) \<and>
    ss_queue S1 = [] \<and> ss_freed S1 = [FreePack] \<and> (\<forall>b. FreeBind b \<notin> set (ss_freed S1))"
proof -
  let ?S = "sample_sql [sample_pack SQL_COMMON_TYPE ''select 1'' (UBind (Some sample_bind))]"
  let ?run = "MysqlLoop_turn (sample_lib 0) sample_float (\<lambda>_ _. '''') 5 ?S"
  note turn = MysqlLoop_turn_order [OF sample_sql_simps(1,2), of "[sample_pack SQL_COMMON_TYPE ''select 1'' (UBind (Some sample_bind))]"
      "sample_lib 0" sample_float "\<lambda>_ _. ''''" 5, unfolded sample_sql_simps(3), simplified]
  have "\<exists>S1. ?run = Some (Inr S1) \<and> ss_freed S1 = [FreePack]"
    unfolding turn [THEN conjunct1]
    by (simp add: sample_pack_def ExecuteSentence_def ExecuteSQL_def sample_sql_def sample_query_def sample_lib_def
        run_callback_def TESTFUNC_def qr_Release_def release_pack_def QueryResult_new_def Let_def)
  then show ?thesis using turn [THEN conjunct2] by auto
qed

text \<open>
  A plain SQL task without parameters is never executed. \<^verbatim>\<open>MysqlLoop\<close> skips a pack whose
  bind pointer is null: nothing is sent to the database, the callback is not called, and the
  pack, which is off the queue, is not freed.
\<close>

lemma MysqlLoop_skips_null_bind:
  assumes "mutex_ok (ss_mtx S)" "mx_owner (ss_mtx S) = None" "ss_queue S = [pack]" "pack_union pack = UBind None"
  shows "MysqlLoop_turn L F pl t S = Some (Inr (S\<lparr>ss_queue := []\<rparr>))"
proof -
  have "run_packs L F pl (ss_queue S) (S\<lparr>ss_mtx := \<lparr>mx_owner = Some t, holder = t\<rparr>\<rparr>) =
      Inr (S\<lparr>ss_mtx := \<lparr>mx_owner = Some t, holder = t\<rparr>, ss_queue := []\<rparr>)"
    using assms(3,4) by simp
  from MysqlLoop_turn_runs(1) [OF assms(1,2) _ this] show ?thesis using assms(3) by simp
qed

section \<open>Stored procedures\<close>

text \<open>
  C28: \<^verbatim>\<open>ProcedureHelper::Prepare\<close> reads a parameter list of up to ten declarations correctly. For
  the printed list of direction, name and type of every declaration, with an optional length
  and comma, the parser ends with code 0, as many parameters as declarations, the direction,
  field type and length of each, and the three counters.
\<close>

theorem prepare_parses_declarations:
  assumes "list_all decl_ok ds" "length ds \<le> MAX_PARAM_COUNT"
    "list_all (\<lambda>d. pd_name d \<noteq> [] \<and> list_all (\<lambda>c. \<not> is_space c) (pd_name d)) ds"
    "totalCount p = 0" "parameters p = replicate MAX_PARAM_COUNT SqlParam_zero"
  shows "\<exists>p'. prepare_loop (stream_words (concat (map (\<lambda>w. w @ '' '') (concat (map decl_words ds))))) 0 p = Inr (0, p') \<and>
    totalCount p' = length ds \<and>
    (\<forall>i < length ds. parameters p' ! i = \<lparr>direction = pd_dir (ds ! i), ptype = GetMySqlType (pd_type (ds ! i)),
       plens = (case pd_len (ds ! i) of None \<Rightarrow> 0 | Some n \<Rightarrow> n), bindValue = SAEmpty\<rparr>) \<and>
    inCount p' = inCount p + length (filter (\<lambda>d. pd_dir d = V_IN) ds) \<and>
    outCount p' = outCount p + length (filter (\<lambda>d. pd_dir d = V_OUT) ds) \<and>
    inoutCount p' = inoutCount p + length (filter (\<lambda>d. pd_dir d = V_INOUT) ds)"
proof -
  have "list_all (\<lambda>w. w \<noteq> [] \<and> list_all (\<lambda>c. \<not> is_space c) w) (concat (map decl_words ds))"
    using assms(1,3) decl_words_ok by (fastforce simp: list_all_iff)
  note words = stream_words_unwords [OF this]
  have fits: "totalCount p + length ds \<le> length (parameters p)" using assms by simp
  have zero: "decl_param d SqlParam_zero = \<lparr>direction = pd_dir d, ptype = GetMySqlType (pd_type d),
      plens = (case pd_len d of None \<Rightarrow> 0 | Some n \<Rightarrow> n), bindValue = SAEmpty\<rparr>" for d
    by (simp add: decl_param_def decl_len_def SqlParam_zero_def split: option.split)
  show ?thesis
    using prepare_loop_decls [OF assms(1) fits, of "[]"] fold_add_decl [OF fits] assms(2,4,5)
    by (intro exI [of _ "fold add_decl ds p"]) (simp add: words fold_add_decl_counts zero)
qed

definition sample_helper :: "SqlParam list \<Rightarrow> ProcedureHelper" where
  "sample_helper ps = \<lparr>ph_qr = QueryResult_new, strProc = ''p_test'', strArgs = [], totalCount = length ps,
     inCount = length ps, outCount = 0, inoutCount = 0,
     parameters = ps @ replicate (MAX_PARAM_COUNT - length ps) SqlParam_zero\<rparr>"

definition sample_decl :: "DIRECTION \<Rightarrow> string \<Rightarrow> nat option \<Rightarrow> param_decl" where
  "sample_decl dd ty len = \<lparr>pd_dir = dd, pd_name = ''_a'', pd_type = ty, pd_len = len, pd_comma = True\<rparr>"

theorem prepare_parses_declarations_witness:
  "\<exists>p'. prepare_loop (stream_words (concat (map (\<lambda>w. w @ '' '')
        (concat (map decl_words [sample_decl V_IN ''varchar'' (Some 50), sample_decl V_OUT ''int'' None]))))) 0 (sample_helper []) =
      Inr (0, p') \<and> totalCount p' = 2 \<and> plens (parameters p' ! 0) = 50 \<and> ptype (parameters p' ! 1) = MYSQL_TYPE_LONG \<and>
      direction (parameters p' ! 1) = V_OUT"
proof -
  let ?ds = "[sample_decl V_IN ''varchar'' (Some 50), sample_decl V_OUT ''int'' None]"
  have "list_all decl_ok ?ds" "length ?ds \<le> MAX_PARAM_COUNT" "totalCount (sample_helper []) = 0"
    "list_all (\<lambda>d. pd_name d \<noteq> [] \<and> list_all (\<lambda>c. \<not> is_space c) (pd_name d)) ?ds"
    "parameters (sample_helper []) = replicate MAX_PARAM_COUNT SqlParam_zero"
    by (simp_all add: decl_ok_def sample_decl_def MAX_PARAM_COUNT_def is_space_def sample_helper_def)
  from prepare_parses_declarations [OF this(1,2,4,3,5)] obtain p' where p':
    "prepare_loop (stream_words (concat (map (\<lambda>w. w @ '' '') (concat (map decl_words ?ds))))) 0 (sample_helper []) = Inr (0, p')"
    "totalCount p' = length ?ds"
    "\<And>i. i < length ?ds \<Longrightarrow> parameters p' ! i = \<lparr>direction = pd_dir (?ds ! i), ptype = GetMySqlType (pd_type (?ds ! i)),
       plens = (case pd_len (?ds ! i) of None \<Rightarrow> 0 | Some n \<Rightarrow> n), bindValue = SAEmpty\<rparr>"
    by blast
  have "GetMySqlType ''int'' = MYSQL_TYPE_LONG" by (simp add: GetMySqlType_def char_at_def)
  then have "plens (parameters p' ! 0) = 50 \<and> ptype (parameters p' ! 1) = MYSQL_TYPE_LONG \<and> direction (parameters p' ! 1) = V_OUT"
    using p'(3) [of 0] p'(3) [of 1] by (simp add: sample_decl_def)
  then show ?thesis using p'(1,2) by (intro exI [of _ p']) simp
qed

text \<open>
  C29: the parser does not check the size of its array: after ten declarations any further word
  writes past the end of \<^verbatim>\<open>parameters\<close>.
\<close>

theorem prepare_overruns_array:
  assumes "list_all decl_ok ds" "length ds = MAX_PARAM_COUNT" "totalCount p = 0" "length (parameters p) = MAX_PARAM_COUNT"
  shows "prepare_loop (concat (map decl_words ds) @ w # ws) 0 p = Inl BufferOverflow"
proof -
  have fits: "totalCount p + length ds \<le> length (parameters p)" using assms by simp
  have "prepare_direction w (fold add_decl ds p) = Inl BufferOverflow"
    using fold_add_decl [OF fits] assms by (intro prepare_direction_overrun) simp
  then show ?thesis using prepare_loop_decls [OF assms(1) fits, of "w # ws"] by simp
qed

theorem prepare_overruns_array_witness:
  "prepare_loop (concat (map decl_words (replicate 10 (sample_decl V_IN ''int'' None))) @ [''in'']) 0 (sample_helper []) =
    Inl BufferOverflow"
  by (rule prepare_overruns_array)
    (simp_all add: decl_ok_def sample_decl_def MAX_PARAM_COUNT_def sample_helper_def list_all_iff)

section \<open>Starting the server\<close>







text \<open>
  C30: a procedure with only input values. \<^verbatim>\<open>Execute\<close> sends exactly one statement, the call with
  the values in order and separated by commas, releases the result set of the call and returns
  0; the helper keeps the pointer to the released set.
\<close>

theorem Execute_inputs_only:
  assumes "totalCount p \<le> length (parameters p)"
    "list_all2 (\<lambda>p v. direction p = V_IN \<and> ptype p \<noteq> MYSQL_TYPE_BLOB \<and> AnyValueToString F p = Inr v \<and> v \<noteq> [])
       (take (totalCount p) (parameters p)) vs"
    "ExecuteSQL L (Some (''call '' @ strProc p @ '' ( '' @ join vs @ '' )'')) (Some (ph_qr p)) q db = Inr (0, Some r, q1, db1)"
    "qr_Release L r db1 = Inr db2"
  shows "Execute L F p q db = Inr (0, p\<lparr>ph_qr := r\<rparr>, q1, db2)"
  by (rule Execute_in_only [OF assms])

definition sample_int_param :: SqlParam where
  "sample_int_param = \<lparr>direction = V_IN, ptype = MYSQL_TYPE_LONG, plens = 0, bindValue = SAInt 7\<rparr>"

definition sample_result :: "string \<Rightarrow> QueryResult" where
  "sample_result s = QueryResult_new\<lparr>qr_sql := Some s, qr_res := Some 4, nrow := 1, num_rows := 1, num_fields := 1\<rparr>"

lemma sample_call:
  "ExecuteSQL (sample_lib 0) (Some s) (Some QueryResult_new) sample_query db = Inr (0, Some (sample_result s), sample_query, db)"
  by (simp add: ExecuteSQL_def sample_lib_def sample_query_def sample_result_def Let_def)

lemma sample_int_text: "AnyValueToString sample_float sample_int_param = Inr ''7''"
  by (simp add: AnyValueToString_def sample_int_param_def to_string_def dec_nat.simps digit_def char_of_eq_iff)

lemma sample_inputs:
  "list_all2 (\<lambda>p v. direction p = V_IN \<and> ptype p \<noteq> MYSQL_TYPE_BLOB \<and> AnyValueToString sample_float p = Inr v \<and> v \<noteq> [])
     (take (totalCount (sample_helper [sample_int_param])) (parameters (sample_helper [sample_int_param]))) [''7'']"
  using sample_int_text by (simp add: sample_helper_def) (simp add: sample_int_param_def)

theorem Execute_inputs_only_witness:
  "Execute (sample_lib 0) sample_float (sample_helper [sample_int_param]) sample_query ([], []) =
    Inr (0, (sample_helper [sample_int_param])\<lparr>ph_qr := sample_result ''call p_test ( 7 )''\<rparr>, sample_query, ([4], []))"
  by (rule Execute_inputs_only [OF _ sample_inputs, where ?db1.0 = "([], [])"])
    (simp_all add: sample_helper_def sample_call, simp add: qr_Release_def sample_result_def QueryResult_new_def sample_lib_def)

text \<open>
  C31: running such a procedure and then clearing the helper, as \<^verbatim>\<open>ExecuteProcedure\<close> does, frees the
  result set of the call twice, when the library answers a second free of a set with the fault.
\<close>

theorem Execute_then_Clear:
  assumes "totalCount p \<le> length (parameters p)"
    "list_all2 (\<lambda>p v. direction p = V_IN \<and> ptype p \<noteq> MYSQL_TYPE_BLOB \<and> AnyValueToString F p = Inr v \<and> v \<noteq> [])
       (take (totalCount p) (parameters p)) vs"
    "ExecuteSQL L (Some (''call '' @ strProc p @ '' ( '' @ join vs @ '' )'')) (Some (ph_qr p)) q db = Inr (0, Some r, q1, db1)"
    "qr_res r = Some rs" "qr_stmt r = None" "mysql_free_result L rs db1 = Inr db2"
    "mysql_free_result L rs db2 = Inl DoubleFree"
  shows "bnd (Execute L F p q db) (\<lambda>(code, p', q', db'). ph_Clear L p' db') = Inl DoubleFree"
  by (rule Execute_Clear_double_free [OF assms])

theorem Execute_then_Clear_witness:
  "bnd (Execute (sample_lib 0) sample_float (sample_helper [sample_int_param]) sample_query ([], []))
    (\<lambda>(code, p', q', db'). ph_Clear (sample_lib 0) p' db') = Inl DoubleFree"
  by (rule Execute_then_Clear [OF _ sample_inputs, where ?db1.0 = "([], [])" and ?db2.0 = "([4], [])" and rs = 4])
    (simp_all add: sample_helper_def sample_call, simp_all add: sample_result_def QueryResult_new_def sample_lib_def)

text \<open>
  With an output parameter \<^verbatim>\<open>Execute\<close> never returns 0: after copying the outputs it runs off
  its end without a return statement, and every earlier exit has another code. So the callback
  of a procedure with outputs is never called.
\<close>

lemma Execute_outputs_never_succeed:
  assumes "totalCount p \<le> length (parameters p)"
    "exec_params F 0 (take (totalCount p) (parameters p))
       \<lparr>ex_prep = [], ex_call = ''call '' @ strProc p @ '' ( '', ex_select = []\<rparr> = Inr (Inr x)"
    "ex_select x \<noteq> []"
  shows "Execute L F p q db \<noteq> Inr (0, p', q', db')"
  by (rule Execute_out_no_return [OF assms])

text \<open>
  A value of an \<^verbatim>\<open>INOUT\<close> parameter that is not a blob is passed to \<^verbatim>\<open>sprintf\<close> as a
  \<^verbatim>\<open>std::string\<close> object where a \<^verbatim>\<open>char*\<close> is expected: every such call is undefined behaviour.
\<close>

lemma Execute_inout_undefined:
  assumes "0 < totalCount p" "totalCount p \<le> length (parameters p)" "direction (parameters p ! 0) = V_INOUT"
    "ptype (parameters p ! 0) \<noteq> MYSQL_TYPE_BLOB" "AnyValueToString F (parameters p ! 0) = Inr v" "v \<noteq> []"
  shows "Execute L F p q db = Inl NonPodVararg"
proof -
  obtain n a ps where "totalCount p = Suc n" "parameters p = a # ps"
    using assms(1,2) by (cases "totalCount p"; cases "parameters p") auto
  moreover have "exec_param F 0 (parameters p ! 0) x = Inl NonPodVararg" if "ex_prep x = []" for x
    using assms(3-6) that by (intro exec_param_inout) (simp_all add: PREPARE_SIZE_def)
  ultimately show ?thesis using assms(2) by (simp add: Execute_def)
qed

text \<open>
  Blobs travel as hexadecimal text, two digits per byte, which determines the bytes; the
  loop that writes it overruns the buffer of \<open>0xFA00\<close> characters when the text does not fit with
  its terminator, since the size is checked only afterwards.
\<close>

lemma prep_hex_outcome:
  "prep_hex prep bs =
     (if bs = [] \<or> length prep + 2 * length bs < PREPARE_SIZE then Inr (prep @ concat (map hex_byte bs))
      else Inl BufferOverflow) \<and>
   (concat (map hex_byte bs) = concat (map hex_byte bs') \<longleftrightarrow> bs = bs')"
  using prep_hex_ok [of prep bs] prep_hex_overrun [of prep bs] concat_hex_inj [of bs bs'] by auto

text \<open>
  C32: an integer sent as a procedure argument is read back unchanged, for the two integer field
  types over their whole range.
\<close>

theorem sql_integer_roundtrip:
  assumes "ptype p = MYSQL_TYPE_LONG \<and> bindValue p = SAInt i \<and> - (2 ^ 31) \<le> i \<and> i < 2 ^ 31 \<or>
    ptype p = MYSQL_TYPE_LONGLONG \<and> bindValue p = SAInt64 i \<and> - (2 ^ 63) \<le> i \<and> i < 2 ^ 63"
  shows "bnd (AnyValueToString F p) (\<lambda>s. SqlValueToAny F p (Some s) n) = Inr p"
  using assms value_roundtrip_int [of p i F n] value_roundtrip_int64 [of p i F n] by blast

theorem sql_integer_roundtrip_witness:
  "bnd (AnyValueToString sample_float sample_int_param) (\<lambda>s. SqlValueToAny sample_float sample_int_param (Some s) 1) =
    Inr sample_int_param"
  using sql_integer_roundtrip [of sample_int_param 7 sample_float 1] by (simp add: sample_int_param_def)

section \<open>Statements and logins\<close>





text \<open>
  \<^verbatim>\<open>Init\<close> ignores its port. For any two ports it does the same and leaves the same state,
  apart from the port it records.
\<close>

lemma Init_ignores_port:
  "bnd (Init L user pwd ip dbn port q db) (\<lambda>(ok, q', db'). Inr (ok, q'\<lparr>m_dbInfo := (m_dbInfo q')\<lparr>m_port := 0\<rparr>\<rparr>, db')) =
   bnd (Init L user pwd ip dbn port' q db) (\<lambda>(ok, q', db'). Inr (ok, q'\<lparr>m_dbInfo := (m_dbInfo q')\<lparr>m_port := 0\<rparr>\<rparr>, db'))"
  by (auto simp: Init_def Let_def bnd_def SetInfo_def split: prod.split option.split sum.split)

section \<open>The SQL thread among the others\<close>

text \<open>
  C27: the task queue of \<^verbatim>\<open>MyQuery\<close> under every interleaving of threads that call \<^verbatim>\<open>PrepareSQL\<close>
  with the SQL thread \<open>mt\<close>. Tasks leave the queue in the order they came; the state of the
  database and of the helper objects is that of the tasks run one after the other in that order,
  up to the one being executed; at most one thread holds the lock, and the SQL thread holds it
  all through the execution and the sleep after it; and no wake-up is lost: while the SQL thread
  waits and there are tasks, the thread that pushed has still to notify.
\<close>

theorem sql_system_safe:
  assumes "reach (sq_init S0 mt) (sq_step L F pl) s"
  shows "sq_in s = sq_out s @ ss_queue (sq_obj s) \<and>
    (\<exists>ran. sq_out s = ran @ doing (sq_pc s mt) \<and> run_seq L F pl ran S0 = Inr (core (sq_obj s))) \<and>
    (\<forall>t u. s_holds (sq_pc s t) \<and> s_holds (sq_pc s u) \<longrightarrow> t = u) \<and>
    (sq_pc s mt \<in> {MDrain, MRest, MLeave} \<union> range MPack \<longrightarrow> mx_owner (ss_mtx (sq_obj s)) = Some mt) \<and>
    (mt \<in> set (cond_waiters (ss_cv (sq_obj s))) \<and> ss_queue (sq_obj s) \<noteq> [] \<longrightarrow>
      (\<exists>t. sq_pc s t = QPushed \<or> sq_pc s t = QNotify))"
proof -
  note inv = sqlsys.reach_inv [OF assms]
  note parts = sq_inv_parts [OF inv]
  have "t = u" if "s_holds (sq_pc s t)" "s_holds (sq_pc s u)" for t u
    using sqp.lock_inv_only [OF parts(1) that(2,1)] .
  moreover have "mx_owner (ss_mtx (sq_obj s)) = Some mt" if "sq_pc s mt \<in> {MDrain, MRest, MLeave} \<union> range MPack"
    using that by (intro sqp.lock_inv_owner [OF parts(1)]) auto
  moreover have "\<exists>t. sq_pc s t = QPushed \<or> sq_pc s t = QNotify"
    if "mt \<in> set (cond_waiters (ss_cv (sq_obj s)))" "ss_queue (sq_obj s) \<noteq> []"
    using sq_owes_notify [OF inv that] .
  ultimately show ?thesis using parts(3,6) unfolding sq_ran_def by blast
qed

lemma sample_sql_steps:
  assumes "sq_fault s = None" "sq_pc s t = QIdle" "mutex_ok (ss_mtx (sq_obj s))" "mx_owner (ss_mtx (sq_obj s)) = None"
  shows "\<exists>s'. (sq_step L F pl)\<^sup>*\<^sup>* s s' \<and> sq_in s' = sq_in s @ [pack] \<and> sq_out s' = sq_out s \<and> ss_cv (sq_obj s') = ss_cv (sq_obj s)"
proof -
  let ?m = "\<lparr>mx_owner = Some t, holder = t\<rparr>"
  define s1 where "s1 = sq_goto t (QWant pack) (sq_obj s) s"
  define s2 where "s2 = sq_goto t (QHeld pack) ((sq_obj s1)\<lparr>ss_mtx := ?m\<rparr>) s1"
  define s3 where "s3 = sq_goto t QPushed ((sq_obj s2)\<lparr>ss_queue := ss_queue (sq_obj s2) @ [pack]\<rparr>) (s2\<lparr>sq_in := sq_in s2 @ [pack]\<rparr>)"
  have "sq_step L F pl s s1" unfolding s1_def by (rule sq_call [OF assms(1,2)])
  moreover have "sq_step L F pl s1 s2"
    unfolding s2_def using assms by (intro sq_lock) (auto simp: s1_def sq_goto_def mutex_lock_def assignHolder_def)
  moreover have "sq_step L F pl s2 s3"
    unfolding s3_def using assms(1) by (intro sq_put) (auto simp: s1_def s2_def sq_goto_def)
  ultimately have "(sq_step L F pl)\<^sup>*\<^sup>* s s3" by (meson converse_rtranclp_into_rtranclp rtranclp.rtrancl_refl)
  then show ?thesis by (intro exI [of _ s3]) (simp add: s1_def s2_def s3_def sq_goto_def)
qed

theorem sql_system_safe_witness:
  "\<exists>s. reach (sq_init (sample_sql []) 0) (sq_step (sample_lib 0) sample_float (\<lambda>_ _. '''')) s \<and>
    0 \<in> set (cond_waiters (ss_cv (sq_obj s))) \<and> ss_queue (sq_obj s) = [sample_pack SQL_COMMON_TYPE ''x'' (UBind None)] \<and>
    (\<exists>t. sq_pc s t = QPushed \<or> sq_pc s t = QNotify)"
proof -
  let ?R = "reach (sq_init (sample_sql []) 0) (sq_step (sample_lib 0) sample_float (\<lambda>_ _. ''''))"
  let ?p = "sample_pack SQL_COMMON_TYPE ''x'' (UBind None)" and ?S = "sample_sql []"
  define s0 where "s0 = \<lparr>sq_obj = ?S, sq_pc = (\<lambda>_. QIdle)(0 := MTop), sq_in = [], sq_out = [], sq_fault = None\<rparr>"
  define s1 where "s1 = sq_goto 0 MWant (sq_obj s0) s0"
  define s2 where "s2 = sq_goto 0 MTest ((sq_obj s1)\<lparr>ss_mtx := \<lparr>mx_owner = Some 0, holder = 0\<rparr>\<rparr>) s1"
  define s3 where "s3 = sq_goto 0 MSleep ((sq_obj s2)\<lparr>ss_mtx := MutexLock_new, ss_cv := \<lparr>cond_waiters = [0]\<rparr>\<rparr>) s2"
  have r0: "?R s0" by (rule reach_init) (simp add: sq_init_def s0_def sample_sql_def)
  have r1: "?R s1"
    unfolding s1_def by (rule reach_step [OF r0], rule sq_top) (simp_all add: s0_def sample_sql_def sample_query_def MyQuery_new_def)
  have r2: "?R s2"
    unfolding s2_def by (rule reach_step [OF r1], rule sq_mlock)
      (simp_all add: s0_def s1_def sq_goto_def sample_sql_def mutex_lock_def assignHolder_def MutexLock_new_def)
  have r3: "?R s3"
    unfolding s3_def by (rule reach_step [OF r2], rule sq_wait)
      (simp_all add: s0_def s1_def s2_def sq_goto_def sample_sql_def cond_wait_begin_def UnassignGuard_new_def unassignHolder_def Let_def
        MutexLock_new_def Condition_new_def)
  have "sq_fault s3 = None" "sq_pc s3 1 = QIdle" "mutex_ok (ss_mtx (sq_obj s3))" "mx_owner (ss_mtx (sq_obj s3)) = None"
    by (simp_all add: s0_def s1_def s2_def s3_def sq_goto_def MutexLock_new_def mutex_ok_def)
  then obtain s where s: "(sq_step (sample_lib 0) sample_float (\<lambda>_ _. ''''))\<^sup>*\<^sup>* s3 s" "sq_in s = sq_in s3 @ [?p]"
    "sq_out s = sq_out s3" "ss_cv (sq_obj s) = ss_cv (sq_obj s3)"
    using sample_sql_steps by blast
  have reached: "?R s" by (rule reach_run [OF s(1) r3])
  have "sq_in s = [?p]" "sq_out s = []" "ss_cv (sq_obj s) = \<lparr>cond_waiters = [0]\<rparr>"
    using s by (simp_all add: s0_def s1_def s2_def s3_def sq_goto_def)
  then show ?thesis using sql_system_safe [OF reached] reached by (intro exI [of _ s]) simp
qed

text \<open>
  C25: the server cannot be shut down. Nothing sets either exit flag: in no reachable state of the
  running server and of the SQL thread has one of the two thread functions returned, so that the
  destructor of \<^verbatim>\<open>PetsServer\<close>, called in any such state, waits for good in its first \<^verbatim>\<open>join\<close>.
\<close>

theorem server_never_shuts_down:
  assumes "reach (sv_init m0) (sv_step fl) s"
    and "reach (\<lambda>q. sq_init S0 mt q \<and> \<not> sql_exitFlag (ss_query S0)) (sq_step L F pl) q"
  shows "\<not> m_exitFlag (sv_srv s) \<and> sv_logic s \<noteq> LGone \<and> \<not> sql_exitFlag (ss_query (sq_obj q)) \<and> sq_pc q mt \<noteq> MGone \<and>
    PetsServer_dtor (sv_logic s = LGone) (sq_pc q mt = MGone) (sv_srv s) = Inl Blocked"
  using serversys.reach_inv [OF assms(1)] sqlon.reach_inv [OF assms(2)]
  by (simp add: sv_inv_def server_wf_def sq_on_def PetsServer_dtor_def)

theorem server_never_shuts_down_witness:
  "PetsServer_dtor (sv_logic (sample_live []) = LGone) False (sv_srv (sample_live [])) = Inl Blocked"
proof -
  let ?q = "\<lparr>sq_obj = sample_sql [], sq_pc = (\<lambda>_. QIdle)(0 := MTop), sq_in = [], sq_out = [], sq_fault = None\<rparr>"
  have q: "reach (\<lambda>q. sq_init (sample_sql []) 0 q \<and> \<not> sql_exitFlag (ss_query (sample_sql [])))
      (sq_step (sample_lib 0) sample_float (\<lambda>_ _. '''')) ?q"
    by (rule reach_init) (simp add: sq_init_def sample_sql_def sample_query_def MyQuery_new_def)
  have s: "reach (sv_init sample_manager) (sv_step id) (sample_live [])" by (rule sample_live_reach) simp
  show ?thesis using server_never_shuts_down [OF s q] by auto
qed

section \<open>Connections on several threads\<close>

text \<open>
  C17: \<^verbatim>\<open>onConnection\<close> is not safe on several I/O threads. When two threads draw an id before either
  stores its entry, both connections get the same id and one entry; when the first of them
  closes, the second is up without an entry in the table.
\<close>

theorem GreateDnid_race:
  assumes "race_init s0" "GreateDnid tm rnd (rc_srv s0) = Some d"
  shows "(\<exists>s. reach race_init (race_step tm rnd) s \<and> rc_live s = [1 \<mapsto> d, 2 \<mapsto> d] \<and>
      connections (rc_srv s) = [(d, Connection_of 2)]) \<and>
    (\<exists>s. reach race_init (race_step tm rnd) s \<and> rc_live s = [2 \<mapsto> d] \<and> connections (rc_srv s) = [])"
  using race_same_id [OF assms] race_lost_entry [OF assms] by blast

theorem GreateDnid_race_witness:
  "\<exists>s. reach race_init (race_step (\<lambda>_. 0) (\<lambda>_. 5)) s \<and> rc_live s = [2 \<mapsto> dnid_of 0 5] \<and> connections (rc_srv s) = []"
proof -
  have "GreateDnid (\<lambda>_. 0) (\<lambda>_. 5) sample_server = Some (dnid_of 0 5)"
    unfolding GreateDnid_def by (subst greate_loop.simps) simp
  then show ?thesis
    using GreateDnid_race [of "\<lparr>rc_srv = sample_server, rc_pc = (\<lambda>_. RIdle), rc_live = Map.empty\<rparr>" "\<lambda>_. 0" "\<lambda>_. 5" "dnid_of 0 5"]
    by (simp add: race_init_def)
qed

section \<open>Log lines\<close>

text \<open>
  C38: a log line never overruns its buffer. However many parts are written to a \<^verbatim>\<open>LogStream\<close>, each
  is written whole or left out, exactly when it does not leave a byte free; the writes never
  fault; the size of the buffer stays; and \<^verbatim>\<open>toString\<close> gives the parts kept. A line that fits is
  kept whole.
\<close>

theorem LogStream_bounds:
  assumes "fb_ok (ls_buffer s)"
  shows "\<exists>s'. ls_writes ds s = Inr s' \<and> fb_ok (ls_buffer s') \<and>
    length (fb_data (ls_buffer s')) = length (fb_data (ls_buffer s)) \<and>
    fb_toString (ls_buffer s') =
      fb_toString (ls_buffer s) @ concat (kept (length (fb_data (ls_buffer s))) (fb_cur (ls_buffer s)) ds) \<and>
    (fb_cur (ls_buffer s) + length (concat ds) < length (fb_data (ls_buffer s)) \<longrightarrow>
      fb_toString (ls_buffer s') = fb_toString (ls_buffer s) @ concat ds)"
  using ls_writes_kept [OF assms, of ds] kept_fits [of "fb_cur (ls_buffer s)" ds] assms
  by (auto simp: fb_toString_content)

theorem LogStream_bounds_witness:
  "\<exists>s'. ls_writes [[1, 2], [3, 4, 5], [6]] \<lparr>ls_buffer = FixedBuffer_new [0, 0, 0, 0]\<rparr> = Inr s' \<and>
    fb_toString (ls_buffer s') = [1, 2, 6]"
proof -
  have "fb_ok (FixedBuffer_new [0, 0, 0, 0])" by (simp add: fb_ok_def FixedBuffer_new_def setCookie_def)
  then show ?thesis
    using LogStream_bounds [of "\<lparr>ls_buffer = FixedBuffer_new [0, 0, 0, 0]\<rparr>" "[[1, 2], [3, 4, 5], [6]]"]
    by (auto simp: FixedBuffer_new_def setCookie_def fb_toString_def fb_length_def)
qed

section \<open>Blocking queues\<close>

text \<open>
  C35: \<^verbatim>\<open>BlockingQueue\<close> under every interleaving of any number of threads that put, take, drain
  and ask for the size, with spurious wake-ups. Elements leave in the order they entered, none is
  lost or doubled, at most one thread holds the lock, no assertion fails, and no wake-up is lost:
  while a thread sleeps in \<^verbatim>\<open>take\<close> and the queue is not empty, some thread is awake that is about
  to take or has not yet notified.
\<close>

theorem blocking_queue_safe:
  assumes "reach bq_init bq_step s"
  shows "bq_in s = bq_out s @ bq_queue (bq_obj s) \<and> \<not> bq_fault s \<and>
    (\<forall>t u. b_holds (bq_pc s t) \<and> b_holds (bq_pc s u) \<longrightarrow> t = u) \<and>
    (cond_waiters (bq_notEmpty (bq_obj s)) \<noteq> [] \<and> bq_queue (bq_obj s) \<noteq> [] \<longrightarrow>
      (\<exists>t. bq_pc s t \<in> {TakeWant, TakeTest, TakeOut, PutPushed} \<or>
        bq_pc s t = TakeWait \<and> t \<notin> set (cond_waiters (bq_notEmpty (bq_obj s)))))"
proof -
  note inv = blockq.reach_inv [OF assms, unfolded bq_inv_def]
  have "\<exists>t. bq_pc s t \<in> {TakeWant, TakeTest, TakeOut, PutPushed} \<or>
      bq_pc s t = TakeWait \<and> t \<notin> set (cond_waiters (bq_notEmpty (bq_obj s)))"
    if "cond_waiters (bq_notEmpty (bq_obj s)) \<noteq> []" "bq_queue (bq_obj s) \<noteq> []"
  proof -
    have "takew.wakers (bq_pc s) (bq_notEmpty (bq_obj s)) \<noteq> {}"
      using inv that by (intro takew.wake_inv_progress [where n = "length (bq_queue (bq_obj s))"]) simp_all
    then obtain t where "take_busy (bq_pc s t) \<or> take_slp (bq_pc s t) \<and> t \<notin> set (cond_waiters (bq_notEmpty (bq_obj s)))"
      by (auto simp: takew.wakers_def)
    then show ?thesis by (intro exI [of _ t]) (cases "bq_pc s t"; simp)
  qed
  moreover have "t = u" if "b_holds (bq_pc s t)" "b_holds (bq_pc s u)" for t u
    using bqp.lock_inv_only [OF inv [THEN conjunct1] that(2,1)] .
  ultimately show ?thesis using inv by blast
qed

theorem blocking_queue_safe_witness:
  "\<exists>s. reach bq_init bq_step s \<and> bq_in s = [5 :: nat] \<and> bq_queue (bq_obj s) = [5] \<and> \<not> bq_fault s"
proof -
  let ?start = "\<lparr>bq_obj = BlockingQueue_new, bq_pc = (\<lambda>_. BIdle), bq_in = [], bq_out = [], bq_fault = False\<rparr> :: nat bq_sys"
  obtain q where q: "bq_put hd 1 (5 :: nat) BlockingQueue_new = Some (Inr ((), q))" "bq_queue q = [5]"
    by (simp add: bq_put_def bq_guarded_def BlockingQueue_new_def MutexLockGuard_new_def MutexLockGuard_dtor_def
        MutexLock_new_def mutex_lock_def mutex_unlock_def assignHolder_def unassignHolder_def Let_def)
  have run: "bq_step\<^sup>*\<^sup>* ?start (?start\<lparr>bq_obj := q, bq_in := [5]\<rparr>)"
    using bq_put_runs [of ?start 1 hd 5 q] q by simp
  have start: "reach bq_init bq_step ?start" by (rule reach_init) (simp add: bq_init_def)
  have "reach bq_init bq_step (?start\<lparr>bq_obj := q, bq_in := [5]\<rparr>)"
    using run by (induction rule: rtranclp_induct) (auto intro: start reach_step)
  from this blocking_queue_safe [OF this] q(2) show ?thesis
    by (intro exI [of _ "?start\<lparr>bq_obj := q, bq_in := [5]\<rparr>"]) simp
qed

text \<open>
  C36: \<^verbatim>\<open>BoundedBlockingQueue\<close> under every interleaving, for a container that does what
  \<^verbatim>\<open>boost::circular_buffer\<close> documents. Elements leave in the order they entered, there are never
  more than the capacity, no assertion fails, and no wake-up is lost on either side: once no
  thread is awake inside a call, a sleeping taker means an empty queue and a sleeping putter a
  full one, so that the two never sleep together for good.
\<close>

theorem bounded_queue_safe:
  assumes "circ_laws C els" "0 < n" "reach (bb_init C n) (bb_step C) s"
  shows "bb_in s = bb_out s @ els (bb_queue (bb_obj s)) \<and> length (els (bb_queue (bb_obj s))) \<le> nat n \<and> \<not> bb_fault s \<and>
    ((\<forall>t. bb_pc s t = BIdle \<or> t \<in> set (cond_waiters (bb_notEmpty (bb_obj s))) \<union> set (cond_waiters (bb_notFull (bb_obj s)))) \<longrightarrow>
      (cond_waiters (bb_notEmpty (bb_obj s)) \<noteq> [] \<longrightarrow> els (bb_queue (bb_obj s)) = []) \<and>
      (cond_waiters (bb_notFull (bb_obj s)) \<noteq> [] \<longrightarrow> length (els (bb_queue (bb_obj s))) = nat n) \<and>
      (cond_waiters (bb_notEmpty (bb_obj s)) = [] \<or> cond_waiters (bb_notFull (bb_obj s)) = []))"
proof -
  let ?xs = "els (bb_queue (bb_obj s))" and ?ce = "bb_notEmpty (bb_obj s)" and ?cf = "bb_notFull (bb_obj s)"
  have inv: "bb_inv C els (nat n) s" using bb_reach_inv [OF assms(1) _ assms(3)] assms(2) by simp
  note T = bb_inv_parts(2) [OF inv] and P = bb_inv_parts(3) [OF inv]
  have quiet: "takew.wakers (bb_pc s) ?ce = {}" "putw.wakers (bb_pc s) ?cf = {}"
    if idle: "\<forall>t. bb_pc s t = BIdle \<or> t \<in> set (cond_waiters ?ce) \<union> set (cond_waiters ?cf)"
    using quiet_no_wakers [OF T P idle] by simp_all
  have "?xs = []" if "\<forall>t. bb_pc s t = BIdle \<or> t \<in> set (cond_waiters ?ce) \<union> set (cond_waiters ?cf)" "cond_waiters ?ce \<noteq> []"
    using quiet(1) [OF that(1)] T that(2) by (simp add: takew.wake_inv_def)
  moreover have "length ?xs = nat n"
    if "\<forall>t. bb_pc s t = BIdle \<or> t \<in> set (cond_waiters ?ce) \<union> set (cond_waiters ?cf)" "cond_waiters ?cf \<noteq> []"
    using quiet(2) [OF that(1)] P that(2) bb_inv_parts(5) [OF inv] by (simp add: putw.wake_inv_def)
  ultimately show ?thesis using bb_inv_parts(5-7) [OF inv] assms(2) by fastforce
qed

text \<open>A container with the documented behaviour: the capacity and the elements.\<close>

definition sample_circ :: "(nat, nat \<times> nat list) circ_lib" where
  "sample_circ = \<lparr>circ_new = \<lambda>n. (nat n, []), circ_full = \<lambda>(c, xs). length xs = c, circ_empty = \<lambda>(c, xs). xs = [],
     circ_push_back = \<lambda>x (c, xs). (c, xs @ [x]), circ_front = \<lambda>(c, xs). hd xs, circ_pop_front = \<lambda>(c, xs). (c, tl xs),
     circ_size = \<lambda>(c, xs). length xs, circ_capacity = fst\<rparr>"

theorem bounded_queue_safe_witness:
  "\<exists>s. reach (bb_init sample_circ 3) (bb_step sample_circ) s \<and> bb_pc s 1 = PutWant 8 \<and>
    length (snd (bb_queue (bb_obj s))) \<le> 3 \<and> \<not> bb_fault s"
proof -
  let ?start = "\<lparr>bb_obj = BoundedBlockingQueue_new sample_circ 3, bb_pc = (\<lambda>_. BIdle), bb_in = [], bb_out = [],
    bb_fault = False\<rparr> :: (nat, nat \<times> nat list) bb_sys"
  let ?s = "bb_goto 1 (PutWant 8) (bb_obj ?start) ?start"
  have "reach (bb_init sample_circ 3) (bb_step sample_circ) ?start" by (rule reach_init) (simp add: bb_init_def)
  then have r: "reach (bb_init sample_circ 3) (bb_step sample_circ) ?s"
    by (rule reach_step) (rule bb_put_call, simp)
  have "circ_laws sample_circ snd" by (auto simp: circ_laws_def sample_circ_def)
  from bounded_queue_safe [OF this _ r] show ?thesis
    using r by (intro exI [of _ ?s]) (simp add: bb_goto_def)
qed

text \<open>
  C37: the blocking queues of muduo are atomic queues, the bounded one with its capacity. Under
  every interleaving, with waits and spurious wake-ups, each reachable state maps to a reachable
  state of the atomic queue, and each step to a call, the effect or the return of an operation
  there, or to no step; a put takes effect only when there is room and a take only when there is
  an element.
\<close>

theorem blocking_queues_atomic:
  assumes "reach bq_init bq_step s"
    and "circ_laws C els" "0 \<le> n" "reach (bb_init C n) (bb_step C) b"
  shows "reach aq_init (aq_step None) (bq_abs s) \<and>
    (\<forall>s'. bq_step s s' \<longrightarrow> bq_abs s' = bq_abs s \<or> aq_step None (bq_abs s) (bq_abs s')) \<and>
    reach aq_init (aq_step (Some (nat n))) (bb_abs els b) \<and>
    (\<forall>b'. bb_step C b b' \<longrightarrow> bb_abs els b' = bb_abs els b \<or> aq_step (Some (nat n)) (bb_abs els b) (bb_abs els b'))"
proof -
  have b: "reach (bb_start C els n) (bb_step C) b" using assms(2-4) by (simp add: bb_start_init)
  show ?thesis
    using blockatomic.abs_reach [OF assms(1)] blockatomic.abs_step_reach [OF assms(1)]
      boundatomic.abs_reach [OF b] boundatomic.abs_step_reach [OF b] by blast
qed

theorem blocking_queues_atomic_witness:
  "reach aq_init (aq_step (Some 2)) (bb_abs snd (\<lparr>bb_obj = BoundedBlockingQueue_new sample_circ 2, bb_pc = (\<lambda>_. BIdle),
    bb_in = [], bb_out = [], bb_fault = False\<rparr>))"
proof -
  let ?s = "\<lparr>bq_obj = BlockingQueue_new, bq_pc = (\<lambda>_. BIdle), bq_in = [], bq_out = [], bq_fault = False\<rparr> :: nat bq_sys"
  let ?b = "\<lparr>bb_obj = BoundedBlockingQueue_new sample_circ 2, bb_pc = (\<lambda>_. BIdle), bb_in = [], bb_out = [], bb_fault = False\<rparr>"
  have s: "reach bq_init bq_step ?s" by (rule reach_init) (simp add: bq_init_def)
  have b: "reach (bb_init sample_circ 2) (bb_step sample_circ) ?b" by (rule reach_init) (simp add: bb_init_def)
  have laws: "circ_laws sample_circ snd" by (auto simp: circ_laws_def sample_circ_def)
  show ?thesis using blocking_queues_atomic [OF s laws _ b] by simp
qed

section \<open>Library classes\<close>

text \<open>
  C39: the comparison operators of \<^verbatim>\<open>StringPiece\<close> are the lexicographic order on unsigned bytes,
  which is a strict total order, \<^verbatim>\<open>compare\<close> has the sign of that order, equality is equality of
  the bytes, and \<^verbatim>\<open>starts_with\<close> is the prefix relation.
\<close>

theorem StringPiece_order:
  assumes "sp_ok p" "sp_ok x"
  shows "sp_less p x = Inr (bytes_less (sp_bytes p) (sp_bytes x)) \<and>
    sp_less_eq p x = Inr (bytes_less (sp_bytes p) (sp_bytes x) \<or> sp_bytes p = sp_bytes x) \<and>
    sp_greater p x = Inr (bytes_less (sp_bytes x) (sp_bytes p)) \<and>
    sp_greater_eq p x = Inr (bytes_less (sp_bytes x) (sp_bytes p) \<or> sp_bytes p = sp_bytes x) \<and>
    sp_eq p x = Inr (sp_bytes p = sp_bytes x) \<and>
    (\<exists>r. sp_compare p x = Inr r \<and> (r < 0 \<longleftrightarrow> bytes_less (sp_bytes p) (sp_bytes x)) \<and> (r = 0 \<longleftrightarrow> sp_bytes p = sp_bytes x)) \<and>
    sp_starts_with p x = Inr (prefix (sp_bytes x) (sp_bytes p)) \<and>
    (bytes_less (sp_bytes p) (sp_bytes x) \<or> sp_bytes p = sp_bytes x \<or> bytes_less (sp_bytes x) (sp_bytes p)) \<and>
    \<not> (bytes_less (sp_bytes p) (sp_bytes x) \<and> bytes_less (sp_bytes x) (sp_bytes p))"
proof -
  have asym: "\<not> (bytes_less (sp_bytes p) (sp_bytes x) \<and> bytes_less (sp_bytes x) (sp_bytes p))"
    using bytes_less_trans [of "sp_bytes p" "sp_bytes x" "sp_bytes p"] by auto
  have total: "\<not> bytes_less (sp_bytes x) (sp_bytes p) \<longleftrightarrow> bytes_less (sp_bytes p) (sp_bytes x) \<or> sp_bytes p = sp_bytes x"
    "\<not> bytes_less (sp_bytes p) (sp_bytes x) \<longleftrightarrow> bytes_less (sp_bytes x) (sp_bytes p) \<or> sp_bytes p = sp_bytes x"
    using asym bytes_less_total [of "sp_bytes p" "sp_bytes x"] bytes_less_irrefl by metis+
  show ?thesis
    using sp_orders [OF assms, unfolded total] sp_eq_ok [OF assms] sp_compare_ok [OF assms] sp_starts_with_ok [OF assms] asym
      bytes_less_total [of "sp_bytes p" "sp_bytes x"] by blast
qed

theorem StringPiece_order_witness:
  "sp_less (StringPiece_string [0x7F]) (StringPiece_string [0x80]) = Inr True \<and>
   sp_starts_with (StringPiece_string [1, 2, 3]) (StringPiece_string [1, 2]) = Inr True"
proof -
  have "sp_ok (StringPiece_string s)" "sp_bytes (StringPiece_string s) = s" if "length s \<le> 3" for s
    using StringPiece_string_ok [of s] that by auto
  then show ?thesis
    using StringPiece_order [of "StringPiece_string [0x7F]" "StringPiece_string [0x80]"]
      StringPiece_order [of "StringPiece_string [1, 2, 3]" "StringPiece_string [1, 2]"]
    by simp
qed

text \<open>
  \<^verbatim>\<open>HttpRequest::addHeader\<close> on a line with a colon stores the text behind the colon without
  the white space at its two ends under the text before it, as the value \<^verbatim>\<open>getHeader\<close> returns,
  replaces an earlier value, and changes no other header and nothing else of the request; a line
  without colon, passed with the colon at its end, raises \<^verbatim>\<open>length_error\<close>.
\<close>

lemma HttpRequest_headers:
  assumes "map_ok (rq_headers r)" "first \<le> colon" "colon \<le> fin" "fin \<le> length line"
  shows "if colon = fin then addHeader line first colon fin r = Inl LengthError
    else \<exists>r'. addHeader line first colon fin r = Inr r' \<and> map_ok (rq_headers r') \<and>
      r'\<lparr>rq_headers := rq_headers r\<rparr> = r \<and>
      (\<forall>f. getHeader f r' = (if f = take (colon - first) (drop first line)
         then strip (take (fin - Suc colon) (drop (Suc colon) line)) else getHeader f r))"
proof (cases "colon = fin")
  case True
  then show ?thesis using addHeader_reversed [of first fin line r] assms by simp
next
  case False
  then show ?thesis
    using addHeader_ok [of first colon fin line r] assms by (auto simp: getHeader_def smap.ok_put smap.find_put)
qed

text \<open>
  C40: \<^verbatim>\<open>GzipFile\<close> owns its handle. However objects are moved and move-assigned, destroying all of
  them afterwards closes every handle that the first objects held exactly once.
\<close>

theorem GzipFile_closed_once:
  assumes "\<forall>i < length ops. gz_op_ok (ops ! i) (length (fold gz_run (take i ops) fs))"
  shows "\<exists>hs. destroy_all Z (fold gz_run ops fs) z = fold (gzclose Z) hs z \<and> mset hs = mset (handles fs)"
proof -
  have "mset (handles (fold gz_run ops fs)) = mset (handles fs)" using gz_runs_handles [OF assms] .
  then show ?thesis by (intro exI [of _ "handles (fold gz_run ops fs)"]) (simp add: destroy_all_closes)
qed

definition sample_zlib :: "nat list zlib" where
  "sample_zlib = \<lparr>gzopen = \<lambda>f m z. (Some 1, z), gzclose = \<lambda>h z. z @ [h], gzbuffer = \<lambda>h n z. (0, z),
     gzread = \<lambda>h n z. (0, [], z), gzwrite = \<lambda>h b n z. (0, z), gztell = \<lambda>h z. 0, gzoffset = \<lambda>h z. 0\<rparr>"

theorem GzipFile_closed_once_witness:
  "mset (destroy_all sample_zlib (fold gz_run [GzMove 0, GzAssign 1 2] [GzipFile_of (Some 4), GzipFile_of (Some 9)]) []) =
    mset [4, 9]"
proof -
  have app: "fold (gzclose sample_zlib) hs z = z @ hs" for hs z
    by (induction hs arbitrary: z) (simp_all add: sample_zlib_def)
  have "\<forall>i < length [GzMove 0, GzAssign 1 2]. gz_op_ok ([GzMove 0, GzAssign 1 2] ! i)
      (length (fold gz_run (take i [GzMove 0, GzAssign 1 2]) [GzipFile_of (Some 4), GzipFile_of (Some 9)]))"
    by (auto simp: less_Suc_eq GzipFile_move_def)
  from GzipFile_closed_once [OF this, of sample_zlib "[]"] show ?thesis
    by (auto simp: app handles_def GzipFile_of_def)
qed

end
